(* ===== verification/Pgc_Prelude.thy ===== *)
theory Pgc_Prelude
  imports Complex_Main "HOL-Library.Multiset"
begin

text \<open>
  The C fragment that every component shares: two's-complement integers of a fixed width,
  bounded copies into character buffers, decimal rendering, and C enumerations as a datatype
  with its integer codes. Strings are lists of characters without the terminating NUL.
\<close>

named_theorems cint \<open>facts about wrapped machine integers\<close>
named_theorems cstr \<open>facts about bounded C strings\<close>
named_theorems enum_simps \<open>codes and decoders of the C enumerations\<close>


section \<open>Machine integers\<close>

text \<open>
  A C integer is the HOL integer it denotes. An arithmetic operation whose mathematical
  result may leave the type is followed by the reduction to its width: PostgreSQL and its
  extensions are built with \<open>-fwrapv\<close>, so signed overflow wraps.
\<close>

definition wrap16 :: "int \<Rightarrow> int" where
  "wrap16 x = signed_take_bit 15 x"

definition wrap32 :: "int \<Rightarrow> int" where
  "wrap32 x = signed_take_bit 31 x"

definition wrap64 :: "int \<Rightarrow> int" where
  "wrap64 x = signed_take_bit 63 x"

abbreviation is_int16 :: "int \<Rightarrow> bool" where
  "is_int16 x \<equiv> - 32768 \<le> x \<and> x < 32768"

abbreviation is_int32 :: "int \<Rightarrow> bool" where
  "is_int32 x \<equiv> - 2147483648 \<le> x \<and> x < 2147483648"

abbreviation is_int64 :: "int \<Rightarrow> bool" where
  "is_int64 x \<equiv> - 9223372036854775808 \<le> x \<and> x < 9223372036854775808"

lemma wrap16_id [cint]: "is_int16 x \<Longrightarrow> wrap16 x = x"
  unfolding wrap16_def by (rule signed_take_bit_int_eq_self) simp_all

lemma wrap32_id [cint]: "is_int32 x \<Longrightarrow> wrap32 x = x"
  unfolding wrap32_def by (rule signed_take_bit_int_eq_self) simp_all

lemma wrap64_id [cint]: "is_int64 x \<Longrightarrow> wrap64 x = x"
  unfolding wrap64_def by (rule signed_take_bit_int_eq_self) simp_all

lemma wrap32_range: "is_int32 (wrap32 x)"
  using signed_take_bit_int_greater_eq_minus_exp [of 31 x] signed_take_bit_int_less_exp [of 31 x]
  by (simp add: wrap32_def)

lemma wrap64_range: "is_int64 (wrap64 x)"
  using signed_take_bit_int_greater_eq_minus_exp [of 63 x] signed_take_bit_int_less_exp [of 63 x]
  by (simp add: wrap64_def)


section \<open>Character buffers\<close>

text \<open>
  \<open>strlcpy (dst, src, n)\<close> and \<open>snprintf (dst, n, \<dots>)\<close> leave at most \<open>n - 1\<close> characters.
  \<open>NAMEDATALEN\<close> is the identifier length of a default PostgreSQL build.
\<close>

definition NAMEDATALEN :: nat where
  "NAMEDATALEN = 64"

definition strlcpy :: "string \<Rightarrow> nat \<Rightarrow> string" where
  "strlcpy src n = take (n - 1) src"

definition snprintf :: "nat \<Rightarrow> string \<Rightarrow> string" where
  "snprintf n formatted = take (n - 1) formatted"

lemma length_strlcpy [cstr]: "0 < n \<Longrightarrow> length (strlcpy s n) < n"
  by (auto simp: strlcpy_def min_def)

lemma length_snprintf [cstr]: "0 < n \<Longrightarrow> length (snprintf n s) < n"
  by (auto simp: snprintf_def min_def)

lemma strlcpy_id [cstr]: "length s < n \<Longrightarrow> strlcpy s n = s"
  by (simp add: strlcpy_def)

lemma snprintf_id [cstr]: "length s < n \<Longrightarrow> snprintf n s = s"
  by (simp add: snprintf_def)

lemma strlcpy_Nil [simp]: "strlcpy [] n = []"
  by (simp add: strlcpy_def)

lemma strlcpy_eq_Nil_iff [cstr]: "1 < n \<Longrightarrow> strlcpy s n = [] \<longleftrightarrow> s = []"
  by (auto simp: strlcpy_def)


section \<open>Decimal rendering\<close>

definition digit_char :: "nat \<Rightarrow> char" where
  "digit_char d = char_of (48 + d)"

definition char_digit :: "char \<Rightarrow> nat" where
  "char_digit c = of_char c - 48"

fun show_nat :: "nat \<Rightarrow> string" where
  "show_nat n = (if n < 10 then [digit_char n] else show_nat (n div 10) @ [digit_char (n mod 10)])"

declare show_nat.simps [simp del]

definition show_int :: "int \<Rightarrow> string" where
  "show_int i = (if i < 0 then CHR ''-'' # show_nat (nat (- i)) else show_nat (nat i))"

definition read_nat :: "string \<Rightarrow> nat" where
  "read_nat s = foldl (\<lambda>n c. 10 * n + char_digit c) 0 s"

definition is_digit :: "char \<Rightarrow> bool" where
  "is_digit c \<longleftrightarrow> 48 \<le> (of_char c :: nat) \<and> (of_char c :: nat) \<le> 57"

lemma char_digit_digit_char [simp]: "d < 10 \<Longrightarrow> char_digit (digit_char d) = d"
  by (simp add: digit_char_def char_digit_def)

lemma is_digit_digit_char [simp]: "d < 10 \<Longrightarrow> is_digit (digit_char d)"
  by (simp add: digit_char_def is_digit_def)

lemma comma_not_digit [simp]: "\<not> is_digit (CHR '','')"
  by (simp add: is_digit_def)

lemma show_nat_digits: "\<forall>c \<in> set (show_nat n). is_digit c"
proof (induction n rule: show_nat.induct)
  case (1 n)
  then show ?case by (subst show_nat.simps) auto
qed

lemma show_nat_nonempty [simp]: "show_nat n \<noteq> []"
  by (subst show_nat.simps) simp

lemma show_nat_no_comma: "CHR '','' \<notin> set (show_nat n)"
  using show_nat_digits comma_not_digit by blast

lemma read_show_nat [simp]: "read_nat (show_nat n) = n"
proof (induction n rule: show_nat.induct)
  case (1 n)
  show ?case
  proof (cases "n < 10")
    case True
    then show ?thesis by (subst show_nat.simps) (simp add: read_nat_def)
  next
    case False
    with "1.IH" have "read_nat (show_nat (n div 10)) = n div 10" by simp
    with False show ?thesis
      by (subst show_nat.simps) (simp add: read_nat_def)
  qed
qed

lemma length_show_nat: "0 < k \<Longrightarrow> n < 10 ^ k \<Longrightarrow> length (show_nat n) \<le> k"
proof (induction n arbitrary: k rule: show_nat.induct)
  case (1 n)
  show ?case
  proof (cases "n < 10")
    case True
    with "1.prems" show ?thesis by (subst show_nat.simps) simp
  next
    case False
    with "1.prems" obtain j where k: "k = Suc j" "0 < j"
      by (cases k; cases "k - 1") auto
    with "1.prems" have "n div 10 < 10 ^ j"
      by (simp add: less_mult_imp_div_less mult.commute)
    with "1.IH" False k have "length (show_nat (n div 10)) \<le> j" by simp
    with False k show ?thesis by (subst show_nat.simps) simp
  qed
qed


section \<open>C enumerations\<close>

text \<open>
  An enumeration is a datatype with the source's enumerators; \<open>code\<close> gives the integer an
  enumerator stands for and \<open>decode\<close> the enumerator of an integer, if it has one (a C switch
  falls to its default otherwise). The codes of every enumeration here fit an \<open>int16\<close>, the
  width the event ring stores them at.
\<close>

locale c_enum =
  fixes code :: "'e \<Rightarrow> int" and decode :: "int \<Rightarrow> 'e option"
  assumes decode_code: "decode (code x) = Some x"
    and code_decode: "decode c = Some x \<Longrightarrow> code x = c"
    and code_nonneg: "0 \<le> code x"
    and code_bound: "code x < 32768"
begin

lemma decode_eq_Some_iff: "decode c = Some x \<longleftrightarrow> c = code x"
  using decode_code code_decode by auto

lemma code_eq_iff: "code x = code y \<longleftrightarrow> x = y"
  by (metis decode_code option.inject)

lemma stored_code: "wrap16 (code x) = code x"
  using code_nonneg [of x] code_bound [of x] by (simp add: wrap16_id)

lemma decode_stored: "decode (wrap16 (code x)) = Some x"
  by (simp add: stored_code decode_code)

end


section \<open>Maxima of scans\<close>

text \<open>A field that every step of a scan raises to the value of the selected elements.\<close>

lemma fold_field_Max:
  fixes f :: "'s \<Rightarrow> 'v :: linorder"
  assumes "\<And>x s. I s \<Longrightarrow> I (step x s) \<and> f (step x s) = (if P x then max (f s) (g x) else f s)"
    and "I s"
  shows "f (fold step xs s) = Max (insert (f s) (g ` set (filter P xs)))"
  using assms(2)
proof (induction xs arbitrary: s)
  case Nil
  then show ?case by simp
next
  case (Cons x xs)
  have m: "Max (insert (max a b) A) = Max (insert a (insert b A))" if "finite A" for a b and A :: "'v set"
    using that by (cases "A = {}") (simp_all add: max.assoc)
  from Cons.IH [of "step x s"] assms(1) [OF Cons.prems] show ?case
    by (simp add: m)
qed

end
