(* ===== verification/Pgc_Types.thy ===== *)
theory Pgc_Types
  imports Pgc_Prelude
begin

text \<open>
  The enumerations of \<open>include/pg_circuit.h\<close>, \<open>policy.h\<close>, \<open>risk_engine.h\<close> and
  \<open>runtime_state.h\<close>: each as a datatype with the source's enumerators, the integer code
  of every enumerator and the enumerator of a code. The classes the program compares with
  \<open><\<close> are linear orders by their codes.
\<close>


section \<open>Operating modes (pg_circuit.h).\<close>

datatype PgCircuitMode =
    PGC_MODE_OBSERVE
  | PGC_MODE_WARN
  | PGC_MODE_ENFORCE

primrec PgCircuitMode_code :: "PgCircuitMode \<Rightarrow> int" where
  "PgCircuitMode_code PGC_MODE_OBSERVE = 0"
| "PgCircuitMode_code PGC_MODE_WARN = 1"
| "PgCircuitMode_code PGC_MODE_ENFORCE = 2"

definition PgCircuitMode_of :: "int \<Rightarrow> PgCircuitMode option" where
  "PgCircuitMode_of c =
     (if c = 0 then Some PGC_MODE_OBSERVE
      else if c = 1 then Some PGC_MODE_WARN
      else if c = 2 then Some PGC_MODE_ENFORCE
      else None)"

interpretation mode_enum: c_enum PgCircuitMode_code PgCircuitMode_of
proof
  show "PgCircuitMode_of (PgCircuitMode_code x) = Some x" for x
    by (cases x) (simp_all add: PgCircuitMode_of_def)
  show "PgCircuitMode_code x = c" if "PgCircuitMode_of c = Some x" for c x
    using that by (auto simp: PgCircuitMode_of_def split: if_splits)
  show "0 \<le> PgCircuitMode_code x" and "PgCircuitMode_code x < 32768" for x
    by (cases x, simp_all)+
qed

lemmas PgCircuitMode_decode [enum_simps] = mode_enum.decode_code mode_enum.decode_stored


section \<open>Runtime safety modes (pg_circuit.h).\<close>

datatype PgCircuitSafetyMode =
    PGC_SAFETY_NORMAL
  | PGC_SAFETY_PROTECT
  | PGC_SAFETY_EMERGENCY

primrec PgCircuitSafetyMode_code :: "PgCircuitSafetyMode \<Rightarrow> int" where
  "PgCircuitSafetyMode_code PGC_SAFETY_NORMAL = 0"
| "PgCircuitSafetyMode_code PGC_SAFETY_PROTECT = 1"
| "PgCircuitSafetyMode_code PGC_SAFETY_EMERGENCY = 2"

definition PgCircuitSafetyMode_of :: "int \<Rightarrow> PgCircuitSafetyMode option" where
  "PgCircuitSafetyMode_of c =
     (if c = 0 then Some PGC_SAFETY_NORMAL
      else if c = 1 then Some PGC_SAFETY_PROTECT
      else if c = 2 then Some PGC_SAFETY_EMERGENCY
      else None)"

interpretation safety_enum: c_enum PgCircuitSafetyMode_code PgCircuitSafetyMode_of
proof
  show "PgCircuitSafetyMode_of (PgCircuitSafetyMode_code x) = Some x" for x
    by (cases x) (simp_all add: PgCircuitSafetyMode_of_def)
  show "PgCircuitSafetyMode_code x = c" if "PgCircuitSafetyMode_of c = Some x" for c x
    using that by (auto simp: PgCircuitSafetyMode_of_def split: if_splits)
  show "0 \<le> PgCircuitSafetyMode_code x" and "PgCircuitSafetyMode_code x < 32768" for x
    by (cases x, simp_all)+
qed

lemmas PgCircuitSafetyMode_decode [enum_simps] = safety_enum.decode_code safety_enum.decode_stored


section \<open>Configured runtime mode (pg_circuit.h).\<close>

datatype PgCircuitRuntimeModeConfig =
    PGC_RUNTIME_CFG_NORMAL
  | PGC_RUNTIME_CFG_PROTECT
  | PGC_RUNTIME_CFG_EMERGENCY
  | PGC_RUNTIME_CFG_AUTO

primrec PgCircuitRuntimeModeConfig_code :: "PgCircuitRuntimeModeConfig \<Rightarrow> int" where
  "PgCircuitRuntimeModeConfig_code PGC_RUNTIME_CFG_NORMAL = 0"
| "PgCircuitRuntimeModeConfig_code PGC_RUNTIME_CFG_PROTECT = 1"
| "PgCircuitRuntimeModeConfig_code PGC_RUNTIME_CFG_EMERGENCY = 2"
| "PgCircuitRuntimeModeConfig_code PGC_RUNTIME_CFG_AUTO = 3"

definition PgCircuitRuntimeModeConfig_of :: "int \<Rightarrow> PgCircuitRuntimeModeConfig option" where
  "PgCircuitRuntimeModeConfig_of c =
     (if c = 0 then Some PGC_RUNTIME_CFG_NORMAL
      else if c = 1 then Some PGC_RUNTIME_CFG_PROTECT
      else if c = 2 then Some PGC_RUNTIME_CFG_EMERGENCY
      else if c = 3 then Some PGC_RUNTIME_CFG_AUTO
      else None)"

interpretation runtime_cfg_enum: c_enum PgCircuitRuntimeModeConfig_code PgCircuitRuntimeModeConfig_of
proof
  show "PgCircuitRuntimeModeConfig_of (PgCircuitRuntimeModeConfig_code x) = Some x" for x
    by (cases x) (simp_all add: PgCircuitRuntimeModeConfig_of_def)
  show "PgCircuitRuntimeModeConfig_code x = c" if "PgCircuitRuntimeModeConfig_of c = Some x" for c x
    using that by (auto simp: PgCircuitRuntimeModeConfig_of_def split: if_splits)
  show "0 \<le> PgCircuitRuntimeModeConfig_code x" and "PgCircuitRuntimeModeConfig_code x < 32768" for x
    by (cases x, simp_all)+
qed

lemmas PgCircuitRuntimeModeConfig_decode [enum_simps] = runtime_cfg_enum.decode_code runtime_cfg_enum.decode_stored


section \<open>Workload classes (pg_circuit.h).\<close>

datatype PgCircuitWorkloadClass =
    PGC_WCLASS_READ
  | PGC_WCLASS_OLTP_SMALL
  | PGC_WCLASS_BULK_WRITE
  | PGC_WCLASS_DDL
  | PGC_WCLASS_MAINTENANCE

primrec PgCircuitWorkloadClass_code :: "PgCircuitWorkloadClass \<Rightarrow> int" where
  "PgCircuitWorkloadClass_code PGC_WCLASS_READ = 0"
| "PgCircuitWorkloadClass_code PGC_WCLASS_OLTP_SMALL = 1"
| "PgCircuitWorkloadClass_code PGC_WCLASS_BULK_WRITE = 2"
| "PgCircuitWorkloadClass_code PGC_WCLASS_DDL = 3"
| "PgCircuitWorkloadClass_code PGC_WCLASS_MAINTENANCE = 4"

definition PgCircuitWorkloadClass_of :: "int \<Rightarrow> PgCircuitWorkloadClass option" where
  "PgCircuitWorkloadClass_of c =
     (if c = 0 then Some PGC_WCLASS_READ
      else if c = 1 then Some PGC_WCLASS_OLTP_SMALL
      else if c = 2 then Some PGC_WCLASS_BULK_WRITE
      else if c = 3 then Some PGC_WCLASS_DDL
      else if c = 4 then Some PGC_WCLASS_MAINTENANCE
      else None)"

interpretation wclass_enum: c_enum PgCircuitWorkloadClass_code PgCircuitWorkloadClass_of
proof
  show "PgCircuitWorkloadClass_of (PgCircuitWorkloadClass_code x) = Some x" for x
    by (cases x) (simp_all add: PgCircuitWorkloadClass_of_def)
  show "PgCircuitWorkloadClass_code x = c" if "PgCircuitWorkloadClass_of c = Some x" for c x
    using that by (auto simp: PgCircuitWorkloadClass_of_def split: if_splits)
  show "0 \<le> PgCircuitWorkloadClass_code x" and "PgCircuitWorkloadClass_code x < 32768" for x
    by (cases x, simp_all)+
qed

lemmas PgCircuitWorkloadClass_decode [enum_simps] = wclass_enum.decode_code wclass_enum.decode_stored


section \<open>Risk levels (pg_circuit.h).\<close>

datatype PgCircuitRiskLevel =
    PGC_RISK_INFO
  | PGC_RISK_LOW
  | PGC_RISK_MEDIUM
  | PGC_RISK_HIGH
  | PGC_RISK_CRITICAL

primrec PgCircuitRiskLevel_code :: "PgCircuitRiskLevel \<Rightarrow> int" where
  "PgCircuitRiskLevel_code PGC_RISK_INFO = 0"
| "PgCircuitRiskLevel_code PGC_RISK_LOW = 1"
| "PgCircuitRiskLevel_code PGC_RISK_MEDIUM = 2"
| "PgCircuitRiskLevel_code PGC_RISK_HIGH = 3"
| "PgCircuitRiskLevel_code PGC_RISK_CRITICAL = 4"

definition PgCircuitRiskLevel_of :: "int \<Rightarrow> PgCircuitRiskLevel option" where
  "PgCircuitRiskLevel_of c =
     (if c = 0 then Some PGC_RISK_INFO
      else if c = 1 then Some PGC_RISK_LOW
      else if c = 2 then Some PGC_RISK_MEDIUM
      else if c = 3 then Some PGC_RISK_HIGH
      else if c = 4 then Some PGC_RISK_CRITICAL
      else None)"

interpretation risk_level_enum: c_enum PgCircuitRiskLevel_code PgCircuitRiskLevel_of
proof
  show "PgCircuitRiskLevel_of (PgCircuitRiskLevel_code x) = Some x" for x
    by (cases x) (simp_all add: PgCircuitRiskLevel_of_def)
  show "PgCircuitRiskLevel_code x = c" if "PgCircuitRiskLevel_of c = Some x" for c x
    using that by (auto simp: PgCircuitRiskLevel_of_def split: if_splits)
  show "0 \<le> PgCircuitRiskLevel_code x" and "PgCircuitRiskLevel_code x < 32768" for x
    by (cases x, simp_all)+
qed

lemmas PgCircuitRiskLevel_decode [enum_simps] = risk_level_enum.decode_code risk_level_enum.decode_stored

instantiation PgCircuitRiskLevel :: linorder
begin

definition less_eq_PgCircuitRiskLevel :: "PgCircuitRiskLevel \<Rightarrow> PgCircuitRiskLevel \<Rightarrow> bool" where
  "less_eq_PgCircuitRiskLevel x y \<longleftrightarrow> PgCircuitRiskLevel_code x \<le> PgCircuitRiskLevel_code y"

definition less_PgCircuitRiskLevel :: "PgCircuitRiskLevel \<Rightarrow> PgCircuitRiskLevel \<Rightarrow> bool" where
  "less_PgCircuitRiskLevel x y \<longleftrightarrow> PgCircuitRiskLevel_code x < PgCircuitRiskLevel_code y"

instance
  by standard (auto simp: less_eq_PgCircuitRiskLevel_def less_PgCircuitRiskLevel_def risk_level_enum.code_eq_iff)

end

lemmas PgCircuitRiskLevel_order [enum_simps] = less_eq_PgCircuitRiskLevel_def less_PgCircuitRiskLevel_def


section \<open>Decision outcomes (pg_circuit.h).\<close>

datatype PgCircuitDecision =
    PGC_DECISION_ALLOW
  | PGC_DECISION_WARN
  | PGC_DECISION_BLOCK

primrec PgCircuitDecision_code :: "PgCircuitDecision \<Rightarrow> int" where
  "PgCircuitDecision_code PGC_DECISION_ALLOW = 0"
| "PgCircuitDecision_code PGC_DECISION_WARN = 1"
| "PgCircuitDecision_code PGC_DECISION_BLOCK = 2"

definition PgCircuitDecision_of :: "int \<Rightarrow> PgCircuitDecision option" where
  "PgCircuitDecision_of c =
     (if c = 0 then Some PGC_DECISION_ALLOW
      else if c = 1 then Some PGC_DECISION_WARN
      else if c = 2 then Some PGC_DECISION_BLOCK
      else None)"

interpretation decision_enum: c_enum PgCircuitDecision_code PgCircuitDecision_of
proof
  show "PgCircuitDecision_of (PgCircuitDecision_code x) = Some x" for x
    by (cases x) (simp_all add: PgCircuitDecision_of_def)
  show "PgCircuitDecision_code x = c" if "PgCircuitDecision_of c = Some x" for c x
    using that by (auto simp: PgCircuitDecision_of_def split: if_splits)
  show "0 \<le> PgCircuitDecision_code x" and "PgCircuitDecision_code x < 32768" for x
    by (cases x, simp_all)+
qed

lemmas PgCircuitDecision_decode [enum_simps] = decision_enum.decode_code decision_enum.decode_stored

instantiation PgCircuitDecision :: linorder
begin

definition less_eq_PgCircuitDecision :: "PgCircuitDecision \<Rightarrow> PgCircuitDecision \<Rightarrow> bool" where
  "less_eq_PgCircuitDecision x y \<longleftrightarrow> PgCircuitDecision_code x \<le> PgCircuitDecision_code y"

definition less_PgCircuitDecision :: "PgCircuitDecision \<Rightarrow> PgCircuitDecision \<Rightarrow> bool" where
  "less_PgCircuitDecision x y \<longleftrightarrow> PgCircuitDecision_code x < PgCircuitDecision_code y"

instance
  by standard (auto simp: less_eq_PgCircuitDecision_def less_PgCircuitDecision_def decision_enum.code_eq_iff)

end

lemmas PgCircuitDecision_order [enum_simps] = less_eq_PgCircuitDecision_def less_PgCircuitDecision_def


section \<open>Policy actions (policy.h).\<close>

datatype PgCircuitPolicyAction =
    PGC_PACTION_NONE
  | PGC_PACTION_ALLOW
  | PGC_PACTION_WARN
  | PGC_PACTION_BLOCK
  | PGC_PACTION_AUDIT

primrec PgCircuitPolicyAction_code :: "PgCircuitPolicyAction \<Rightarrow> int" where
  "PgCircuitPolicyAction_code PGC_PACTION_NONE = 0"
| "PgCircuitPolicyAction_code PGC_PACTION_ALLOW = 1"
| "PgCircuitPolicyAction_code PGC_PACTION_WARN = 2"
| "PgCircuitPolicyAction_code PGC_PACTION_BLOCK = 3"
| "PgCircuitPolicyAction_code PGC_PACTION_AUDIT = 4"

definition PgCircuitPolicyAction_of :: "int \<Rightarrow> PgCircuitPolicyAction option" where
  "PgCircuitPolicyAction_of c =
     (if c = 0 then Some PGC_PACTION_NONE
      else if c = 1 then Some PGC_PACTION_ALLOW
      else if c = 2 then Some PGC_PACTION_WARN
      else if c = 3 then Some PGC_PACTION_BLOCK
      else if c = 4 then Some PGC_PACTION_AUDIT
      else None)"

interpretation paction_enum: c_enum PgCircuitPolicyAction_code PgCircuitPolicyAction_of
proof
  show "PgCircuitPolicyAction_of (PgCircuitPolicyAction_code x) = Some x" for x
    by (cases x) (simp_all add: PgCircuitPolicyAction_of_def)
  show "PgCircuitPolicyAction_code x = c" if "PgCircuitPolicyAction_of c = Some x" for c x
    using that by (auto simp: PgCircuitPolicyAction_of_def split: if_splits)
  show "0 \<le> PgCircuitPolicyAction_code x" and "PgCircuitPolicyAction_code x < 32768" for x
    by (cases x, simp_all)+
qed

lemmas PgCircuitPolicyAction_decode [enum_simps] = paction_enum.decode_code paction_enum.decode_stored


section \<open>Statement kinds (risk_engine.h).\<close>

datatype PgCircuitQueryKind =
    PGC_QKIND_OTHER
  | PGC_QKIND_DELETE_NO_WHERE
  | PGC_QKIND_UPDATE_NO_WHERE
  | PGC_QKIND_TRUNCATE
  | PGC_QKIND_DROP_TABLE
  | PGC_QKIND_DROP_DATABASE
  | PGC_QKIND_ALTER_TABLE
  | PGC_QKIND_CREATE_INDEX
  | PGC_QKIND_CREATE_INDEX_CONCURRENTLY
  | PGC_QKIND_REINDEX
  | PGC_QKIND_VACUUM_FULL
  | PGC_QKIND_CLUSTER

primrec PgCircuitQueryKind_code :: "PgCircuitQueryKind \<Rightarrow> int" where
  "PgCircuitQueryKind_code PGC_QKIND_OTHER = 0"
| "PgCircuitQueryKind_code PGC_QKIND_DELETE_NO_WHERE = 1"
| "PgCircuitQueryKind_code PGC_QKIND_UPDATE_NO_WHERE = 2"
| "PgCircuitQueryKind_code PGC_QKIND_TRUNCATE = 3"
| "PgCircuitQueryKind_code PGC_QKIND_DROP_TABLE = 4"
| "PgCircuitQueryKind_code PGC_QKIND_DROP_DATABASE = 5"
| "PgCircuitQueryKind_code PGC_QKIND_ALTER_TABLE = 6"
| "PgCircuitQueryKind_code PGC_QKIND_CREATE_INDEX = 7"
| "PgCircuitQueryKind_code PGC_QKIND_CREATE_INDEX_CONCURRENTLY = 8"
| "PgCircuitQueryKind_code PGC_QKIND_REINDEX = 9"
| "PgCircuitQueryKind_code PGC_QKIND_VACUUM_FULL = 10"
| "PgCircuitQueryKind_code PGC_QKIND_CLUSTER = 11"

definition PgCircuitQueryKind_of :: "int \<Rightarrow> PgCircuitQueryKind option" where
  "PgCircuitQueryKind_of c =
     (if c = 0 then Some PGC_QKIND_OTHER
      else if c = 1 then Some PGC_QKIND_DELETE_NO_WHERE
      else if c = 2 then Some PGC_QKIND_UPDATE_NO_WHERE
      else if c = 3 then Some PGC_QKIND_TRUNCATE
      else if c = 4 then Some PGC_QKIND_DROP_TABLE
      else if c = 5 then Some PGC_QKIND_DROP_DATABASE
      else if c = 6 then Some PGC_QKIND_ALTER_TABLE
      else if c = 7 then Some PGC_QKIND_CREATE_INDEX
      else if c = 8 then Some PGC_QKIND_CREATE_INDEX_CONCURRENTLY
      else if c = 9 then Some PGC_QKIND_REINDEX
      else if c = 10 then Some PGC_QKIND_VACUUM_FULL
      else if c = 11 then Some PGC_QKIND_CLUSTER
      else None)"

interpretation qkind_enum: c_enum PgCircuitQueryKind_code PgCircuitQueryKind_of
proof
  show "PgCircuitQueryKind_of (PgCircuitQueryKind_code x) = Some x" for x
    by (cases x) (simp_all add: PgCircuitQueryKind_of_def)
  show "PgCircuitQueryKind_code x = c" if "PgCircuitQueryKind_of c = Some x" for c x
    using that by (auto simp: PgCircuitQueryKind_of_def split: if_splits)
  show "0 \<le> PgCircuitQueryKind_code x" and "PgCircuitQueryKind_code x < 32768" for x
    by (cases x, simp_all)+
qed

lemmas PgCircuitQueryKind_decode [enum_simps] = qkind_enum.decode_code qkind_enum.decode_stored


section \<open>Lock-impact classes (risk_engine.h).\<close>

datatype PgCircuitLockClass =
    PGC_LOCK_NONE
  | PGC_LOCK_LOW
  | PGC_LOCK_MEDIUM
  | PGC_LOCK_HIGH

primrec PgCircuitLockClass_code :: "PgCircuitLockClass \<Rightarrow> int" where
  "PgCircuitLockClass_code PGC_LOCK_NONE = 0"
| "PgCircuitLockClass_code PGC_LOCK_LOW = 1"
| "PgCircuitLockClass_code PGC_LOCK_MEDIUM = 2"
| "PgCircuitLockClass_code PGC_LOCK_HIGH = 3"

definition PgCircuitLockClass_of :: "int \<Rightarrow> PgCircuitLockClass option" where
  "PgCircuitLockClass_of c =
     (if c = 0 then Some PGC_LOCK_NONE
      else if c = 1 then Some PGC_LOCK_LOW
      else if c = 2 then Some PGC_LOCK_MEDIUM
      else if c = 3 then Some PGC_LOCK_HIGH
      else None)"

interpretation lock_class_enum: c_enum PgCircuitLockClass_code PgCircuitLockClass_of
proof
  show "PgCircuitLockClass_of (PgCircuitLockClass_code x) = Some x" for x
    by (cases x) (simp_all add: PgCircuitLockClass_of_def)
  show "PgCircuitLockClass_code x = c" if "PgCircuitLockClass_of c = Some x" for c x
    using that by (auto simp: PgCircuitLockClass_of_def split: if_splits)
  show "0 \<le> PgCircuitLockClass_code x" and "PgCircuitLockClass_code x < 32768" for x
    by (cases x, simp_all)+
qed

lemmas PgCircuitLockClass_decode [enum_simps] = lock_class_enum.decode_code lock_class_enum.decode_stored

instantiation PgCircuitLockClass :: linorder
begin

definition less_eq_PgCircuitLockClass :: "PgCircuitLockClass \<Rightarrow> PgCircuitLockClass \<Rightarrow> bool" where
  "less_eq_PgCircuitLockClass x y \<longleftrightarrow> PgCircuitLockClass_code x \<le> PgCircuitLockClass_code y"

definition less_PgCircuitLockClass :: "PgCircuitLockClass \<Rightarrow> PgCircuitLockClass \<Rightarrow> bool" where
  "less_PgCircuitLockClass x y \<longleftrightarrow> PgCircuitLockClass_code x < PgCircuitLockClass_code y"

instance
  by standard (auto simp: less_eq_PgCircuitLockClass_def less_PgCircuitLockClass_def lock_class_enum.code_eq_iff)

end

lemmas PgCircuitLockClass_order [enum_simps] = less_eq_PgCircuitLockClass_def less_PgCircuitLockClass_def


section \<open>Replication health (runtime_state.h).\<close>

datatype PgCircuitReplicationHealth =
    PGC_REPL_NONE
  | PGC_REPL_HEALTHY
  | PGC_REPL_LAGGING
  | PGC_REPL_SEVERE

primrec PgCircuitReplicationHealth_code :: "PgCircuitReplicationHealth \<Rightarrow> int" where
  "PgCircuitReplicationHealth_code PGC_REPL_NONE = 0"
| "PgCircuitReplicationHealth_code PGC_REPL_HEALTHY = 1"
| "PgCircuitReplicationHealth_code PGC_REPL_LAGGING = 2"
| "PgCircuitReplicationHealth_code PGC_REPL_SEVERE = 3"

definition PgCircuitReplicationHealth_of :: "int \<Rightarrow> PgCircuitReplicationHealth option" where
  "PgCircuitReplicationHealth_of c =
     (if c = 0 then Some PGC_REPL_NONE
      else if c = 1 then Some PGC_REPL_HEALTHY
      else if c = 2 then Some PGC_REPL_LAGGING
      else if c = 3 then Some PGC_REPL_SEVERE
      else None)"

interpretation repl_health_enum: c_enum PgCircuitReplicationHealth_code PgCircuitReplicationHealth_of
proof
  show "PgCircuitReplicationHealth_of (PgCircuitReplicationHealth_code x) = Some x" for x
    by (cases x) (simp_all add: PgCircuitReplicationHealth_of_def)
  show "PgCircuitReplicationHealth_code x = c" if "PgCircuitReplicationHealth_of c = Some x" for c x
    using that by (auto simp: PgCircuitReplicationHealth_of_def split: if_splits)
  show "0 \<le> PgCircuitReplicationHealth_code x" and "PgCircuitReplicationHealth_code x < 32768" for x
    by (cases x, simp_all)+
qed

lemmas PgCircuitReplicationHealth_decode [enum_simps] = repl_health_enum.decode_code repl_health_enum.decode_stored


section \<open>Operating constants\<close>

definition PG_CIRCUIT_VERSION :: string where
  "PG_CIRCUIT_VERSION = ''0.1.0''"

definition PG_CIRCUIT_SHMEM_MAGIC :: int where
  "PG_CIRCUIT_SHMEM_MAGIC = 0x50474339"

definition PG_CIRCUIT_SHMEM_VERSION :: int where
  "PG_CIRCUIT_SHMEM_VERSION = 5"

definition PGC_WAL_LOW :: int where "PGC_WAL_LOW = 0"

definition PGC_WAL_NORMAL :: int where "PGC_WAL_NORMAL = 1"

definition PGC_WAL_ELEVATED :: int where "PGC_WAL_ELEVATED = 2"

definition PGC_WAL_CRITICAL :: int where "PGC_WAL_CRITICAL = 3"

lemmas pgc_wal_defs = PGC_WAL_LOW_def PGC_WAL_NORMAL_def PGC_WAL_ELEVATED_def PGC_WAL_CRITICAL_def

end
