(* ===== verification/Pgc_Double.thy ===== *)
theory Pgc_Double
  imports Pgc_Prelude "HOL-Library.Log_Nat"
begin

text \<open>
  The C type \<open>double\<close>: a real number that carries a 53-bit significand. Every arithmetic
  operation rounds its exact result to the nearest such number, ties to even. The program's
  doubles are quotients and products of 64-bit counts, so they stay inside the exponent range
  of the format; overflow to infinity, subnormals and NaN do not occur and are not modelled.
\<close>

type_synonym double = real


section \<open>Rounding\<close>

definition rne :: "real \<Rightarrow> int" where
  "rne y = (let f = \<lfloor>y\<rfloor>; d = y - of_int f
            in if d < 1 / 2 then f else if 1 / 2 < d then f + 1
               else if even f then f else f + 1)"

definition dexp :: "real \<Rightarrow> int" where
  "dexp x = (if 1 \<le> x then bitlen \<lfloor>x\<rfloor> - 1 else - bitlen (\<lceil>1 / x\<rceil> - 1))"

definition dround_pos :: "real \<Rightarrow> double" where
  "dround_pos x = of_int (rne (x / 2 powi (dexp x - 52))) * 2 powi (dexp x - 52)"

definition dround :: "real \<Rightarrow> double" where
  "dround x = (if x = 0 then 0 else if 0 < x then dround_pos x else - dround_pos (- x))"

definition double_of_int :: "int \<Rightarrow> double" where
  "double_of_int k = dround (of_int k)"

definition d_div :: "double \<Rightarrow> double \<Rightarrow> double" where
  "d_div x y = dround (x / y)"

definition d_mul :: "double \<Rightarrow> double \<Rightarrow> double" where
  "d_mul x y = dround (x * y)"


section \<open>The nearest integer\<close>

lemma rne_floor: "\<lfloor>y\<rfloor> \<le> rne y" "rne y \<le> \<lfloor>y\<rfloor> + 1"
  by (auto simp: rne_def Let_def)

lemma rne_of_int [simp]: "rne (of_int k) = k"
  by (simp add: rne_def)

lemma rne_error: "\<bar>of_int (rne y) - y\<bar> \<le> 1 / 2"
  using of_int_floor_le [of y] floor_correct [of y]
  by (auto simp: rne_def Let_def abs_le_iff)

lemma rne_mono: "x \<le> y \<Longrightarrow> rne x \<le> rne y"
proof (cases "\<lfloor>x\<rfloor> = \<lfloor>y\<rfloor>")
  case True
  assume "x \<le> y"
  with True show ?thesis by (auto simp: rne_def Let_def)
next
  case False
  assume "x \<le> y"
  with False have "\<lfloor>x\<rfloor> + 1 \<le> \<lfloor>y\<rfloor>"
    using floor_mono [of x y] by linarith
  with rne_floor(2) [of x] rne_floor(1) [of y] show ?thesis by linarith
qed

lemma rne_le_int: "y \<le> of_int k \<Longrightarrow> rne y \<le> k"
  using rne_mono [of y "of_int k"] by simp

lemma rne_ge_int: "of_int k \<le> y \<Longrightarrow> k \<le> rne y"
  using rne_mono [of "of_int k" y] by simp


section \<open>The exponent\<close>

lemma powi_nat: "0 \<le> k \<Longrightarrow> (2::real) powi k = 2 ^ nat k"
  by (simp add: power_int_def)

lemma powi_two_mono: "a \<le> b \<Longrightarrow> (2::real) powi a \<le> 2 powi b"
  by (rule power_int_increasing) simp_all

lemma powi_two_less_iff: "(2::real) powi a < 2 powi b \<longleftrightarrow> a < b"
proof
  assume "(2::real) powi a < 2 powi b"
  then show "a < b"
    using powi_two_mono [of b a] by linarith
next
  assume "a < b"
  then have "(2::real) powi a < 2 * 2 powi a" by simp
  also have "\<dots> = 2 powi (a + 1)" by (simp add: power_int_add)
  also have "\<dots> \<le> 2 powi b" using \<open>a < b\<close> by (intro powi_two_mono) simp
  finally show "(2::real) powi a < 2 powi b" .
qed

lemma dexp_bounds:
  assumes "0 < x"
  shows "2 powi (dexp x) \<le> x" and "x < 2 powi (dexp x + 1)"
proof -
  have "2 powi (dexp x) \<le> x \<and> x < 2 powi (dexp x + 1)"
  proof (cases "1 \<le> x")
    case True
    define m where "m = \<lfloor>x\<rfloor>"
    have m: "0 < m" "of_int m \<le> x" "x < of_int m + 1"
      using True by (simp_all add: m_def le_floor_iff)
    have b: "0 < bitlen m"
      using m(1) by (simp add: bitlen_eq_zero_iff bitlen_nonneg order_less_le)
    have lo: "2 ^ nat (bitlen m - 1) \<le> m" and hi: "m < 2 ^ nat (bitlen m)"
      using bitlen_bounds [OF m(1)] by auto
    have "(2::real) ^ nat (bitlen m - 1) \<le> of_int m"
      using of_int_le_iff [where 'a = real, of "2 ^ nat (bitlen m - 1)" m] lo by simp
    with m(2) have "(2::real) ^ nat (bitlen m - 1) \<le> x" by linarith
    moreover have "of_int m + 1 \<le> (2::real) ^ nat (bitlen m)"
      using of_int_le_iff [where 'a = real, of "m + 1" "2 ^ nat (bitlen m)"] hi by simp
    with m(3) have "x < (2::real) ^ nat (bitlen m)" by linarith
    ultimately show ?thesis
      using True m b by (simp add: dexp_def m_def [symmetric] powi_nat)
  next
    case False
    define y where "y = 1 / x"
    define m where "m = \<lceil>y\<rceil> - 1"
    have y: "1 < y" using assms False by (simp add: y_def)
    have m: "0 < m" "of_int m < y" "y \<le> of_int m + 1"
      using y by (simp_all add: m_def) linarith+
    have lo: "2 ^ nat (bitlen m - 1) \<le> m" and hi: "m < 2 ^ nat (bitlen m)"
      using bitlen_bounds [OF m(1)] by auto
    have b: "0 < bitlen m"
      using m(1) by (simp add: bitlen_eq_zero_iff bitlen_nonneg order_less_le)
    have "(2::real) ^ nat (bitlen m - 1) \<le> of_int m"
      using of_int_le_iff [where 'a = real, of "2 ^ nat (bitlen m - 1)" m] lo by simp
    with m(2) have "(2::real) ^ nat (bitlen m - 1) < y" by linarith
    then have 1: "2 powi (bitlen m - 1) < y"
      using b by (simp add: powi_nat)
    have "of_int m + 1 \<le> (2::real) ^ nat (bitlen m)"
      using of_int_le_iff [where 'a = real, of "m + 1" "2 ^ nat (bitlen m)"] hi by simp
    with m(3) have 2: "y \<le> 2 powi (bitlen m)"
      using b by (simp add: powi_nat)
    have e: "dexp x = - bitlen m"
      using False by (simp add: dexp_def y_def m_def)
    have "2 powi (- bitlen m) \<le> x"
      using 2 assms by (simp add: y_def power_int_minus field_simps)
    moreover have "x < 2 powi (- bitlen m + 1)"
    proof -
      have "(2::real) powi (- bitlen m + 1) = 1 / 2 powi (bitlen m - 1)"
        using power_int_minus [of "2::real" "bitlen m - 1"] by (simp add: inverse_eq_divide)
      moreover have "x * 2 powi (bitlen m - 1) < 1"
        using 1 assms by (simp add: y_def field_simps)
      ultimately show ?thesis
        by (simp add: pos_less_divide_eq)
    qed
    ultimately show ?thesis by (simp add: e)
  qed
  then show "2 powi (dexp x) \<le> x" and "x < 2 powi (dexp x + 1)" by auto
qed

lemma dexp_mono: "0 < x \<Longrightarrow> x \<le> y \<Longrightarrow> dexp x \<le> dexp y"
  using dexp_bounds(1) [of x] dexp_bounds(2) [of y] powi_two_less_iff [of "dexp x" "dexp y + 1"]
  by linarith

lemma dexp_le: "0 < x \<Longrightarrow> x < 2 powi (k + 1) \<Longrightarrow> dexp x \<le> k"
  using dexp_bounds(1) [of x] powi_two_less_iff [of "dexp x" "k + 1"] by linarith


section \<open>The laws of rounding\<close>

lemma scaled_bounds:
  assumes "0 < x"
  shows "2 ^ 52 \<le> x / 2 powi (dexp x - 52)" and "x / 2 powi (dexp x - 52) \<le> 2 ^ 53"
proof -
  have "(2::real) powi (dexp x - 52) * 2 ^ 52 = 2 powi (dexp x)"
    using power_int_add [of "2::real" "dexp x - 52" 52] by simp
  then show "2 ^ 52 \<le> x / 2 powi (dexp x - 52)"
    using dexp_bounds(1) [OF assms] by (simp add: le_divide_eq mult.commute)
  have "(2::real) powi (dexp x - 52) * 2 ^ 53 = 2 powi (dexp x + 1)"
    using power_int_add [of "2::real" "dexp x - 52" 53] by (simp add: ac_simps)
  then show "x / 2 powi (dexp x - 52) \<le> 2 ^ 53"
    using dexp_bounds(2) [OF assms] by (simp add: divide_le_eq mult.commute)
qed

lemma dround_pos_ge: "0 < x \<Longrightarrow> 2 powi (dexp x) \<le> dround_pos x"
proof -
  assume "0 < x"
  from scaled_bounds(1) [OF this] have "2 ^ 52 \<le> rne (x / 2 powi (dexp x - 52))"
    by (intro rne_ge_int) simp
  then have "(2::real) ^ 52 \<le> of_int (rne (x / 2 powi (dexp x - 52)))"
    using of_int_le_iff [where 'a = real, of "2 ^ 52"] by simp
  then have "2 ^ 52 * 2 powi (dexp x - 52) \<le> dround_pos x"
    unfolding dround_pos_def by (intro mult_right_mono) simp_all
  then show ?thesis
    using power_int_add [of "2::real" "dexp x - 52" 52] by (simp add: ac_simps)
qed

lemma dround_pos_le: "0 < x \<Longrightarrow> dround_pos x \<le> 2 powi (dexp x + 1)"
proof -
  assume "0 < x"
  from scaled_bounds(2) [OF this] have "rne (x / 2 powi (dexp x - 52)) \<le> 2 ^ 53"
    by (intro rne_le_int) simp
  then have "of_int (rne (x / 2 powi (dexp x - 52))) \<le> (2::real) ^ 53"
    using of_int_le_iff [where 'a = real, of _ "2 ^ 53"] by simp
  then have "dround_pos x \<le> 2 ^ 53 * 2 powi (dexp x - 52)"
    unfolding dround_pos_def by (intro mult_right_mono) simp_all
  then show ?thesis
    using power_int_add [of "2::real" "dexp x - 52" 53] by (simp add: ac_simps)
qed

lemma dround_pos_mono:
  assumes "0 < x" and "x \<le> y"
  shows "dround_pos x \<le> dround_pos y"
proof (cases "dexp x = dexp y")
  case True
  have "rne (x / 2 powi (dexp y - 52)) \<le> rne (y / 2 powi (dexp y - 52))"
    using assms by (intro rne_mono divide_right_mono) simp_all
  then show ?thesis
    unfolding dround_pos_def True by (intro mult_right_mono) simp_all
next
  case False
  with dexp_mono [OF assms] have "dexp x + 1 \<le> dexp y" by simp
  then have "(2::real) powi (dexp x + 1) \<le> 2 powi (dexp y)" by (rule powi_two_mono)
  with dround_pos_le [of x] dround_pos_ge [of y] assms show ?thesis by linarith
qed

lemma dround_pos_positive: "0 < x \<Longrightarrow> 0 < dround_pos x"
  using dround_pos_ge [of x] zero_less_power_int [of "2::real" "dexp x"] by linarith

lemma dround_mono: "x \<le> y \<Longrightarrow> dround x \<le> dround y"
  using dround_pos_mono [of x y] dround_pos_mono [of "- y" "- x"]
    dround_pos_positive [of y] dround_pos_positive [of "- x"]
  by (auto simp: dround_def)

lemma dround_pos_exact:
  assumes "x / 2 powi (dexp x - 52) = of_int k"
  shows "dround_pos x = x"
proof -
  have "dround_pos x = of_int k * 2 powi (dexp x - 52)"
    by (simp add: dround_pos_def assms)
  also have "\<dots> = x"
    using assms by (simp add: divide_eq_eq)
  finally show ?thesis .
qed

lemma dround_pos_int:
  assumes "0 < k" and "k \<le> 2 ^ 53"
  shows "dround_pos (of_int k) = of_int k"
proof (cases "k = 2 ^ 53")
  case True
  have e: "dexp (of_int k) = 53"
    using True bitlen_twopow_add_eq [of 0 53] by (simp add: dexp_def)
  show ?thesis
    by (rule dround_pos_exact [of _ "2 ^ 52"]) (simp add: e, simp add: True)
next
  case False
  with assms have "(of_int k :: real) < 2 powi (52 + 1)"
    using of_int_less_iff [where 'a = real, of k "2 ^ 53"] by (simp del: of_int_less_iff)
  then have e: "dexp (of_int k) \<le> 52"
    using assms by (intro dexp_le) simp_all
  have "(2::real) powi (dexp (of_int k) - 52) = inverse (2 powi (52 - dexp (of_int k)))"
    using power_int_minus [of "2::real" "52 - dexp (of_int k)"] by simp
  then have "of_int k / (2::real) powi (dexp (of_int k) - 52) = of_int (k * 2 ^ nat (52 - dexp (of_int k)))"
    using e by (simp add: powi_nat field_simps)
  then show ?thesis by (rule dround_pos_exact)
qed

lemma dround_of_int: "\<bar>k\<bar> \<le> 2 ^ 53 \<Longrightarrow> dround (of_int k) = of_int k"
  using dround_pos_int [of k] dround_pos_int [of "- k"] by (auto simp: dround_def)

lemma dround_pos_error: "0 < x \<Longrightarrow> \<bar>dround_pos x - x\<bar> \<le> 2 powi (dexp x - 53)"
proof -
  assume x: "0 < x"
  define u where "u = (2::real) powi (dexp x - 52)"
  have u: "0 < u" "u = 2 * 2 powi (dexp x - 53)"
    using power_int_add [of "2::real" "dexp x - 53" 1] by (simp_all add: u_def)
  have "dround_pos x - x = (of_int (rne (x / u)) - x / u) * u"
    using u(1) by (simp add: dround_pos_def u_def [symmetric] left_diff_distrib)
  then have "\<bar>dround_pos x - x\<bar> = \<bar>of_int (rne (x / u)) - x / u\<bar> * u"
    using u(1) by (simp add: abs_mult)
  also have "\<dots> \<le> 1 / 2 * u"
    using u(1) rne_error by (intro mult_right_mono) simp_all
  finally show ?thesis by (simp add: u(2))
qed


section \<open>Rounding as an interface\<close>

text \<open>
  What the program's comparisons rely on: rounding is monotone and exact on the integers a
  53-bit significand holds. Everything about thresholds is proved from these two laws.
\<close>

locale rounding =
  fixes rnd :: "real \<Rightarrow> real"
  assumes mono: "x \<le> y \<Longrightarrow> rnd x \<le> rnd y"
    and exact: "\<bar>k\<bar> \<le> 2 ^ 53 \<Longrightarrow> rnd (of_int k) = of_int k"
begin

lemma zero: "rnd 0 = 0"
  using exact [of 0] by simp

lemma nonneg: "0 \<le> x \<Longrightarrow> 0 \<le> rnd x"
  using mono [of 0 x] zero by simp

lemma nonpos: "x \<le> 0 \<Longrightarrow> rnd x \<le> 0"
  using mono [of x 0] zero by simp

lemma neg_imp_neg: "rnd x < 0 \<Longrightarrow> x < 0"
  using nonneg [of x] by linarith

lemma ge_int: "\<bar>k\<bar> \<le> 2 ^ 53 \<Longrightarrow> of_int k \<le> x \<Longrightarrow> of_int k \<le> rnd x"
  using mono [of "of_int k" x] exact [of k] by simp

lemma le_int: "\<bar>k\<bar> \<le> 2 ^ 53 \<Longrightarrow> x \<le> of_int k \<Longrightarrow> rnd x \<le> of_int k"
  using mono [of x "of_int k"] exact [of k] by simp

end

interpretation dbl: rounding dround
  by unfold_locales (auto intro: dround_mono dround_of_int)

lemma double_of_int_exact [cint]: "\<bar>k\<bar> \<le> 2 ^ 53 \<Longrightarrow> double_of_int k = of_int k"
  by (simp add: double_of_int_def dbl.exact)

lemma double_of_int32 [cint]: "is_int32 k \<Longrightarrow> double_of_int k = of_int k"
  by (rule double_of_int_exact) (simp add: abs_le_iff)

lemma double_of_int_mono: "a \<le> b \<Longrightarrow> double_of_int a \<le> double_of_int b"
  by (simp add: double_of_int_def dbl.mono)

lemma double_of_int_sign: "0 \<le> a \<Longrightarrow> 0 \<le> double_of_int a" "a \<le> 0 \<Longrightarrow> double_of_int a \<le> 0"
  by (simp_all add: double_of_int_def dbl.nonneg dbl.nonpos)

lemma d_div_nonneg: "0 \<le> x \<Longrightarrow> 0 \<le> y \<Longrightarrow> 0 \<le> d_div x y"
  by (simp add: d_div_def dbl.nonneg)

lemma d_div_mono: "x \<le> y \<Longrightarrow> 0 \<le> z \<Longrightarrow> d_div x z \<le> d_div y z"
  by (simp add: d_div_def dbl.mono divide_right_mono)


section \<open>Quotients of 32-bit integers against a literal\<close>

text \<open>
  Rounding cannot move a quotient of 32-bit integers across a decimal literal with two
  places: distinct quotients of that size differ by far more than two rounding errors.
\<close>

lemma dround_error_small:
  assumes "0 \<le> x" and "x < 1"
  shows "\<bar>dround x - x\<bar> \<le> 1 / 2 ^ 53"
proof (cases "x = 0")
  case True
  then show ?thesis by (simp add: dround_def)
next
  case False
  with assms have x: "0 < x" by simp
  have "dexp x \<le> - 1"
    using x assms by (intro dexp_le) simp_all
  then have "(2::real) powi (dexp x - 53) \<le> 2 powi (- 53)"
    by (intro powi_two_mono) simp
  with dround_pos_error [OF x] show ?thesis
    using x by (simp add: dround_def power_int_minus inverse_eq_divide)
qed

lemma quotient_ge_literal:
  assumes "0 \<le> a" "is_int32 a" and "0 < b" "is_int32 b" and "0 < p" "p < 100"
  shows "dround (of_int p / 100) \<le> d_div (double_of_int a) (double_of_int b)
     \<longleftrightarrow> p * b \<le> 100 * a"
proof -
  define x where "x = (of_int a / of_int b :: real)"
  define t where "t = (of_int p / 100 :: real)"
  have ab: "d_div (double_of_int a) (double_of_int b) = dround x"
    using assms by (simp add: d_div_def x_def cint)
  have iff: "t \<le> x \<longleftrightarrow> p * b \<le> 100 * a"
  proof -
    have "t \<le> x \<longleftrightarrow> of_int (p * b) \<le> (of_int (100 * a) :: real)"
      using assms by (simp add: x_def t_def field_simps)
    then show ?thesis by (simp only: of_int_le_iff)
  qed
  show ?thesis
  proof (cases "t \<le> x")
    case True
    then have "dround t \<le> dround x" by (rule dbl.mono)
    with True iff show ?thesis by (simp add: ab t_def)
  next
    case False
    with iff have "100 * a + 1 \<le> p * b" by linarith
    then have "of_int (100 * a + 1) \<le> (of_int (p * b) :: real)" by (simp only: of_int_le_iff)
    then have "x + 1 / (100 * of_int b) \<le> t"
      using assms by (simp add: x_def t_def field_simps)
    moreover have "1 / (100 * of_int b) \<ge> (1 / (100 * 2 ^ 31) :: real)"
      using assms by (intro divide_left_mono) simp_all
    ultimately have gap: "x + 1 / (100 * 2 ^ 31) \<le> t" by linarith
    have t: "0 \<le> t" "t < 1" using assms by (simp_all add: t_def)
    have x: "0 \<le> x" "x < 1"
      using assms False t by (simp add: x_def, linarith)
    have "t - 1 / 2 ^ 53 \<le> dround t" and "dround x \<le> x + 1 / 2 ^ 53"
      using dround_error_small [OF t] dround_error_small [OF x] by linarith+
    with gap have "dround x < dround t" by simp
    with False iff show ?thesis by (simp add: ab t_def)
  qed
qed

end
