(* ===== verification/Pgc_Server.thy ===== *)
theory Pgc_Server
  imports Pgc_Types Pgc_Double
begin

text \<open>
  What the extension uses of the PostgreSQL server. The server is not part of this
  repository: the node types below have exactly the fields the sources read, and every
  server function is a field of the record \<open>pg_server\<close>, an argument of the definitions that
  call it. A server function that can raise an error returns \<open>Inl\<close> of the report.
\<close>

type_synonym oid = nat
type_synonym timestamp = int

definition InvalidOid :: oid where
  "InvalidOid = 0"

definition OidIsValid :: "oid \<Rightarrow> bool" where
  "OidIsValid relid \<longleftrightarrow> relid \<noteq> InvalidOid"

definition USECS_PER_SEC :: int where
  "USECS_PER_SEC = 1000000"

lemma OidIsValid_iff [simp]: "OidIsValid relid \<longleftrightarrow> 0 < relid"
  by (auto simp: OidIsValid_def InvalidOid_def)


section \<open>Reports\<close>

datatype elevel = DEBUG1 | LOG | WARNING | ERROR

datatype sqlerrcode =
    ERRCODE_INSUFFICIENT_PRIVILEGE
  | ERRCODE_INTERNAL_ERROR
  | ERRCODE_INVALID_PARAMETER_VALUE
  | ERRCODE_WARNING
  | ERRCODE_SUCCESSFUL_COMPLETION
  | ERRCODE_OTHER nat

record report =
  elevel :: elevel
  sqlerrcode :: sqlerrcode
  errmsg :: string
  errdetail :: "string option"
  errhint :: "string option"

text \<open>\<open>elog\<close> fills in the default error code of its level.\<close>

definition elog :: "elevel \<Rightarrow> string \<Rightarrow> report" where
  "elog lvl msg =
     \<lparr>elevel = lvl,
      sqlerrcode = (case lvl of ERROR \<Rightarrow> ERRCODE_INTERNAL_ERROR
                    | WARNING \<Rightarrow> ERRCODE_WARNING
                    | _ \<Rightarrow> ERRCODE_SUCCESSFUL_COMPLETION),
      errmsg = msg, errdetail = None, errhint = None\<rparr>"


section \<open>Results\<close>

text \<open>A computation that may raise: \<open>rbind\<close> goes on unless it did.\<close>

definition rbind :: "report + 'a \<Rightarrow> ('a \<Rightarrow> report + 'b) \<Rightarrow> report + 'b" where
  "rbind r f = (case r of Inl e \<Rightarrow> Inl e | Inr x \<Rightarrow> f x)"

lemma rbind_simps [simp]:
  "rbind (Inl e) f = Inl e"
  "rbind (Inr x) f = f x"
  by (simp_all add: rbind_def)

lemma rbind_eq_Inr: "rbind r f = Inr y \<longleftrightarrow> (\<exists>x. r = Inr x \<and> f x = Inr y)"
  by (cases r) simp_all

lemma rbind_eq_Inl: "rbind r f = Inl e \<longleftrightarrow> r = Inl e \<or> (\<exists>x. r = Inr x \<and> f x = Inl e)"
  by (cases r) simp_all


section \<open>Backends, locks, WAL senders\<close>

datatype BackendType = B_BACKEND | B_OTHER

datatype BackendState =
    STATE_UNDEFINED
  | STATE_IDLE
  | STATE_RUNNING
  | STATE_IDLEINTRANSACTION
  | STATE_FASTPATH
  | STATE_IDLEINTRANSACTION_ABORTED
  | STATE_DISABLED

record Backend =
  st_procpid :: int
  st_backendType :: BackendType
  st_state :: BackendState
  st_xact_start_timestamp :: timestamp

datatype LockTagType =
    LOCKTAG_RELATION
  | LOCKTAG_RELATION_EXTEND
  | LOCKTAG_PAGE
  | LOCKTAG_TUPLE
  | LOCKTAG_OTHER nat

record Locktag =
  locktag_field1 :: nat
  locktag_field2 :: nat
  locktag_field3 :: nat
  locktag_field4 :: nat
  locktag_type :: LockTagType
  locktag_lockmethodid :: nat

text \<open>
  Lock modes are numbered from 1; \<open>NoLock\<close> is 0. Bit \<open>m\<close> of the hold mask of an instance
  (\<open>LOCKBIT_ON (m)\<close>) says that it holds mode \<open>m\<close>.
\<close>

definition NoLock :: nat where
  "NoLock = 0"

definition MAX_LOCKMODES :: nat where
  "MAX_LOCKMODES = 10"

record LockInstance =
  li_locktag :: Locktag
  holdMask :: nat
  waitLockMode :: nat
  li_pid :: int
  waitStart :: timestamp

record WalSnd =
  ws_pid :: int
  replyTime :: timestamp
  writeLag :: int
  flushLag :: int
  applyLag :: int


section \<open>Relations, plans and parse trees\<close>

text \<open>An open relation: \<open>rd_nblocks\<close> is what \<open>RelationGetNumberOfBlocks\<close> answers for it.\<close>

record Relation =
  reltuples :: double
  rd_nblocks :: "report + int"

record RangeVar =
  catalogname :: "string option"
  schemaname :: "string option"
  relname :: string

datatype CmdType = CMD_SELECT | CMD_UPDATE | CMD_INSERT | CMD_DELETE | CMD_OTHER

datatype RteKind = RTE_RELATION | RTE_OTHER

record RangeTblEntry =
  rtekind :: RteKind
  relid :: oid

datatype PlanTag = T_ModifyTable | T_SeqScan | T_OtherPlan

text \<open>A plan node: its tag, row estimate, left subtree and whether it has a filter.\<close>

datatype Plan = Plan
  (plan_tag: PlanTag) (plan_rows: double) (lefttree: "Plan option") (plan_has_qual: bool)

record PlannedStmt =
  ps_commandType :: CmdType
  planTree :: "Plan option"
  ps_rtable :: "RangeTblEntry list"
  resultRelations :: "nat list"

text \<open>A query: \<open>jointree\<close> is absent for NULL, else says whether it has qualifiers.\<close>

record Query =
  q_commandType :: CmdType
  resultRelation :: int
  q_rtable :: "RangeTblEntry list"
  jointree :: "bool option"

datatype ObjectType = OBJECT_TABLE | OBJECT_COLUMN | OBJECT_OTHER nat

datatype AlterTableType =
    AT_AddColumn
  | AT_DropColumn
  | AT_AlterColumnType
  | AT_SetNotNull
  | AT_DropNotNull
  | AT_AddConstraint
  | AT_DropConstraint
  | AT_SetTableSpace
  | AT_SetLogged
  | AT_SetUnLogged
  | AT_Other nat

record DefElem =
  defname :: string
  defarg :: "string option"

datatype Node =
    TruncateStmt "RangeVar list"
  | DropStmt (removeType: ObjectType) (objects: "string list list") (missing_ok: bool)
  | DropdbStmt "string option"
  | AlterTableStmt "RangeVar option" "AlterTableType list"
  | RenameStmt (renameType: ObjectType) "RangeVar option"
  | IndexStmt "RangeVar option" bool
  | ReindexStmt "DefElem list" "RangeVar option"
  | VacuumStmt (is_vacuumcmd: bool) "DefElem list" "RangeVar option list"
  | ClusterStmt "RangeVar option"
  | OtherStmt


section \<open>The server\<close>

record pg_server =
  \<comment> \<open>library functions\<close>
  pg_strcaseeq :: "string \<Rightarrow> string \<Rightarrow> bool"
  pg_md5_hash :: "string \<Rightarrow> string option"
  \<comment> \<open>catalogs and relations\<close>
  get_rel_name :: "oid \<Rightarrow> report + string option"
  get_rel_namespace :: "oid \<Rightarrow> report + oid"
  get_namespace_name :: "oid \<Rightarrow> report + string option"
  get_database_name :: "oid \<Rightarrow> report + string option"
  GetUserNameFromId :: "oid \<Rightarrow> report + string option"
  try_relation_open :: "oid \<Rightarrow> report + Relation option"
  RangeVarGetRelid :: "RangeVar \<Rightarrow> report + oid"
  makeRangeVarFromNameList :: "string list \<Rightarrow> report + RangeVar"
  defGetBoolean :: "DefElem \<Rightarrow> report + bool"
  \<comment> \<open>lock manager\<close>
  DoLockModesConflict :: "nat \<Rightarrow> nat \<Rightarrow> bool"
  GetLockmodeName :: "nat \<Rightarrow> string"
  locktag_code :: "LockTagType \<Rightarrow> nat"
  LOCKTAG_LAST_TYPE :: nat
  LockTagTypeNames :: "nat \<Rightarrow> string"
  GetLockStatusData :: "report + LockInstance list option"
  \<comment> \<open>activity, replication and WAL statistics\<close>
  local_beentries :: "Backend option list"
  max_wal_senders :: nat
  WalSndCtl :: "(nat \<Rightarrow> WalSnd) option"
  pgstat_fetch_stat_wal :: "report + int option"
  \<comment> \<open>the session\<close>
  MyProcPid :: int
  MyDatabaseId :: oid
  CurrentUserId :: oid
  IsParallelWorker :: bool
  AmAutoVacuumWorkerProcess :: bool
  MaxConnections :: int
  SuperuserReservedConnections :: int
  \<comment> \<open>what \<open>GetCurrentTimestamp\<close> returns at each call site\<close>
  now_transactions :: timestamp
  now_locks :: timestamp
  now_replication :: timestamp
  now_wal :: timestamp
  now_event :: timestamp
  \<comment> \<open>build constants\<close>
  BLCKSZ :: int
  MaxHeapTuplesPerPage :: int
  PG_VERSION_NUM :: int
  \<comment> \<open>what the platform makes of a conversion to \<open>uint64\<close> that C leaves undefined\<close>
  u64_out_of_range :: "double \<Rightarrow> nat"



section \<open>A concrete server\<close>

text \<open>
  One instance of the parameter, on which the witnesses of the development evaluate: a user
  table 16384 \<open>orders\<close> of ten million rows on which backend 200 waits for backend 100, a
  streaming replica two seconds behind, and no other activity.
\<close>

definition example_tag :: Locktag where
  "example_tag =
     \<lparr>locktag_field1 = 5, locktag_field2 = 16384, locktag_field3 = 0, locktag_field4 = 0,
      locktag_type = LOCKTAG_RELATION, locktag_lockmethodid = 1\<rparr>"

definition example_holder :: LockInstance where
  "example_holder =
     \<lparr>li_locktag = example_tag, holdMask = 256, waitLockMode = 0, li_pid = 100, waitStart = 0\<rparr>"

definition example_waiter :: LockInstance where
  "example_waiter =
     \<lparr>li_locktag = example_tag, holdMask = 0, waitLockMode = 1, li_pid = 200, waitStart = 1000000\<rparr>"

definition example_backend :: Backend where
  "example_backend =
     \<lparr>st_procpid = 100, st_backendType = B_BACKEND, st_state = STATE_IDLEINTRANSACTION,
      st_xact_start_timestamp = 1000000\<rparr>"

definition example_walsnd :: WalSnd where
  "example_walsnd =
     \<lparr>ws_pid = 300, replyTime = 8000000, writeLag = 1000000, flushLag = 1000000, applyLag = 2000000\<rparr>"

definition example_server :: pg_server where
  "example_server =
     \<lparr>pg_strcaseeq = (=),
      pg_md5_hash = (\<lambda>s. Some (replicate 32 CHR ''0'')),
      get_rel_name = (\<lambda>r. Inr (if r = 16384 then Some ''orders'' else if r = 1249 then Some ''pg_attribute'' else None)),
      get_rel_namespace = (\<lambda>r. Inr (if r = 16384 then 2200 else 11)),
      get_namespace_name = (\<lambda>n. Inr (if n = 2200 then Some ''public'' else Some ''pg_catalog'')),
      get_database_name = (\<lambda>d. Inr (Some ''app'')),
      GetUserNameFromId = (\<lambda>u. Inr (Some ''alice'')),
      try_relation_open =
        (\<lambda>r. Inr (if r = 16384 then Some \<lparr>reltuples = 10000000, rd_nblocks = Inr 100000\<rparr> else None)),
      RangeVarGetRelid = (\<lambda>rv. Inr (if relname rv = ''orders'' then 16384 else 0)),
      makeRangeVarFromNameList = (\<lambda>names. Inr \<lparr>catalogname = None, schemaname = None, relname = last names\<rparr>),
      defGetBoolean = (\<lambda>d. Inr (defarg d \<noteq> Some ''false'')),
      DoLockModesConflict = (\<lambda>a b. a = 8 \<or> b = 8),
      GetLockmodeName = (\<lambda>m. if m = 1 then ''AccessShareLock'' else ''AccessExclusiveLock''),
      locktag_code = (\<lambda>t. case t of LOCKTAG_RELATION \<Rightarrow> 0 | LOCKTAG_RELATION_EXTEND \<Rightarrow> 1
                              | LOCKTAG_PAGE \<Rightarrow> 3 | LOCKTAG_TUPLE \<Rightarrow> 4 | LOCKTAG_OTHER n \<Rightarrow> n),
      LOCKTAG_LAST_TYPE = 11,
      LockTagTypeNames = (\<lambda>i. if i = 0 then ''relation'' else ''other''),
      GetLockStatusData = Inr (Some [example_holder, example_waiter]),
      local_beentries = [Some example_backend],
      max_wal_senders = 1,
      WalSndCtl = Some (\<lambda>i. example_walsnd),
      pgstat_fetch_stat_wal = Inr (Some 1000000),
      MyProcPid = 400,
      MyDatabaseId = 5,
      CurrentUserId = 10,
      IsParallelWorker = False,
      AmAutoVacuumWorkerProcess = False,
      MaxConnections = 100,
      SuperuserReservedConnections = 3,
      now_transactions = 9000000,
      now_locks = 9000000,
      now_replication = 9000000,
      now_wal = 9000000,
      now_event = 9000000,
      BLCKSZ = 8192,
      MaxHeapTuplesPerPage = 291,
      PG_VERSION_NUM = 160000,
      u64_out_of_range = (\<lambda>x. 0)\<rparr>"

lemmas example_defs = example_server_def example_tag_def example_holder_def example_waiter_def
  example_backend_def example_walsnd_def

end
