(* ===== verification/Pgc_Config.thy ===== *)
theory Pgc_Config
  imports Pgc_Types
begin

text \<open>
  \<open>src/config.c\<close>: the configuration variables (GUCs), their boot values, and the table
  \<open>pg_circuit_register_gucs\<close> registers. A build with \<open>PGCIRCUIT_FAULT_INJECTION\<close> has one
  variable more; \<open>fault_build\<close> tells the two builds apart.
\<close>

record config =
  pg_circuit_enabled :: bool
  pg_circuit_debug :: bool
  pg_circuit_fail_closed :: bool
  pg_circuit_mode :: int
  pg_circuit_runtime_mode :: int
  pg_circuit_long_transaction_seconds :: int
  pg_circuit_replication_lag_warning_seconds :: int
  pg_circuit_replication_lag_critical_seconds :: int
  pg_circuit_risk_warn_threshold :: int
  pg_circuit_risk_block_threshold :: int
  pg_circuit_event_history_size :: int
  pg_circuit_wal_pressure_elevated_bps :: int
  pg_circuit_wal_pressure_high_bps :: int
  fault_build :: bool
  pg_circuit_fault :: "string option"

definition default_config :: "bool \<Rightarrow> config" where
  "default_config fault =
     \<lparr>pg_circuit_enabled = True,
      pg_circuit_debug = False,
      pg_circuit_fail_closed = False,
      pg_circuit_mode = PgCircuitMode_code PGC_MODE_WARN,
      pg_circuit_runtime_mode = PgCircuitRuntimeModeConfig_code PGC_RUNTIME_CFG_NORMAL,
      pg_circuit_long_transaction_seconds = 300,
      pg_circuit_replication_lag_warning_seconds = 10,
      pg_circuit_replication_lag_critical_seconds = 30,
      pg_circuit_risk_warn_threshold = 50,
      pg_circuit_risk_block_threshold = 80,
      pg_circuit_event_history_size = 256,
      pg_circuit_wal_pressure_elevated_bps = 16 * 1024 * 1024,
      pg_circuit_wal_pressure_high_bps = 64 * 1024 * 1024,
      fault_build = fault,
      pg_circuit_fault = None\<rparr>"

definition pg_circuit_fault_is :: "(string \<Rightarrow> string \<Rightarrow> bool) \<Rightarrow> config \<Rightarrow> string \<Rightarrow> bool" where
  "pg_circuit_fault_is strcaseeq cfg name =
     (if fault_build cfg
      then (case pg_circuit_fault cfg of
              None \<Rightarrow> False
            | Some f \<Rightarrow> f \<noteq> [] \<and> strcaseeq f name)
      else False)"


section \<open>The registered variables\<close>

datatype guc_context = PGC_SUSET | PGC_POSTMASTER

datatype guc_value = GV_bool bool | GV_int int | GV_string string

datatype guc_type =
    GucBool
  | GucEnum "(string \<times> int) list"
  | GucInt int int
  | GucString

record guc =
  guc_name :: string
  guc_type :: guc_type
  guc_boot :: guc_value
  guc_context :: guc_context
  guc_get :: "config \<Rightarrow> guc_value"

definition INT_MAX :: int where
  "INT_MAX = 2147483647"

definition mode_options :: "(string \<times> int) list" where
  "mode_options =
     [(''observe'', PgCircuitMode_code PGC_MODE_OBSERVE),
      (''warn'', PgCircuitMode_code PGC_MODE_WARN),
      (''enforce'', PgCircuitMode_code PGC_MODE_ENFORCE)]"

definition runtime_mode_options :: "(string \<times> int) list" where
  "runtime_mode_options =
     [(''normal'', PgCircuitRuntimeModeConfig_code PGC_RUNTIME_CFG_NORMAL),
      (''protect'', PgCircuitRuntimeModeConfig_code PGC_RUNTIME_CFG_PROTECT),
      (''emergency'', PgCircuitRuntimeModeConfig_code PGC_RUNTIME_CFG_EMERGENCY),
      (''auto'', PgCircuitRuntimeModeConfig_code PGC_RUNTIME_CFG_AUTO)]"

definition def_guc ::
    "string \<Rightarrow> guc_type \<Rightarrow> (config \<Rightarrow> guc_value) \<Rightarrow> guc_value \<Rightarrow> guc_context \<Rightarrow> guc" where
  "def_guc name ty get boot ctx =
     \<lparr>guc_name = name, guc_type = ty, guc_boot = boot, guc_context = ctx, guc_get = get\<rparr>"

definition guc_table :: "bool \<Rightarrow> guc list" where
  "guc_table fault =
     [def_guc ''pg_circuit.enabled'' GucBool
        (\<lambda>c. GV_bool (pg_circuit_enabled c)) (GV_bool True) PGC_SUSET,
      def_guc ''pg_circuit.debug'' GucBool
        (\<lambda>c. GV_bool (pg_circuit_debug c)) (GV_bool False) PGC_SUSET,
      def_guc ''pg_circuit.mode'' (GucEnum mode_options)
        (\<lambda>c. GV_int (pg_circuit_mode c)) (GV_int (PgCircuitMode_code PGC_MODE_WARN)) PGC_SUSET,
      def_guc ''pg_circuit.runtime_mode'' (GucEnum runtime_mode_options)
        (\<lambda>c. GV_int (pg_circuit_runtime_mode c))
        (GV_int (PgCircuitRuntimeModeConfig_code PGC_RUNTIME_CFG_NORMAL)) PGC_SUSET,
      def_guc ''pg_circuit.long_transaction_seconds'' (GucInt 1 INT_MAX)
        (\<lambda>c. GV_int (pg_circuit_long_transaction_seconds c)) (GV_int 300) PGC_SUSET,
      def_guc ''pg_circuit.replication_lag_warning_seconds'' (GucInt 0 INT_MAX)
        (\<lambda>c. GV_int (pg_circuit_replication_lag_warning_seconds c)) (GV_int 10) PGC_SUSET,
      def_guc ''pg_circuit.replication_lag_critical_seconds'' (GucInt 0 INT_MAX)
        (\<lambda>c. GV_int (pg_circuit_replication_lag_critical_seconds c)) (GV_int 30) PGC_SUSET,
      def_guc ''pg_circuit.risk_warn_threshold'' (GucInt 0 100)
        (\<lambda>c. GV_int (pg_circuit_risk_warn_threshold c)) (GV_int 50) PGC_SUSET,
      def_guc ''pg_circuit.risk_block_threshold'' (GucInt 0 100)
        (\<lambda>c. GV_int (pg_circuit_risk_block_threshold c)) (GV_int 80) PGC_SUSET,
      def_guc ''pg_circuit.event_history_size'' (GucInt 1 4096)
        (\<lambda>c. GV_int (pg_circuit_event_history_size c)) (GV_int 256) PGC_POSTMASTER,
      def_guc ''pg_circuit.wal_pressure_elevated_bps'' (GucInt 1 INT_MAX)
        (\<lambda>c. GV_int (pg_circuit_wal_pressure_elevated_bps c)) (GV_int (16 * 1024 * 1024)) PGC_SUSET,
      def_guc ''pg_circuit.wal_pressure_high_bps'' (GucInt 1 INT_MAX)
        (\<lambda>c. GV_int (pg_circuit_wal_pressure_high_bps c)) (GV_int (64 * 1024 * 1024)) PGC_SUSET,
      def_guc ''pg_circuit.fail_closed'' GucBool
        (\<lambda>c. GV_bool (pg_circuit_fail_closed c)) (GV_bool False) PGC_SUSET]
     @ (if fault
        then [def_guc ''pg_circuit.fault'' GucString
                (\<lambda>c. GV_string (case pg_circuit_fault c of None \<Rightarrow> '''' | Some s \<Rightarrow> s))
                (GV_string '''') PGC_SUSET]
        else [])"

text \<open>
  The calls of the registration: one \<open>DefineCustom...Variable\<close> per variable, then the warning
  about settings of the prefix that no variable took.
\<close>

datatype guc_call = DefineCustomVariable guc | EmitWarningsOnPlaceholders string

definition pg_circuit_register_gucs :: "bool \<Rightarrow> guc_call list" where
  "pg_circuit_register_gucs fault =
     map DefineCustomVariable (guc_table fault) @ [EmitWarningsOnPlaceholders ''pg_circuit'']"


section \<open>Well-formed configurations\<close>

text \<open>
  A value a variable can hold: an integer inside its registered bounds, an enumerator of its
  option table. The server checks this on every assignment; \<open>config_ok\<close> says it of all
  variables at once.
\<close>

definition guc_accepts :: "guc_type \<Rightarrow> guc_value \<Rightarrow> bool" where
  "guc_accepts ty v =
     (case (ty, v) of
        (GucBool, GV_bool _) \<Rightarrow> True
      | (GucEnum opts, GV_int i) \<Rightarrow> i \<in> snd ` set opts
      | (GucInt lo hi, GV_int i) \<Rightarrow> lo \<le> i \<and> i \<le> hi
      | (GucString, GV_string _) \<Rightarrow> True
      | _ \<Rightarrow> False)"

definition config_ok :: "config \<Rightarrow> bool" where
  "config_ok cfg \<longleftrightarrow>
     list_all (\<lambda>g. guc_accepts (guc_type g) (guc_get g cfg))
       (guc_table (fault_build cfg))"

lemmas guc_defs = guc_table_def def_guc_def guc_accepts_def mode_options_def
  runtime_mode_options_def INT_MAX_def

lemma config_ok_iff:
  "config_ok cfg \<longleftrightarrow>
     pg_circuit_mode cfg \<in> {0, 1, 2} \<and> pg_circuit_runtime_mode cfg \<in> {0, 1, 2, 3}
     \<and> 1 \<le> pg_circuit_long_transaction_seconds cfg
     \<and> pg_circuit_long_transaction_seconds cfg \<le> 2147483647
     \<and> 0 \<le> pg_circuit_replication_lag_warning_seconds cfg
     \<and> pg_circuit_replication_lag_warning_seconds cfg \<le> 2147483647
     \<and> 0 \<le> pg_circuit_replication_lag_critical_seconds cfg
     \<and> pg_circuit_replication_lag_critical_seconds cfg \<le> 2147483647
     \<and> 0 \<le> pg_circuit_risk_warn_threshold cfg \<and> pg_circuit_risk_warn_threshold cfg \<le> 100
     \<and> 0 \<le> pg_circuit_risk_block_threshold cfg \<and> pg_circuit_risk_block_threshold cfg \<le> 100
     \<and> 1 \<le> pg_circuit_event_history_size cfg \<and> pg_circuit_event_history_size cfg \<le> 4096
     \<and> 1 \<le> pg_circuit_wal_pressure_elevated_bps cfg
     \<and> pg_circuit_wal_pressure_elevated_bps cfg \<le> 2147483647
     \<and> 1 \<le> pg_circuit_wal_pressure_high_bps cfg
     \<and> pg_circuit_wal_pressure_high_bps cfg \<le> 2147483647"
  by (simp add: config_ok_def guc_defs)

lemma config_ok_mode:
  "config_ok cfg \<Longrightarrow> \<exists>m. PgCircuitMode_of (pg_circuit_mode cfg) = Some m"
  by (auto simp: config_ok_iff PgCircuitMode_of_def)

lemma default_config_ok: "config_ok (default_config fault)"
  by (simp add: config_ok_iff default_config_def)

end
