(* ===== verification/Pgc_Reporting.thy ===== *)
theory Pgc_Reporting
  imports Pgc_Types
begin

text \<open>
  \<open>src/reporting.c\<close> and the name functions of \<open>event.c\<close>, \<open>wal.c\<close>, \<open>risk_engine.c\<close>,
  \<open>runtime_state.c\<close> and \<open>policy_stub.c\<close>: the texts of enumerators and the level of a
  score. A name function takes the integer the C switch sees and falls to the default text
  where no enumerator has that code.
\<close>

definition pg_circuit_score_to_level :: "int \<Rightarrow> PgCircuitRiskLevel" where
  "pg_circuit_score_to_level score =
     (if score \<ge> 80 then PGC_RISK_CRITICAL
      else if score \<ge> 60 then PGC_RISK_HIGH
      else if score \<ge> 40 then PGC_RISK_MEDIUM
      else if score \<ge> 20 then PGC_RISK_LOW
      else PGC_RISK_INFO)"

definition pg_circuit_mode_name :: "int \<Rightarrow> string" where
  "pg_circuit_mode_name m =
     (case PgCircuitMode_of m of
        Some PGC_MODE_OBSERVE \<Rightarrow> ''observe''
      | Some PGC_MODE_WARN \<Rightarrow> ''warn''
      | Some PGC_MODE_ENFORCE \<Rightarrow> ''enforce''
      | None \<Rightarrow> ''unknown'')"

definition pg_circuit_safety_mode_name :: "int \<Rightarrow> string" where
  "pg_circuit_safety_mode_name m =
     (case PgCircuitSafetyMode_of m of
        Some PGC_SAFETY_NORMAL \<Rightarrow> ''NORMAL''
      | Some PGC_SAFETY_PROTECT \<Rightarrow> ''PROTECT''
      | Some PGC_SAFETY_EMERGENCY \<Rightarrow> ''EMERGENCY''
      | None \<Rightarrow> ''UNKNOWN'')"

definition pg_circuit_runtime_cfg_name :: "int \<Rightarrow> string" where
  "pg_circuit_runtime_cfg_name m =
     (case PgCircuitRuntimeModeConfig_of m of
        Some PGC_RUNTIME_CFG_NORMAL \<Rightarrow> ''normal''
      | Some PGC_RUNTIME_CFG_PROTECT \<Rightarrow> ''protect''
      | Some PGC_RUNTIME_CFG_EMERGENCY \<Rightarrow> ''emergency''
      | Some PGC_RUNTIME_CFG_AUTO \<Rightarrow> ''auto''
      | None \<Rightarrow> ''unknown'')"

definition pg_circuit_decision_name :: "int \<Rightarrow> string" where
  "pg_circuit_decision_name d =
     (case PgCircuitDecision_of d of
        Some PGC_DECISION_ALLOW \<Rightarrow> ''ALLOW''
      | Some PGC_DECISION_WARN \<Rightarrow> ''WARN''
      | Some PGC_DECISION_BLOCK \<Rightarrow> ''BLOCK''
      | None \<Rightarrow> ''UNKNOWN'')"

definition pg_circuit_risk_level_name :: "int \<Rightarrow> string" where
  "pg_circuit_risk_level_name l =
     (case PgCircuitRiskLevel_of l of
        Some PGC_RISK_INFO \<Rightarrow> ''INFO''
      | Some PGC_RISK_LOW \<Rightarrow> ''LOW''
      | Some PGC_RISK_MEDIUM \<Rightarrow> ''MEDIUM''
      | Some PGC_RISK_HIGH \<Rightarrow> ''HIGH''
      | Some PGC_RISK_CRITICAL \<Rightarrow> ''CRITICAL''
      | None \<Rightarrow> ''UNKNOWN'')"

definition pg_circuit_workload_class_name :: "int \<Rightarrow> string" where
  "pg_circuit_workload_class_name c =
     (case PgCircuitWorkloadClass_of c of
        Some PGC_WCLASS_READ \<Rightarrow> ''read''
      | Some PGC_WCLASS_OLTP_SMALL \<Rightarrow> ''oltp_small''
      | Some PGC_WCLASS_BULK_WRITE \<Rightarrow> ''bulk_write''
      | Some PGC_WCLASS_DDL \<Rightarrow> ''ddl''
      | Some PGC_WCLASS_MAINTENANCE \<Rightarrow> ''maintenance''
      | None \<Rightarrow> ''unknown'')"

definition pg_circuit_lock_class_name :: "int \<Rightarrow> string" where
  "pg_circuit_lock_class_name c =
     (case PgCircuitLockClass_of c of
        Some PGC_LOCK_NONE \<Rightarrow> ''none''
      | Some PGC_LOCK_LOW \<Rightarrow> ''low''
      | Some PGC_LOCK_MEDIUM \<Rightarrow> ''medium''
      | Some PGC_LOCK_HIGH \<Rightarrow> ''high''
      | None \<Rightarrow> ''unknown'')"

definition pg_circuit_query_kind_name :: "int \<Rightarrow> string" where
  "pg_circuit_query_kind_name k =
     (case PgCircuitQueryKind_of k of
        Some PGC_QKIND_DELETE_NO_WHERE \<Rightarrow> ''delete_no_where''
      | Some PGC_QKIND_UPDATE_NO_WHERE \<Rightarrow> ''update_no_where''
      | Some PGC_QKIND_TRUNCATE \<Rightarrow> ''truncate''
      | Some PGC_QKIND_DROP_TABLE \<Rightarrow> ''drop_table''
      | Some PGC_QKIND_DROP_DATABASE \<Rightarrow> ''drop_database''
      | Some PGC_QKIND_ALTER_TABLE \<Rightarrow> ''alter_table''
      | Some PGC_QKIND_CREATE_INDEX \<Rightarrow> ''create_index''
      | Some PGC_QKIND_CREATE_INDEX_CONCURRENTLY \<Rightarrow> ''create_index_concurrently''
      | Some PGC_QKIND_REINDEX \<Rightarrow> ''reindex''
      | Some PGC_QKIND_VACUUM_FULL \<Rightarrow> ''vacuum_full''
      | Some PGC_QKIND_CLUSTER \<Rightarrow> ''cluster''
      | Some PGC_QKIND_OTHER \<Rightarrow> ''other''
      | None \<Rightarrow> ''other'')"

definition pg_circuit_wal_pressure_name :: "int \<Rightarrow> string" where
  "pg_circuit_wal_pressure_name level =
     (if level = PGC_WAL_CRITICAL then ''critical''
      else if level = PGC_WAL_ELEVATED then ''elevated''
      else if level = PGC_WAL_NORMAL then ''normal''
      else ''low'')"

definition pg_circuit_replication_health_name :: "int \<Rightarrow> string" where
  "pg_circuit_replication_health_name h =
     (case PgCircuitReplicationHealth_of h of
        Some PGC_REPL_HEALTHY \<Rightarrow> ''healthy''
      | Some PGC_REPL_LAGGING \<Rightarrow> ''lagging''
      | Some PGC_REPL_SEVERE \<Rightarrow> ''severely_lagging''
      | Some PGC_REPL_NONE \<Rightarrow> ''none''
      | None \<Rightarrow> ''none'')"

definition pg_circuit_policy_action_name :: "int \<Rightarrow> string" where
  "pg_circuit_policy_action_name a =
     (case PgCircuitPolicyAction_of a of
        Some PGC_PACTION_ALLOW \<Rightarrow> ''allow''
      | Some PGC_PACTION_WARN \<Rightarrow> ''warn''
      | Some PGC_PACTION_BLOCK \<Rightarrow> ''block''
      | Some PGC_PACTION_AUDIT \<Rightarrow> ''audit''
      | Some PGC_PACTION_NONE \<Rightarrow> ''none''
      | None \<Rightarrow> ''none'')"


section \<open>Facts the clients use\<close>

lemma score_to_level_mono: "a \<le> b \<Longrightarrow> pg_circuit_score_to_level a \<le> pg_circuit_score_to_level b"
  by (simp add: pg_circuit_score_to_level_def enum_simps)

lemma decision_name_code [simp]:
  "pg_circuit_decision_name (PgCircuitDecision_code d) =
     (case d of PGC_DECISION_ALLOW \<Rightarrow> ''ALLOW'' | PGC_DECISION_WARN \<Rightarrow> ''WARN''
      | PGC_DECISION_BLOCK \<Rightarrow> ''BLOCK'')"
  by (simp add: pg_circuit_decision_name_def enum_simps split: PgCircuitDecision.split)

lemma safety_mode_name_normal [simp]:
  "pg_circuit_safety_mode_name (PgCircuitSafetyMode_code PGC_SAFETY_NORMAL) = ''NORMAL''"
  by (simp add: pg_circuit_safety_mode_name_def PgCircuitSafetyMode_of_def)

lemma decision_name_inject:
  "pg_circuit_decision_name (PgCircuitDecision_code a) = pg_circuit_decision_name (PgCircuitDecision_code b)
     \<longleftrightarrow> a = b"
  by (cases a; cases b) (simp_all add: pg_circuit_decision_name_def PgCircuitDecision_of_def)

lemma length_query_kind_name: "length (pg_circuit_query_kind_name k) \<le> 25"
  by (simp add: pg_circuit_query_kind_name_def split: option.split PgCircuitQueryKind.split)

lemma query_kind_name_nonempty [simp]: "pg_circuit_query_kind_name k \<noteq> []"
  by (simp add: pg_circuit_query_kind_name_def split: option.split PgCircuitQueryKind.split)

end
