(* ===== verification/Pgc_Pressure.thy ===== *)
theory Pgc_Pressure
  imports Pgc_Server Pgc_Config Pgc_Reporting
begin

text \<open>
  The runtime state of \<open>include/runtime_state.h\<close> and the scoring half of
  \<open>src/runtime_state.c\<close>: the pressure factors, their combination, and the sorted report of
  contributors. Scores are C \<open>int\<close>s: sums and products wrap at 32 bits.
\<close>

record PgCircuitRuntimeState =
  rs_mode :: PgCircuitSafetyMode
  rs_active_connections :: int
  rs_idle_connections :: int
  rs_active_query_backends :: int
  rs_max_connections :: int
  rs_reserved_connections :: int
  rs_connection_pressure_score :: int
  rs_active_transactions :: int
  rs_long_transactions :: int
  rs_idle_in_transaction :: int
  rs_oldest_transaction_age_seconds :: double
  rs_oldest_idle_in_transaction_age_seconds :: double
  rs_blocked_sessions :: int
  rs_blocking_sessions :: int
  rs_max_lock_wait_seconds :: double
  rs_lock_cycle_detected :: bool
  rs_max_lock_chain_depth :: int
  rs_max_lock_descendants :: int
  rs_replica_count :: int
  rs_max_replication_lag_seconds :: double
  rs_max_write_lag_seconds :: double
  rs_max_flush_lag_seconds :: double
  rs_max_replay_lag_seconds :: double
  rs_max_reply_lag_seconds :: double
  rs_replication_health :: PgCircuitReplicationHealth
  rs_wal_bytes_per_sec :: double
  rs_wal_pressure_level :: int
  rs_pressure_score :: int
  rs_pressure_tx :: int
  rs_pressure_locks :: int
  rs_pressure_replication :: int
  rs_pressure_wal :: int
  rs_pressure_connections :: int

definition zero_runtime :: PgCircuitRuntimeState where
  "zero_runtime =
     \<lparr>rs_mode = PGC_SAFETY_NORMAL, rs_active_connections = 0, rs_idle_connections = 0,
      rs_active_query_backends = 0, rs_max_connections = 0, rs_reserved_connections = 0,
      rs_connection_pressure_score = 0, rs_active_transactions = 0, rs_long_transactions = 0,
      rs_idle_in_transaction = 0, rs_oldest_transaction_age_seconds = 0,
      rs_oldest_idle_in_transaction_age_seconds = 0, rs_blocked_sessions = 0,
      rs_blocking_sessions = 0, rs_max_lock_wait_seconds = 0, rs_lock_cycle_detected = False,
      rs_max_lock_chain_depth = 0, rs_max_lock_descendants = 0, rs_replica_count = 0,
      rs_max_replication_lag_seconds = 0, rs_max_write_lag_seconds = 0,
      rs_max_flush_lag_seconds = 0, rs_max_replay_lag_seconds = 0, rs_max_reply_lag_seconds = 0,
      rs_replication_health = PGC_REPL_NONE, rs_wal_bytes_per_sec = 0,
      rs_wal_pressure_level = 0, rs_pressure_score = 0, rs_pressure_tx = 0,
      rs_pressure_locks = 0, rs_pressure_replication = 0, rs_pressure_wal = 0,
      rs_pressure_connections = 0\<rparr>"


section \<open>Pressure factors\<close>

definition c_add :: "int \<Rightarrow> int \<Rightarrow> int" where
  "c_add a b = wrap32 (a + b)"

definition c_mul :: "int \<Rightarrow> int \<Rightarrow> int" where
  "c_mul a b = wrap32 (a * b)"

definition pg_circuit_pressure_score_transactions_ex :: "int \<Rightarrow> int \<Rightarrow> double \<Rightarrow> int \<Rightarrow> int" where
  "pg_circuit_pressure_score_transactions_ex long_transactions idle_in_transaction
       oldest_age_seconds long_limit_seconds =
     (let score = 0;
          score = (if long_transactions > 0 then c_add score (c_mul long_transactions 12) else score);
          score = (if idle_in_transaction > 0 then c_add score (c_mul idle_in_transaction 6) else score)
      in if long_limit_seconds > 0
            \<and> oldest_age_seconds \<ge> d_mul (double_of_int long_limit_seconds) 2
         then c_add score 15
         else if long_limit_seconds > 0 \<and> oldest_age_seconds \<ge> double_of_int long_limit_seconds
         then c_add score 5
         else score)"

definition pg_circuit_pressure_score_transactions :: "int \<Rightarrow> int \<Rightarrow> int" where
  "pg_circuit_pressure_score_transactions long_transactions idle_in_transaction =
     pg_circuit_pressure_score_transactions_ex long_transactions idle_in_transaction 0 0"

definition pg_circuit_pressure_score_locks_ex :: "int \<Rightarrow> int \<Rightarrow> int \<Rightarrow> int \<Rightarrow> double \<Rightarrow> int" where
  "pg_circuit_pressure_score_locks_ex blocked_sessions blocking_sessions max_chain_depth
       max_descendants max_wait_seconds =
     (let score = 0;
          score = (if blocked_sessions \<ge> 1 then c_add score 8 else score);
          score = (if blocked_sessions \<ge> 5 then c_add score 15 else score);
          score = (if blocked_sessions \<ge> 20 then c_add score 25 else score);
          score = (if blocking_sessions > 0
                   then c_add score (c_mul (min blocking_sessions 5) 4) else score);
          score = (if max_descendants \<ge> 50 then c_add score 25
                   else if max_descendants \<ge> 20 then c_add score 15
                   else if max_descendants \<ge> 5 then c_add score 8
                   else if max_descendants \<ge> 2 then c_add score 4
                   else score);
          score = (if max_chain_depth \<ge> 5 then c_add score 12
                   else if max_chain_depth \<ge> 3 then c_add score 8
                   else if max_chain_depth \<ge> 2 then c_add score 3
                   else score)
      in if max_wait_seconds \<ge> 30 then c_add score 8
         else if max_wait_seconds \<ge> 5 then c_add score 4
         else score)"

definition pg_circuit_pressure_score_locks :: "int \<Rightarrow> int \<Rightarrow> int" where
  "pg_circuit_pressure_score_locks blocked_sessions blocking_sessions =
     pg_circuit_pressure_score_locks_ex blocked_sessions blocking_sessions 0 0 0"

definition pg_circuit_pressure_score_replication :: "double \<Rightarrow> int \<Rightarrow> int \<Rightarrow> int" where
  "pg_circuit_pressure_score_replication lag_seconds warn_seconds critical_seconds =
     (if lag_seconds \<le> 0 then 0
      else if critical_seconds > 0 \<and> lag_seconds \<ge> double_of_int critical_seconds then 35
      else if warn_seconds > 0 \<and> lag_seconds \<ge> double_of_int warn_seconds then 18
      else 0)"

definition pg_circuit_pressure_score_wal :: "config \<Rightarrow> double \<Rightarrow> int" where
  "pg_circuit_pressure_score_wal cfg bytes_per_sec =
     (if bytes_per_sec \<ge> double_of_int (pg_circuit_wal_pressure_high_bps cfg) then 30
      else if bytes_per_sec \<ge> double_of_int (pg_circuit_wal_pressure_elevated_bps cfg) then 15
      else 0)"

text \<open>The decimal literals of the ratio test are doubles themselves; \<open>div\<close> on a positive
  number is the C quotient.\<close>

definition pg_circuit_pressure_score_connections :: "int \<Rightarrow> int \<Rightarrow> int \<Rightarrow> int \<Rightarrow> int \<Rightarrow> int" where
  "pg_circuit_pressure_score_connections used_connections max_connections reserved_connections
       idle_in_transaction active_query_backends =
     (if max_connections \<le> 0 then 0
      else (let usable = wrap32 (max_connections - reserved_connections);
                usable = (if usable < 1 then 1 else usable);
                score = 0;
                ratio = d_div (double_of_int used_connections) (double_of_int usable);
                score = (if ratio \<ge> dround (95 / 100) then c_add score 25
                         else if ratio \<ge> dround (85 / 100) then c_add score 15
                         else if ratio \<ge> dround (70 / 100) then c_add score 8
                         else score);
                score = (if idle_in_transaction > 0
                         then c_add score (c_mul (min idle_in_transaction 8) 2) else score)
            in if active_query_backends > 0 \<and> active_query_backends \<ge> usable div 2
               then c_add score 5 else score))"

definition pg_circuit_pressure_score_combine5 :: "int \<Rightarrow> int \<Rightarrow> int \<Rightarrow> int \<Rightarrow> int \<Rightarrow> int" where
  "pg_circuit_pressure_score_combine5 tx_score lock_score repl_score wal_score conn_score =
     (let score = c_add (c_add (c_add (c_add tx_score lock_score) repl_score) wal_score) conn_score
      in if score < 0 then 0 else if score > 100 then 100 else score)"

definition pg_circuit_pressure_score_combine :: "int \<Rightarrow> int \<Rightarrow> int \<Rightarrow> int \<Rightarrow> int" where
  "pg_circuit_pressure_score_combine tx_score lock_score repl_score wal_score =
     pg_circuit_pressure_score_combine5 tx_score lock_score repl_score wal_score 0"


section \<open>Thresholds and mode\<close>

definition pg_circuit_effective_risk_thresholds :: "config \<Rightarrow> int \<times> int" where
  "pg_circuit_effective_risk_thresholds cfg =
     (pg_circuit_risk_warn_threshold cfg, pg_circuit_risk_block_threshold cfg)"

definition pg_circuit_effective_lag_warn_seconds :: "config \<Rightarrow> int" where
  "pg_circuit_effective_lag_warn_seconds cfg = pg_circuit_replication_lag_warning_seconds cfg"

definition pg_circuit_effective_lag_critical_seconds :: "config \<Rightarrow> int" where
  "pg_circuit_effective_lag_critical_seconds cfg = pg_circuit_replication_lag_critical_seconds cfg"

definition pg_circuit_resolve_safety_mode :: "config \<Rightarrow> PgCircuitRuntimeState \<Rightarrow> PgCircuitSafetyMode" where
  "pg_circuit_resolve_safety_mode cfg state = PGC_SAFETY_NORMAL"

definition pg_circuit_compute_pressure_and_mode ::
    "config \<Rightarrow> PgCircuitRuntimeState \<Rightarrow> PgCircuitRuntimeState" where
  "pg_circuit_compute_pressure_and_mode cfg state =
     (let lag_warn = pg_circuit_effective_lag_warn_seconds cfg;
          lag_crit = pg_circuit_effective_lag_critical_seconds cfg;
          tx = pg_circuit_pressure_score_transactions_ex (rs_long_transactions state)
                 (rs_idle_in_transaction state) (rs_oldest_transaction_age_seconds state)
                 (pg_circuit_long_transaction_seconds cfg);
          locks = pg_circuit_pressure_score_locks_ex (rs_blocked_sessions state)
                 (rs_blocking_sessions state) (rs_max_lock_chain_depth state)
                 (rs_max_lock_descendants state) (rs_max_lock_wait_seconds state);
          repl = pg_circuit_pressure_score_replication (rs_max_replication_lag_seconds state)
                 lag_warn lag_crit;
          wal = pg_circuit_pressure_score_wal cfg (rs_wal_bytes_per_sec state);
          conn = pg_circuit_pressure_score_connections (rs_active_connections state)
                 (rs_max_connections state) (rs_reserved_connections state)
                 (rs_idle_in_transaction state) (rs_active_query_backends state);
          state = state\<lparr>rs_pressure_tx := tx, rs_pressure_locks := locks,
                        rs_pressure_replication := repl, rs_pressure_wal := wal,
                        rs_pressure_connections := conn, rs_connection_pressure_score := conn,
                        rs_pressure_score := pg_circuit_pressure_score_combine5 tx locks repl wal conn\<rparr>
      in state\<lparr>rs_mode := pg_circuit_resolve_safety_mode cfg state\<rparr>)"


section \<open>The contributor report\<close>

definition newline :: string where
  "newline = [CHR 0x0A]"

text \<open>
  The C insertion sort: the element \<open>tmp\<close> moves left past smaller ones, each shifted one
  place to the right.
\<close>

fun sift :: "(string \<times> int) list \<Rightarrow> nat \<Rightarrow> string \<times> int \<Rightarrow> (string \<times> int) list" where
  "sift parts 0 tmp = parts[0 := tmp]"
| "sift parts (Suc j) tmp =
     (if snd (parts ! j) < snd tmp then sift (parts[Suc j := parts ! j]) j tmp
      else parts[Suc j := tmp])"

definition insertion_sort :: "(string \<times> int) list \<Rightarrow> (string \<times> int) list" where
  "insertion_sort parts = fold (\<lambda>i ps. sift ps i (ps ! i)) [1..<length parts] parts"

definition pressure_parts :: "PgCircuitRuntimeState \<Rightarrow> (string \<times> int) list" where
  "pressure_parts state =
     [(''transactions'', rs_pressure_tx state),
      (''locks'', rs_pressure_locks state),
      (''replication_lag'', rs_pressure_replication state),
      (''wal'', rs_pressure_wal state),
      (''connection_pressure'', rs_pressure_connections state)]"

definition contributor_line :: "string \<times> int \<Rightarrow> string" where
  "contributor_line p = ''  '' @ fst p @ '' +'' @ show_int (snd p) @ newline"

definition pg_circuit_format_pressure_contributors :: "PgCircuitRuntimeState \<Rightarrow> string" where
  "pg_circuit_format_pressure_contributors state =
     ''effective_mode: '' @ pg_circuit_safety_mode_name (PgCircuitSafetyMode_code (rs_mode state))
     @ newline
     @ ''note: Community effective mode is always NORMAL; pressure is display-only'' @ newline
     @ ''pressure_score: '' @ show_int (rs_pressure_score state) @ newline
     @ ''contributors:'' @ newline
     @ concat (map (\<lambda>p. if snd p \<le> 0 then '''' else contributor_line p)
                 (insertion_sort (pressure_parts state)))"


section \<open>Bounds and closed forms\<close>

lemma c_add_id: "is_int32 (a + b) \<Longrightarrow> c_add a b = a + b"
  by (simp add: c_add_def wrap32_id)

lemma c_mul_id: "is_int32 (a * b) \<Longrightarrow> c_mul a b = a * b"
  by (simp add: c_mul_def wrap32_id)

text \<open>The lock factor is a sum of independent tiers; no intermediate sum leaves 32 bits.\<close>

definition lock_waiters_tier :: "int \<Rightarrow> int" where
  "lock_waiters_tier n = (if n \<ge> 20 then 48 else if n \<ge> 5 then 23 else if n \<ge> 1 then 8 else 0)"

definition lock_blockers_tier :: "int \<Rightarrow> int" where
  "lock_blockers_tier n = 4 * max 0 (min n 5)"

definition lock_descendants_tier :: "int \<Rightarrow> int" where
  "lock_descendants_tier n =
     (if n \<ge> 50 then 25 else if n \<ge> 20 then 15 else if n \<ge> 5 then 8 else if n \<ge> 2 then 4 else 0)"

definition lock_depth_tier :: "int \<Rightarrow> int" where
  "lock_depth_tier n = (if n \<ge> 5 then 12 else if n \<ge> 3 then 8 else if n \<ge> 2 then 3 else 0)"

definition lock_wait_tier :: "double \<Rightarrow> int" where
  "lock_wait_tier s = (if s \<ge> 30 then 8 else if s \<ge> 5 then 4 else 0)"

lemmas lock_tier_defs = lock_waiters_tier_def lock_blockers_tier_def lock_descendants_tier_def
  lock_depth_tier_def lock_wait_tier_def

lemma lock_tier_bounds:
  "0 \<le> lock_waiters_tier n" "lock_waiters_tier n \<le> 48"
  "0 \<le> lock_blockers_tier n" "lock_blockers_tier n \<le> 20"
  "0 \<le> lock_descendants_tier n" "lock_descendants_tier n \<le> 25"
  "0 \<le> lock_depth_tier n" "lock_depth_tier n \<le> 12"
  "0 \<le> lock_wait_tier s" "lock_wait_tier s \<le> 8"
  by (simp_all add: lock_tier_defs)

lemma lock_tier_mono:
  "a \<le> b \<Longrightarrow> lock_waiters_tier a \<le> lock_waiters_tier b"
  "a \<le> b \<Longrightarrow> lock_blockers_tier a \<le> lock_blockers_tier b"
  "a \<le> b \<Longrightarrow> lock_descendants_tier a \<le> lock_descendants_tier b"
  "a \<le> b \<Longrightarrow> lock_depth_tier a \<le> lock_depth_tier b"
  "s \<le> t \<Longrightarrow> lock_wait_tier s \<le> lock_wait_tier t"
  by (simp_all add: lock_tier_defs)

lemma locks_ex_tiers:
  "pg_circuit_pressure_score_locks_ex blocked blocking depth desc wait
     = lock_waiters_tier blocked + lock_blockers_tier blocking + lock_descendants_tier desc
       + lock_depth_tier depth + lock_wait_tier wait"
proof -
  have b: "0 < blocking \<Longrightarrow> c_mul (min blocking 5) 4 = lock_blockers_tier blocking"
    by (simp add: c_mul_id lock_blockers_tier_def min_def)
  have b0: "\<not> 0 < blocking \<Longrightarrow> lock_blockers_tier blocking = 0"
    by (simp add: lock_blockers_tier_def)
  have s1: "(let score = 0;
        score = (if blocked \<ge> 1 then c_add score 8 else score);
        score = (if blocked \<ge> 5 then c_add score 15 else score)
      in if blocked \<ge> 20 then c_add score 25 else score) = lock_waiters_tier blocked"
    by (simp add: Let_def c_add_id lock_waiters_tier_def)
  define w where "w = lock_waiters_tier blocked"
  have w: "0 \<le> w" "w \<le> 48" by (simp_all add: w_def lock_tier_bounds)
  define s2 where "s2 = (if blocking > 0 then c_add w (c_mul (min blocking 5) 4) else w)"
  have s2: "s2 = w + lock_blockers_tier blocking"
    using b b0 w lock_tier_bounds(3,4) [of blocking] by (simp add: s2_def c_add_id)
  have r2: "0 \<le> s2" "s2 \<le> 68" using s2 w lock_tier_bounds(3,4) [of blocking] by auto
  define s3 where "s3 = (if desc \<ge> 50 then c_add s2 25 else if desc \<ge> 20 then c_add s2 15
      else if desc \<ge> 5 then c_add s2 8 else if desc \<ge> 2 then c_add s2 4 else s2)"
  have s3: "s3 = s2 + lock_descendants_tier desc"
    using r2 by (simp add: s3_def c_add_id lock_descendants_tier_def)
  have r3: "0 \<le> s3" "s3 \<le> 93" using s3 r2 lock_tier_bounds(5,6) [of desc] by auto
  define s4 where "s4 = (if depth \<ge> 5 then c_add s3 12 else if depth \<ge> 3 then c_add s3 8
      else if depth \<ge> 2 then c_add s3 3 else s3)"
  have s4: "s4 = s3 + lock_depth_tier depth"
    using r3 by (simp add: s4_def c_add_id lock_depth_tier_def)
  have r4: "0 \<le> s4" "s4 \<le> 105" using s4 r3 lock_tier_bounds(7,8) [of depth] by auto
  have "pg_circuit_pressure_score_locks_ex blocked blocking depth desc wait
      = (if wait \<ge> 30 then c_add s4 8 else if wait \<ge> 5 then c_add s4 4 else s4)"
    unfolding pg_circuit_pressure_score_locks_ex_def s4_def s3_def s2_def w_def s1 [symmetric]
    by (simp only: Let_def)
  also have "\<dots> = s4 + lock_wait_tier wait"
    using r4 by (simp add: c_add_id lock_wait_tier_def)
  finally show ?thesis by (simp add: s4 s3 s2 w_def)
qed

lemma locks_ex_range:
  "0 \<le> pg_circuit_pressure_score_locks_ex blocked blocking depth desc wait"
  "pg_circuit_pressure_score_locks_ex blocked blocking depth desc wait \<le> 113"
  using lock_tier_bounds(1,2) [of blocked] lock_tier_bounds(3,4) [of blocking]
    lock_tier_bounds(5,6) [of desc] lock_tier_bounds(7,8) [of depth] lock_tier_bounds(9,10) [of wait]
  by (simp_all add: locks_ex_tiers)

text \<open>
  The transaction factor does not wrap for any number of backends a server can have
  (\<open>MAX_BACKENDS\<close> is below \<open>2 ^ 18\<close>).
\<close>

definition tx_age_tier :: "int \<Rightarrow> double \<Rightarrow> int" where
  "tx_age_tier limit age =
     (if limit > 0 \<and> age \<ge> d_mul (double_of_int limit) 2 then 15
      else if limit > 0 \<and> age \<ge> double_of_int limit then 5 else 0)"

lemma tx_age_tier_range: "0 \<le> tx_age_tier limit age" "tx_age_tier limit age \<le> 15"
  by (simp_all add: tx_age_tier_def)

lemma transactions_ex_sum:
  assumes "lng \<le> 2 ^ 18" and "idle \<le> 2 ^ 18"
  shows "pg_circuit_pressure_score_transactions_ex lng idle age limit
     = 12 * max 0 lng + 6 * max 0 idle + tx_age_tier limit age"
proof -
  define s1 where "s1 = (if lng > 0 then c_add 0 (c_mul lng 12) else 0)"
  have s1: "s1 = 12 * max 0 lng"
    using assms by (simp add: s1_def c_add_id c_mul_id)
  define s2 where "s2 = (if idle > 0 then c_add s1 (c_mul idle 6) else s1)"
  have r1: "0 \<le> s1" "s1 \<le> 12 * 2 ^ 18" using assms by (simp_all add: s1)
  then have "s2 = s1 + 6 * max 0 idle"
    using assms by (simp add: s2_def c_add_id c_mul_id)
  then have s2: "s2 = 12 * max 0 lng + 6 * max 0 idle" by (simp add: s1)
  have r2: "0 \<le> s2" "s2 \<le> 18 * 2 ^ 18" using assms by (simp_all add: s2)
  have "pg_circuit_pressure_score_transactions_ex lng idle age limit
      = (if limit > 0 \<and> age \<ge> d_mul (double_of_int limit) 2 then c_add s2 15
         else if limit > 0 \<and> age \<ge> double_of_int limit then c_add s2 5 else s2)"
    unfolding pg_circuit_pressure_score_transactions_ex_def s2_def s1_def by (simp only: Let_def)
  also have "\<dots> = s2 + tx_age_tier limit age"
    using r2 by (simp add: c_add_id tx_age_tier_def)
  finally show ?thesis by (simp add: s2)
qed

lemma combine5_range:
  "0 \<le> pg_circuit_pressure_score_combine5 a b c d e"
  "pg_circuit_pressure_score_combine5 a b c d e \<le> 100"
  by (simp_all add: pg_circuit_pressure_score_combine5_def Let_def)

lemma combine5_sum:
  assumes "0 \<le> a" "a \<le> 2 ^ 27" "0 \<le> b" "b \<le> 2 ^ 27" "0 \<le> c" "c \<le> 2 ^ 27"
    "0 \<le> d" "d \<le> 2 ^ 27" "0 \<le> e" "e \<le> 2 ^ 27"
  shows "pg_circuit_pressure_score_combine5 a b c d e = min 100 (a + b + c + d + e)"
  using assms by (simp add: pg_circuit_pressure_score_combine5_def Let_def c_add_id)

lemma replication_score_cases: "pg_circuit_pressure_score_replication l w c \<in> {0, 18, 35}"
  by (simp add: pg_circuit_pressure_score_replication_def)

lemma wal_score_cases: "pg_circuit_pressure_score_wal cfg bps \<in> {0, 15, 30}"
  by (simp add: pg_circuit_pressure_score_wal_def)


subsection \<open>Connections\<close>

definition usable_connections :: "int \<Rightarrow> int \<Rightarrow> int" where
  "usable_connections maxc reserved = (if maxc - reserved < 1 then 1 else maxc - reserved)"

text \<open>The ratio tiers as comparisons of integers: 95, 85 and 70 percent of the usable slots.\<close>

definition connection_tier :: "int \<Rightarrow> int \<Rightarrow> int" where
  "connection_tier used usable =
     (if 95 * usable \<le> 100 * used then 25
      else if 85 * usable \<le> 100 * used then 15
      else if 70 * usable \<le> 100 * used then 8 else 0)"

lemma connections_closed:
  assumes "0 \<le> used" "is_int32 used" "0 < maxc" "is_int32 maxc" "0 \<le> reserved" "is_int32 reserved"
  shows "pg_circuit_pressure_score_connections used maxc reserved idle active =
     connection_tier used (usable_connections maxc reserved) + 2 * max 0 (min idle 8)
     + (if active > 0 \<and> active \<ge> usable_connections maxc reserved div 2 then 5 else 0)"
proof -
  define u where "u = usable_connections maxc reserved"
  have u: "0 < u" "is_int32 u" and w: "wrap32 (maxc - reserved) = maxc - reserved"
    using assms by (auto simp: u_def usable_connections_def wrap32_id)
  define ratio where "ratio = d_div (double_of_int used) (double_of_int u)"
  have q: "dround (of_int p / 100) \<le> ratio \<longleftrightarrow> p * u \<le> 100 * used" if "0 < p" "p < 100" for p
    unfolding ratio_def using that assms u by (intro quotient_ge_literal) auto
  define s1 where "s1 = (if ratio \<ge> dround (95 / 100) then c_add 0 25
      else if ratio \<ge> dround (85 / 100) then c_add 0 15
      else if ratio \<ge> dround (70 / 100) then c_add 0 8 else 0)"
  have s1: "s1 = connection_tier used u"
    using q [of 95] q [of 85] q [of 70] by (simp add: s1_def c_add_id connection_tier_def)
  have r1: "0 \<le> s1" "s1 \<le> 25" by (simp_all add: s1 connection_tier_def)
  define s2 where "s2 = (if idle > 0 then c_add s1 (c_mul (min idle 8) 2) else s1)"
  have s2: "s2 = s1 + 2 * max 0 (min idle 8)"
    using r1 by (simp add: s2_def c_mul_id c_add_id min_def)
  have r2: "0 \<le> s2" "s2 \<le> 41" using r1 by (auto simp: s2)
  have "pg_circuit_pressure_score_connections used maxc reserved idle active
      = (if active > 0 \<and> active \<ge> u div 2 then c_add s2 5 else s2)"
    unfolding pg_circuit_pressure_score_connections_def s2_def s1_def ratio_def u_def
      usable_connections_def w
    using assms(3) by (simp only: Let_def) simp
  then show ?thesis using r2 by (simp add: c_add_id s2 s1 u_def)
qed

lemma connections_range:
  assumes "0 \<le> used" "is_int32 used" "is_int32 maxc" "0 \<le> reserved" "is_int32 reserved"
  shows "0 \<le> pg_circuit_pressure_score_connections used maxc reserved idle active"
    and "pg_circuit_pressure_score_connections used maxc reserved idle active \<le> 46"
proof -
  have "0 \<le> pg_circuit_pressure_score_connections used maxc reserved idle active
      \<and> pg_circuit_pressure_score_connections used maxc reserved idle active \<le> 46"
  proof (cases "0 < maxc")
    case True
    with assms show ?thesis by (auto simp: connections_closed connection_tier_def)
  next
    case False
    then show ?thesis by (simp add: pg_circuit_pressure_score_connections_def)
  qed
  then show "0 \<le> pg_circuit_pressure_score_connections used maxc reserved idle active"
    and "pg_circuit_pressure_score_connections used maxc reserved idle active \<le> 46" by auto
qed


section \<open>The insertion sort\<close>

text \<open>
  A functional reading of \<open>sift\<close>: insertion from the right end, past the smaller elements.
\<close>

fun ins_front :: "string \<times> int \<Rightarrow> (string \<times> int) list \<Rightarrow> (string \<times> int) list" where
  "ins_front x [] = [x]"
| "ins_front x (y # ys) = (if snd y < snd x then y # ins_front x ys else x # y # ys)"

definition ins_right :: "string \<times> int \<Rightarrow> (string \<times> int) list \<Rightarrow> (string \<times> int) list" where
  "ins_right x xs = rev (ins_front x (rev xs))"

lemma mset_ins_right: "mset (ins_right x xs) = add_mset x (mset xs)"
proof -
  have "mset (ins_front x ys) = add_mset x (mset ys)" for ys
    by (induction ys) auto
  then show ?thesis by (simp add: ins_right_def)
qed

lemma length_ins_right [simp]: "length (ins_right x xs) = Suc (length xs)"
  using mset_ins_right [of x xs, THEN arg_cong [where f = size]] by simp

lemma sift_ins: "sift (xs @ z # rest) (length xs) x = ins_right x xs @ rest"
proof (induction xs arbitrary: z rest rule: rev_induct)
  case Nil
  then show ?case by (simp add: ins_right_def)
next
  case (snoc y ys)
  have "sift (ys @ y # y # rest) (length ys) x = ins_right x ys @ y # rest"
    by (rule snoc.IH)
  then show ?case
    by (simp add: ins_right_def nth_append list_update_append)
qed

lemma insertion_sort_fold:
  "fold (\<lambda>i ps. sift ps i (ps ! i)) [length xs..<length xs + length ys] (xs @ ys)
     = fold ins_right ys xs"
proof (induction ys arbitrary: xs)
  case Nil
  then show ?case by simp
next
  case (Cons y ys)
  have "sift (xs @ y # ys) (length xs) ((xs @ y # ys) ! length xs) = ins_right y xs @ ys"
    by (simp add: sift_ins)
  moreover have "[length xs..<length xs + length (y # ys)]
      = length xs # [Suc (length xs)..<Suc (length xs) + length ys]"
    by (simp add: upt_conv_Cons del: upt_Suc)
  ultimately show ?case
    using Cons.IH [of "ins_right y xs"] by (simp del: upt_Suc add_Suc)
qed

lemma insertion_sort_Nil [simp]: "insertion_sort [] = []"
  by (simp add: insertion_sort_def)

lemma insertion_sort_eq: "insertion_sort (x # xs) = fold ins_right xs [x]"
  using insertion_sort_fold [of "[x]" xs] by (simp add: insertion_sort_def)

lemma sorted_ins_right:
  assumes "sorted_wrt (\<lambda>p q. snd q \<le> snd p) xs"
  shows "sorted_wrt (\<lambda>p q. snd q \<le> snd p) (ins_right x xs)"
proof -
  have s: "set (ins_front x ys) = insert x (set ys)" for ys
    by (induction ys) auto
  have "sorted_wrt (\<lambda>p q. snd p \<le> snd q) (ins_front x ys)"
    if "sorted_wrt (\<lambda>p q. snd p \<le> snd q) ys" for ys
    using that by (induction ys) (auto simp: s)
  with assms show ?thesis by (simp add: ins_right_def sorted_wrt_rev)
qed

lemma stable_ins_right:
  "filter (\<lambda>p. snd p = c) (ins_right x xs) = filter (\<lambda>p. snd p = c) (xs @ [x])"
proof -
  have "filter (\<lambda>p. snd p = c) (ins_front x ys) = filter (\<lambda>p. snd p = c) (x # ys)" for ys
    by (induction ys) auto
  from this [of "rev xs"] show ?thesis by (simp add: ins_right_def rev_filter [symmetric])
qed

lemma insertion_sort_laws:
  "mset (insertion_sort ps) = mset ps"
  "sorted_wrt (\<lambda>p q. snd q \<le> snd p) (insertion_sort ps)"
  "filter (\<lambda>p. snd p = c) (insertion_sort ps) = filter (\<lambda>p. snd p = c) ps"
proof -
  have m: "mset (fold ins_right ys xs) = mset xs + mset ys" for xs ys
    by (induction ys arbitrary: xs) (auto simp: mset_ins_right)
  have s: "sorted_wrt (\<lambda>p q. snd q \<le> snd p) (fold ins_right ys xs)"
    if "sorted_wrt (\<lambda>p q. snd q \<le> snd p) xs" for xs ys
    using that by (induction ys arbitrary: xs) (auto simp: sorted_ins_right)
  have f: "filter (\<lambda>p. snd p = c) (fold ins_right ys xs)
      = filter (\<lambda>p. snd p = c) xs @ filter (\<lambda>p. snd p = c) ys" for xs ys
    by (induction ys arbitrary: xs) (auto simp: stable_ins_right)
  show "mset (insertion_sort ps) = mset ps"
    by (cases ps) (simp_all add: insertion_sort_eq m)
  show "sorted_wrt (\<lambda>p q. snd q \<le> snd p) (insertion_sort ps)"
    by (cases ps) (simp_all add: insertion_sort_eq s)
  show "filter (\<lambda>p. snd p = c) (insertion_sort ps) = filter (\<lambda>p. snd p = c) ps"
    by (cases ps) (simp_all add: insertion_sort_eq f)
qed

end
