(* ===== verification/Pgc_Transactions.thy ===== *)
theory Pgc_Transactions
  imports Pgc_Pressure
begin

text \<open>
  \<open>src/transactions.c\<close>: the scan of the backend activity table. One step of the loop body
  per entry; an entry that is absent, belongs to no client, or to this very session is
  skipped.
\<close>

definition tx_reset :: "pg_server \<Rightarrow> PgCircuitRuntimeState \<Rightarrow> PgCircuitRuntimeState" where
  "tx_reset pg state =
     state\<lparr>rs_active_connections := 0, rs_idle_connections := 0, rs_active_query_backends := 0,
           rs_active_transactions := 0, rs_long_transactions := 0, rs_idle_in_transaction := 0,
           rs_oldest_transaction_age_seconds := 0,
           rs_oldest_idle_in_transaction_age_seconds := 0,
           rs_max_connections := MaxConnections pg,
           rs_reserved_connections := SuperuserReservedConnections pg\<rparr>"

definition tx_age_us :: "timestamp \<Rightarrow> Backend \<Rightarrow> int" where
  "tx_age_us now b =
     (let age_us = wrap64 (now - st_xact_start_timestamp b) in if age_us < 0 then 0 else age_us)"

definition tx_connection :: "Backend \<Rightarrow> PgCircuitRuntimeState \<Rightarrow> PgCircuitRuntimeState" where
  "tx_connection b state =
     (let state = state\<lparr>rs_active_connections := c_add (rs_active_connections state) 1\<rparr>
      in if st_state b = STATE_IDLE
         then state\<lparr>rs_idle_connections := c_add (rs_idle_connections state) 1\<rparr>
         else if st_state b = STATE_RUNNING
         then state\<lparr>rs_active_query_backends := c_add (rs_active_query_backends state) 1\<rparr>
         else state)"

definition tx_transaction :: "timestamp \<Rightarrow> int \<Rightarrow> Backend \<Rightarrow> PgCircuitRuntimeState \<Rightarrow> PgCircuitRuntimeState" where
  "tx_transaction now long_limit_us b state =
     (let state = state\<lparr>rs_active_transactions := c_add (rs_active_transactions state) 1\<rparr>;
          age_us = tx_age_us now b;
          age_sec = d_div (double_of_int age_us) (double_of_int USECS_PER_SEC);
          state = (if age_sec > rs_oldest_transaction_age_seconds state
                   then state\<lparr>rs_oldest_transaction_age_seconds := age_sec\<rparr> else state);
          state = (if st_state b = STATE_IDLEINTRANSACTION
                      \<or> st_state b = STATE_IDLEINTRANSACTION_ABORTED
                   then (let state = state\<lparr>rs_idle_in_transaction :=
                                            c_add (rs_idle_in_transaction state) 1\<rparr>
                         in if age_sec > rs_oldest_idle_in_transaction_age_seconds state
                            then state\<lparr>rs_oldest_idle_in_transaction_age_seconds := age_sec\<rparr>
                            else state)
                   else state)
      in if age_us \<ge> long_limit_us
         then state\<lparr>rs_long_transactions := c_add (rs_long_transactions state) 1\<rparr>
         else state)"

definition tx_step ::
    "pg_server \<Rightarrow> timestamp \<Rightarrow> int \<Rightarrow> Backend option \<Rightarrow> PgCircuitRuntimeState \<Rightarrow> PgCircuitRuntimeState" where
  "tx_step pg now long_limit_us entry state =
     (case entry of
        None \<Rightarrow> state
      | Some b \<Rightarrow>
          (if st_procpid b \<le> 0 then state
           else if st_procpid b = MyProcPid pg then state
           else if st_backendType b \<noteq> B_BACKEND then state
           else (let state = tx_connection b state
                 in if st_state b = STATE_UNDEFINED \<or> st_state b = STATE_IDLE then state
                    else if st_xact_start_timestamp b = 0 then state
                    else tx_transaction now long_limit_us b state)))"

definition pg_circuit_collect_transaction_signals ::
    "pg_server \<Rightarrow> config \<Rightarrow> PgCircuitRuntimeState \<Rightarrow> PgCircuitRuntimeState" where
  "pg_circuit_collect_transaction_signals pg cfg state =
     (let now = now_transactions pg;
          long_limit_us = wrap64 (pg_circuit_long_transaction_seconds cfg * USECS_PER_SEC)
      in fold (tx_step pg now long_limit_us) (local_beentries pg) (tx_reset pg state))"


section \<open>What the scan counts\<close>

text \<open>
  The backends the scan looks at, and the ones it counts as transactions, as filters of the
  activity table.
\<close>

definition client_backends :: "pg_server \<Rightarrow> Backend list" where
  "client_backends pg =
     filter (\<lambda>b. 0 < st_procpid b \<and> st_procpid b \<noteq> MyProcPid pg \<and> st_backendType b = B_BACKEND)
       (List.map_filter id (local_beentries pg))"

definition in_transaction :: "Backend \<Rightarrow> bool" where
  "in_transaction b \<longleftrightarrow>
     st_state b \<noteq> STATE_UNDEFINED \<and> st_state b \<noteq> STATE_IDLE \<and> st_xact_start_timestamp b \<noteq> 0"

definition tx_idle_in :: "Backend \<Rightarrow> bool" where
  "tx_idle_in b \<longleftrightarrow> in_transaction b
     \<and> (st_state b = STATE_IDLEINTRANSACTION \<or> st_state b = STATE_IDLEINTRANSACTION_ABORTED)"

definition count_if :: "('a \<Rightarrow> bool) \<Rightarrow> 'a list \<Rightarrow> int" where
  "count_if P xs = int (length (filter P xs))"

lemma count_if_simps [simp]:
  "count_if P [] = 0"
  "count_if P (x # xs) = (if P x then 1 else 0) + count_if P xs"
  by (simp_all add: count_if_def)

lemma count_if_nonneg [simp]: "0 \<le> count_if P xs"
  by (simp add: count_if_def)

lemma count_if_le: "count_if P xs \<le> int (length xs)"
  by (simp add: count_if_def)

lemma count_if_mono: "(\<And>x. P x \<Longrightarrow> Q x) \<Longrightarrow> count_if P xs \<le> count_if Q xs"
  by (induction xs) auto

definition scan_clients :: "timestamp \<Rightarrow> int \<Rightarrow> Backend \<Rightarrow> PgCircuitRuntimeState \<Rightarrow> PgCircuitRuntimeState" where
  "scan_clients now limit b state =
     (let state = tx_connection b state
      in if in_transaction b then tx_transaction now limit b state else state)"

lemma tx_step_client:
  "tx_step pg now limit entry =
     (case entry of
        None \<Rightarrow> id
      | Some b \<Rightarrow>
          (if 0 < st_procpid b \<and> st_procpid b \<noteq> MyProcPid pg \<and> st_backendType b = B_BACKEND
           then scan_clients now limit b else id))"
  by (auto simp: fun_eq_iff tx_step_def scan_clients_def in_transaction_def Let_def
      split: option.split)

lemma scan_over_clients:
  "fold (tx_step pg now limit) entries state =
     fold (scan_clients now limit)
       (filter (\<lambda>b. 0 < st_procpid b \<and> st_procpid b \<noteq> MyProcPid pg \<and> st_backendType b = B_BACKEND)
          (List.map_filter id entries)) state"
  by (induction entries arbitrary: state)
    (simp_all add: tx_step_client List.map_filter_def split: option.split)

lemma scan_clients_counts:
  "rs_active_connections (scan_clients now limit b s) = c_add (rs_active_connections s) 1"
  "rs_active_transactions (scan_clients now limit b s)
     = (if in_transaction b then c_add (rs_active_transactions s) 1 else rs_active_transactions s)"
  "rs_idle_in_transaction (scan_clients now limit b s)
     = (if tx_idle_in b then c_add (rs_idle_in_transaction s) 1 else rs_idle_in_transaction s)"
  "rs_long_transactions (scan_clients now limit b s)
     = (if in_transaction b \<and> limit \<le> tx_age_us now b then c_add (rs_long_transactions s) 1
        else rs_long_transactions s)"
  "rs_active_query_backends (scan_clients now limit b s)
     = (if st_state b = STATE_RUNNING then c_add (rs_active_query_backends s) 1
        else rs_active_query_backends s)"
  "rs_idle_connections (scan_clients now limit b s)
     = (if st_state b = STATE_IDLE then c_add (rs_idle_connections s) 1
        else rs_idle_connections s)"
  "rs_max_connections (scan_clients now limit b s) = rs_max_connections s"
  "rs_reserved_connections (scan_clients now limit b s) = rs_reserved_connections s"
  by (auto simp: scan_clients_def tx_connection_def tx_transaction_def tx_idle_in_def Let_def)

text \<open>A counter field that one scan step bumps exactly for the entries with property \<open>P\<close>.\<close>

lemma scan_counter:
  assumes "\<And>b s. field (scan_clients now limit b s) = (if P b then c_add (field s) 1 else field s)"
    and "0 \<le> field s" and "field s + int (length bs) < 2 ^ 31"
  shows "field (fold (scan_clients now limit) bs s) = field s + count_if P bs"
  using assms(2,3)
proof (induction bs arbitrary: s)
  case Nil
  then show ?case by simp
next
  case (Cons b bs)
  then show ?case by (simp add: assms(1) c_add_id)
qed

lemma scan_frame:
  assumes "\<And>b s. field (scan_clients now limit b s) = field s"
  shows "field (fold (scan_clients now limit) bs s) = field s"
  using assms by (induction bs arbitrary: s) simp_all


text \<open>The ages: the oldest transaction, and the oldest one whose session is idle in it.\<close>

definition tx_age_sec :: "timestamp \<Rightarrow> Backend \<Rightarrow> double" where
  "tx_age_sec now b = d_div (double_of_int (tx_age_us now b)) (double_of_int USECS_PER_SEC)"

lemma scan_clients_ages:
  "rs_oldest_transaction_age_seconds (scan_clients now limit b s)
     = (if in_transaction b then max (rs_oldest_transaction_age_seconds s) (tx_age_sec now b)
        else rs_oldest_transaction_age_seconds s)"
  "rs_oldest_idle_in_transaction_age_seconds (scan_clients now limit b s)
     = (if tx_idle_in b then max (rs_oldest_idle_in_transaction_age_seconds s) (tx_age_sec now b)
        else rs_oldest_idle_in_transaction_age_seconds s)"
  by (auto simp: scan_clients_def tx_connection_def tx_transaction_def tx_idle_in_def tx_age_sec_def Let_def)

lemma scan_ages:
  "rs_oldest_transaction_age_seconds (fold (scan_clients now limit) bs s)
     = Max (insert (rs_oldest_transaction_age_seconds s) (tx_age_sec now ` set (filter in_transaction bs)))"
  "rs_oldest_idle_in_transaction_age_seconds (fold (scan_clients now limit) bs s)
     = Max (insert (rs_oldest_idle_in_transaction_age_seconds s) (tx_age_sec now ` set (filter tx_idle_in bs)))"
  by (rule fold_field_Max [where I = "\<lambda>_. True"]; simp add: scan_clients_ages)+

end
