(* ===== verification/Pgc_Replication.thy ===== *)
theory Pgc_Replication
  imports Pgc_Pressure
begin

text \<open>
  \<open>src/replication.c\<close>: the lag signals of the connected WAL senders. A lag below 0 is
  unknown. The collector can raise the error of an injected fault.
\<close>

definition lag_offset_to_seconds :: "int \<Rightarrow> double" where
  "lag_offset_to_seconds lag =
     (if lag < 0 then - 1 else d_div (double_of_int lag) (double_of_int USECS_PER_SEC))"

definition bump_max :: "double \<Rightarrow> double \<Rightarrow> double" where
  "bump_max dst v = (if v < 0 then dst else if dst < 0 \<or> v > dst then v else dst)"

record lag_scan =
  ls_replicas :: int
  ls_write :: double
  ls_flush :: double
  ls_replay :: double
  ls_reply :: double

definition walsnd_step :: "timestamp \<Rightarrow> WalSnd \<Rightarrow> lag_scan \<Rightarrow> lag_scan" where
  "walsnd_step now w s =
     (if ws_pid w = 0 then s
      else (let s = s\<lparr>ls_replicas := c_add (ls_replicas s) 1,
                      ls_write := bump_max (ls_write s) (lag_offset_to_seconds (writeLag w)),
                      ls_flush := bump_max (ls_flush s) (lag_offset_to_seconds (flushLag w)),
                      ls_replay := bump_max (ls_replay s) (lag_offset_to_seconds (applyLag w))\<rparr>
            in if replyTime w > 0
               then (let reply_sec = d_div (double_of_int (wrap64 (now - replyTime w)))
                                           (double_of_int USECS_PER_SEC);
                         reply_sec = (if reply_sec < 0 then 0 else reply_sec)
                     in if reply_sec > ls_reply s then s\<lparr>ls_reply := reply_sec\<rparr> else s)
               else s))"

definition lag_scan_init :: lag_scan where
  "lag_scan_init = \<lparr>ls_replicas = 0, ls_write = - 1, ls_flush = - 1, ls_replay = - 1, ls_reply = 0\<rparr>"

definition effective_lag :: "lag_scan \<Rightarrow> double" where
  "effective_lag s =
     (let effective = bump_max (bump_max (bump_max (- 1) (ls_write s)) (ls_flush s)) (ls_replay s);
          effective = (if effective < 0 then ls_reply s
                       else if ls_reply s > effective then ls_reply s
                       else effective)
      in if effective < 0 then 0 else effective)"

definition replication_health_of :: "int \<Rightarrow> int \<Rightarrow> int \<Rightarrow> double \<Rightarrow> PgCircuitReplicationHealth" where
  "replication_health_of replicas lag_warn lag_crit effective =
     (if replicas \<le> 0 then PGC_REPL_NONE
      else if lag_crit > 0 \<and> effective \<ge> double_of_int lag_crit then PGC_REPL_SEVERE
      else if lag_warn > 0 \<and> effective \<ge> double_of_int lag_warn then PGC_REPL_LAGGING
      else PGC_REPL_HEALTHY)"

definition replication_reset :: "PgCircuitRuntimeState \<Rightarrow> PgCircuitRuntimeState" where
  "replication_reset state =
     state\<lparr>rs_replica_count := 0, rs_max_replication_lag_seconds := 0,
           rs_max_write_lag_seconds := - 1, rs_max_flush_lag_seconds := - 1,
           rs_max_replay_lag_seconds := - 1, rs_max_reply_lag_seconds := 0,
           rs_replication_health := PGC_REPL_NONE\<rparr>"

definition replication_fill ::
    "config \<Rightarrow> lag_scan \<Rightarrow> PgCircuitRuntimeState \<Rightarrow> PgCircuitRuntimeState" where
  "replication_fill cfg s state =
     (let effective = effective_lag s
      in state\<lparr>rs_replica_count := ls_replicas s,
               rs_max_write_lag_seconds := ls_write s,
               rs_max_flush_lag_seconds := ls_flush s,
               rs_max_replay_lag_seconds := ls_replay s,
               rs_max_reply_lag_seconds := ls_reply s,
               rs_max_replication_lag_seconds := effective,
               rs_replication_health :=
                 replication_health_of (ls_replicas s) (pg_circuit_effective_lag_warn_seconds cfg)
                   (pg_circuit_effective_lag_critical_seconds cfg) effective\<rparr>)"

definition pg_circuit_collect_replication_signals ::
    "pg_server \<Rightarrow> config \<Rightarrow> PgCircuitRuntimeState \<Rightarrow> report + PgCircuitRuntimeState" where
  "pg_circuit_collect_replication_signals pg cfg state =
     (let state = replication_reset state
      in if pg_circuit_fault_is (pg_strcaseeq pg) cfg ''replication''
         then Inl (elog ERROR ''injected replication-stat failure'')
         else (case WalSndCtl pg of
                 None \<Rightarrow> Inr state
               | Some walsnds \<Rightarrow>
                   (if max_wal_senders pg \<le> 0 then Inr state
                    else Inr (replication_fill cfg
                           (fold (walsnd_step (now_replication pg))
                              (map walsnds [0..<max_wal_senders pg]) lag_scan_init)
                           state))))"


section \<open>The effective lag\<close>

lemma bump_max_nonneg: "0 \<le> v \<Longrightarrow> bump_max d v = max d v"
  by (auto simp: bump_max_def)

lemma bump_max_neg: "v < 0 \<Longrightarrow> bump_max d v = d"
  by (simp add: bump_max_def)

lemma bump_max_eq: "- 1 \<le> d \<Longrightarrow> d = - 1 \<or> 0 \<le> d \<Longrightarrow> v = - 1 \<or> 0 \<le> v \<Longrightarrow> bump_max d v = max d v"
  by (auto simp: bump_max_def)

text \<open>A scan value is unknown (-1) or a lag.\<close>

definition lag_value :: "double \<Rightarrow> bool" where
  "lag_value d \<longleftrightarrow> d = - 1 \<or> 0 \<le> d"

definition lag_scan_ok :: "lag_scan \<Rightarrow> bool" where
  "lag_scan_ok s \<longleftrightarrow> lag_value (ls_write s) \<and> lag_value (ls_flush s) \<and> lag_value (ls_replay s)
     \<and> 0 \<le> ls_reply s"

lemma lag_value_max: "lag_value a \<Longrightarrow> lag_value b \<Longrightarrow> lag_value (max a b)"
  by (auto simp: lag_value_def max_def)

lemma lag_value_bump: "lag_value a \<Longrightarrow> lag_value b \<Longrightarrow> bump_max a b = max a b"
  by (auto simp: lag_value_def bump_max_def)

lemma lag_value_offset: "lag_value (lag_offset_to_seconds l)"
  by (simp add: lag_value_def lag_offset_to_seconds_def USECS_PER_SEC_def double_of_int_exact
      double_of_int_sign d_div_nonneg)

lemma walsnd_step_ok: "lag_scan_ok s \<Longrightarrow> lag_scan_ok (walsnd_step now w s)"
  by (auto simp: lag_scan_ok_def walsnd_step_def Let_def lag_value_bump lag_value_max
      lag_value_offset)

lemma lag_scan_fold_ok: "lag_scan_ok s \<Longrightarrow> lag_scan_ok (fold (walsnd_step now) ws s)"
  by (induction ws arbitrary: s) (auto simp: walsnd_step_ok)

lemma lag_scan_init_ok: "lag_scan_ok lag_scan_init"
  by (simp add: lag_scan_ok_def lag_scan_init_def lag_value_def)

lemma effective_lag_max:
  assumes "lag_scan_ok s"
  shows "effective_lag s = max (max (max (ls_write s) (ls_flush s)) (ls_replay s)) (ls_reply s)"
proof -
  have "bump_max (bump_max (bump_max (- 1) (ls_write s)) (ls_flush s)) (ls_replay s)
      = max (max (max (- 1) (ls_write s)) (ls_flush s)) (ls_replay s)"
  proof -
    have "lag_value (- 1)" by (simp add: lag_value_def)
    with assms show ?thesis by (simp add: lag_scan_ok_def lag_value_bump lag_value_max)
  qed
  then show ?thesis
    using assms by (auto simp: effective_lag_def lag_scan_ok_def lag_value_def Let_def max_def)
qed

lemma effective_lag_nonneg: "0 \<le> effective_lag s"
  by (simp add: effective_lag_def Let_def)

text \<open>The health shown and the pressure scored never disagree.\<close>

lemma health_score:
  assumes "0 < replicas"
  shows "pg_circuit_pressure_score_replication lag w c =
     (case replication_health_of replicas w c lag of
        PGC_REPL_SEVERE \<Rightarrow> 35 | PGC_REPL_LAGGING \<Rightarrow> 18 | _ \<Rightarrow> 0)"
proof -
  have pos: "0 < lag" if "0 < k" and "double_of_int k \<le> lag" for k
  proof -
    have "double_of_int 1 \<le> double_of_int k" using that by (intro double_of_int_mono) simp
    moreover have "double_of_int 1 = 1" by (simp add: double_of_int_exact)
    ultimately show ?thesis using that by linarith
  qed
  show ?thesis
    using assms pos [of c] pos [of w]
    by (auto simp: pg_circuit_pressure_score_replication_def replication_health_of_def)
qed


section \<open>What the scan computes\<close>

definition connected_senders :: "pg_server \<Rightarrow> WalSnd list" where
  "connected_senders pg =
     (case WalSndCtl pg of
        None \<Rightarrow> []
      | Some walsnds \<Rightarrow> filter (\<lambda>w. ws_pid w \<noteq> 0) (map walsnds [0..<max_wal_senders pg]))"

text \<open>The age of the last reply; a sender that never replied counts 0.\<close>

definition reply_age :: "timestamp \<Rightarrow> WalSnd \<Rightarrow> double" where
  "reply_age now w =
     (if 0 < replyTime w
      then max 0 (d_div (double_of_int (wrap64 (now - replyTime w))) (double_of_int USECS_PER_SEC))
      else 0)"

lemma walsnd_step_fields:
  assumes "lag_scan_ok s"
  shows
    "ls_write (walsnd_step now w s) =
       (if ws_pid w \<noteq> 0 then max (ls_write s) (lag_offset_to_seconds (writeLag w)) else ls_write s)"
    "ls_flush (walsnd_step now w s) =
       (if ws_pid w \<noteq> 0 then max (ls_flush s) (lag_offset_to_seconds (flushLag w)) else ls_flush s)"
    "ls_replay (walsnd_step now w s) =
       (if ws_pid w \<noteq> 0 then max (ls_replay s) (lag_offset_to_seconds (applyLag w)) else ls_replay s)"
    "ls_reply (walsnd_step now w s) =
       (if ws_pid w \<noteq> 0 then max (ls_reply s) (reply_age now w) else ls_reply s)"
    "ls_replicas (walsnd_step now w s) =
       (if ws_pid w \<noteq> 0 then c_add (ls_replicas s) 1 else ls_replicas s)"
  using assms
  by (auto simp: walsnd_step_def Let_def lag_scan_ok_def lag_value_bump lag_value_offset reply_age_def)

lemma lag_scan_maxima:
  assumes "lag_scan_ok s"
  shows
    "ls_write (fold (walsnd_step now) ws s)
       = Max (insert (ls_write s) ((\<lambda>w. lag_offset_to_seconds (writeLag w)) ` set (filter (\<lambda>w. ws_pid w \<noteq> 0) ws)))"
    "ls_flush (fold (walsnd_step now) ws s)
       = Max (insert (ls_flush s) ((\<lambda>w. lag_offset_to_seconds (flushLag w)) ` set (filter (\<lambda>w. ws_pid w \<noteq> 0) ws)))"
    "ls_replay (fold (walsnd_step now) ws s)
       = Max (insert (ls_replay s) ((\<lambda>w. lag_offset_to_seconds (applyLag w)) ` set (filter (\<lambda>w. ws_pid w \<noteq> 0) ws)))"
    "ls_reply (fold (walsnd_step now) ws s)
       = Max (insert (ls_reply s) (reply_age now ` set (filter (\<lambda>w. ws_pid w \<noteq> 0) ws)))"
  by (rule fold_field_Max [where I = lag_scan_ok, OF _ assms];
      intro conjI walsnd_step_ok walsnd_step_fields; assumption)+

lemma lag_scan_replicas:
  assumes "0 \<le> ls_replicas s" and "ls_replicas s + int (length ws) < 2 ^ 31"
  shows "ls_replicas (fold (walsnd_step now) ws s)
       = ls_replicas s + int (length (filter (\<lambda>w. ws_pid w \<noteq> 0) ws))"
  using assms
proof (induction ws arbitrary: s)
  case Nil
  then show ?case by simp
next
  case (Cons w ws)
  have "ls_replicas (walsnd_step now w s) = (if ws_pid w \<noteq> 0 then ls_replicas s + 1 else ls_replicas s)"
    using Cons.prems by (simp add: walsnd_step_def Let_def c_add_id)
  with Cons show ?case by simp
qed

end
