(* ===== verification/Pgc_Events.thy ===== *)
theory Pgc_Events
  imports Pgc_Server
begin

text \<open>
  The structures of \<open>include/event.h\<close>, \<open>policy.h\<close> and \<open>shmem.h\<close>: a risk event, the result
  of the policy stub, one slot of the shared ring, the WAL sample cache and the shared state.
  Fixed \<open>char[]\<close> fields are strings shorter than their size.
\<close>

record PgCircuitRiskEvent =
  re_timestamp :: timestamp
  re_backend_pid :: int
  re_database_oid :: oid
  re_user_oid :: oid
  re_primary_rule :: string
  re_risk_score :: int
  re_decision :: PgCircuitDecision
  re_base_decision :: PgCircuitDecision
  re_runtime_mode :: PgCircuitSafetyMode
  re_relation_oid :: oid
  re_operation :: PgCircuitQueryKind

record PgCircuitPolicyResult =
  pr_matched :: bool
  pr_exception_applied :: bool
  pr_audit_only :: bool
  pr_outside_maintenance_window :: bool
  pr_policy_id :: int
  pr_policy_rule_id :: int
  pr_exception_id :: int
  pr_priority :: int
  pr_base_decision :: PgCircuitDecision
  pr_final_decision :: PgCircuitDecision
  pr_action :: PgCircuitPolicyAction
  pr_policy_name :: string
  pr_matched_rule :: string
  pr_reason :: string

definition PGC_RULE_IDS_MAX :: nat where
  "PGC_RULE_IDS_MAX = 64"

record PgCircuitSharedEvent =
  se_timestamp :: timestamp
  se_event_id :: int
  se_decision_id :: int
  se_backend_pid :: int
  se_database_oid :: oid
  se_user_oid :: oid
  se_relation_oid :: oid
  se_decision :: int
  se_base_decision :: int
  se_runtime_mode :: int
  se_operation :: int
  se_risk_score :: int
  se_primary_rule :: string
  se_rule_ids :: string
  se_relation_name :: string
  se_database_name :: string
  se_user_name :: string
  se_fingerprint :: string

record PgCircuitWalCache =
  wal_valid :: bool
  wal_bytes :: int
  wal_sample_time :: timestamp
  wal_bytes_per_sec :: double
  wal_pressure_level :: int

text \<open>\<open>ss_lock\<close> says whether the lock pointer is set; the ring lives in \<open>ss_events\<close>.\<close>

record PgCircuitSharedState =
  ss_magic :: int
  ss_version :: int
  ss_lock :: bool
  ss_capacity :: int
  ss_head :: int
  ss_count :: int
  ss_wal :: PgCircuitWalCache
  ss_next_event_id :: int
  ss_next_decision_id :: int
  ss_events :: "PgCircuitSharedEvent list"

definition zero_event :: PgCircuitSharedEvent where
  "zero_event =
     \<lparr>se_timestamp = 0, se_event_id = 0, se_decision_id = 0, se_backend_pid = 0,
      se_database_oid = 0, se_user_oid = 0, se_relation_oid = 0, se_decision = 0,
      se_base_decision = 0, se_runtime_mode = 0, se_operation = 0, se_risk_score = 0,
      se_primary_rule = '''', se_rule_ids = '''', se_relation_name = '''',
      se_database_name = '''', se_user_name = '''', se_fingerprint = ''''\<rparr>"

definition zero_wal :: PgCircuitWalCache where
  "zero_wal =
     \<lparr>wal_valid = False, wal_bytes = 0, wal_sample_time = 0, wal_bytes_per_sec = 0,
      wal_pressure_level = 0\<rparr>"

end
