(* ===== verification/Pgc_Shmem.thy ===== *)
theory Pgc_Shmem
  imports Pgc_Events Pgc_Config Pgc_Reporting
begin

text \<open>
  \<open>src/shmem.c\<close>: the shared event ring and the WAL rate cache. A call that takes the
  exclusive lock is one atomic step on the shared state. \<open>None\<close> is the NULL
  \<open>pg_circuit_shared\<close> of a server that did not preload the library or attached to a segment
  of another layout.
\<close>


section \<open>Start-up\<close>

text \<open>
  \<open>hdr\<close> and \<open>evsz\<close> are \<open>offsetof (PgCircuitSharedState, events)\<close> and
  \<open>sizeof (PgCircuitSharedEvent)\<close>; \<open>existing\<close> is the content of the segment
  \<open>ShmemInitStruct\<close> found, if it found one.
\<close>

definition event_capacity :: "config \<Rightarrow> int" where
  "event_capacity cfg =
     (let cap = pg_circuit_event_history_size cfg in if cap < 1 then 1 else cap)"

definition pg_circuit_shared_memsize :: "nat \<Rightarrow> nat \<Rightarrow> config \<Rightarrow> nat" where
  "pg_circuit_shared_memsize hdr evsz cfg = hdr + nat (event_capacity cfg) * evsz"

definition shmem_fresh :: "nat \<Rightarrow> nat \<Rightarrow> config \<Rightarrow> PgCircuitSharedState" where
  "shmem_fresh hdr evsz cfg =
     \<lparr>ss_magic = PG_CIRCUIT_SHMEM_MAGIC,
      ss_version = PG_CIRCUIT_SHMEM_VERSION,
      ss_lock = True,
      ss_capacity = event_capacity cfg,
      ss_head = 0,
      ss_count = 0,
      ss_wal = zero_wal,
      ss_next_event_id = 0,
      ss_next_decision_id = 0,
      ss_events = replicate ((pg_circuit_shared_memsize hdr evsz cfg - hdr) div evsz) zero_event\<rparr>"

definition version_mismatch_msg :: "PgCircuitSharedState \<Rightarrow> string" where
  "version_mismatch_msg st =
     ''pg_circuit: shared memory version mismatch (got magic='' @ show_int (ss_magic st)
     @ '' ver='' @ show_int (ss_version st) @ '', want '' @ show_int PG_CIRCUIT_SHMEM_MAGIC
     @ ''/'' @ show_int PG_CIRCUIT_SHMEM_VERSION
     @ ''); event history disabled until restart with matching module''"

text \<open>
  The start-up hook of another module that this one replaced runs first. What it makes of the
  segment and reports is \<open>call\<close> of that hook.
\<close>

datatype shmem_hook = PgCircuitShmemHook | ForeignShmemHook nat

type_synonym startup_call =
  "shmem_hook \<Rightarrow> PgCircuitSharedState option \<Rightarrow> PgCircuitSharedState option \<times> report list"

definition call_prev_startup ::
    "shmem_hook option \<Rightarrow> startup_call \<Rightarrow> PgCircuitSharedState option
     \<Rightarrow> PgCircuitSharedState option \<times> report list" where
  "call_prev_startup prev call existing =
     (case prev of Some h \<Rightarrow> call h existing | None \<Rightarrow> (existing, []))"

definition pg_circuit_shmem_startup ::
    "nat \<Rightarrow> nat \<Rightarrow> config \<Rightarrow> shmem_hook option \<Rightarrow> startup_call \<Rightarrow> PgCircuitSharedState option
     \<Rightarrow> PgCircuitSharedState option \<times> report list" where
  "pg_circuit_shmem_startup hdr evsz cfg prev call existing =
     (case call_prev_startup prev call existing of
        (existing, before) \<Rightarrow>
          (case existing of
             None \<Rightarrow> (Some (shmem_fresh hdr evsz cfg), before)
           | Some st \<Rightarrow>
               (if ss_magic st \<noteq> PG_CIRCUIT_SHMEM_MAGIC \<or> ss_version st \<noteq> PG_CIRCUIT_SHMEM_VERSION
                then (None, before @ [elog LOG (version_mismatch_msg st)])
                else if \<not> ss_lock st then (Some (st\<lparr>ss_lock := True\<rparr>), before)
                else (Some st, before))))"


section \<open>Recording an event\<close>

definition fingerprint_op :: "pg_server \<Rightarrow> PgCircuitQueryKind \<Rightarrow> string option \<Rightarrow> string" where
  "fingerprint_op pg kind relation_name =
     (let src = snprintf 128
                  (pg_circuit_query_kind_name (PgCircuitQueryKind_code kind) @ ''|''
                   @ (case relation_name of Some r \<Rightarrow> r | None \<Rightarrow> ''''))
      in case pg_md5_hash pg src of Some h \<Rightarrow> h | None \<Rightarrow> '''')"

definition fill_slot ::
    "PgCircuitRiskEvent \<Rightarrow> int \<Rightarrow> int \<Rightarrow> string option \<Rightarrow> string option \<Rightarrow> string option
     \<Rightarrow> string option \<Rightarrow> string \<Rightarrow> PgCircuitSharedEvent" where
  "fill_slot event event_id decision_id rule_ids relation_name database_name user_name fingerprint =
     \<lparr>se_timestamp = re_timestamp event,
      se_event_id = event_id,
      se_decision_id = decision_id,
      se_backend_pid = re_backend_pid event,
      se_database_oid = re_database_oid event,
      se_user_oid = re_user_oid event,
      se_relation_oid = re_relation_oid event,
      se_decision = wrap16 (PgCircuitDecision_code (re_decision event)),
      se_base_decision = wrap16 (PgCircuitDecision_code (re_base_decision event)),
      se_runtime_mode = wrap16 (PgCircuitSafetyMode_code (re_runtime_mode event)),
      se_operation = wrap16 (PgCircuitQueryKind_code (re_operation event)),
      se_risk_score = re_risk_score event,
      se_primary_rule = strlcpy (re_primary_rule event) 16,
      se_rule_ids =
        (case rule_ids of
           Some r \<Rightarrow> strlcpy r PGC_RULE_IDS_MAX
         | None \<Rightarrow> strlcpy (re_primary_rule event) PGC_RULE_IDS_MAX),
      se_relation_name = (case relation_name of Some r \<Rightarrow> strlcpy r NAMEDATALEN | None \<Rightarrow> ''''),
      se_database_name = (case database_name of Some r \<Rightarrow> strlcpy r NAMEDATALEN | None \<Rightarrow> ''''),
      se_user_name = (case user_name of Some r \<Rightarrow> strlcpy r NAMEDATALEN | None \<Rightarrow> ''''),
      se_fingerprint = strlcpy fingerprint 33\<rparr>"

definition ring_store :: "PgCircuitSharedEvent \<Rightarrow> PgCircuitSharedState \<Rightarrow> PgCircuitSharedState" where
  "ring_store slot st =
     st\<lparr>ss_events := (ss_events st)[nat (ss_head st) := slot],
        ss_head := (ss_head st + 1) mod ss_capacity st,
        ss_count := (if ss_count st < ss_capacity st then ss_count st + 1 else ss_count st)\<rparr>"

definition pg_circuit_event_record ::
    "pg_server \<Rightarrow> config \<Rightarrow> PgCircuitRiskEvent option \<Rightarrow> string option \<Rightarrow> string option
     \<Rightarrow> string option \<Rightarrow> string option \<Rightarrow> PgCircuitPolicyResult option
     \<Rightarrow> PgCircuitSharedState option \<Rightarrow> PgCircuitSharedState option" where
  "pg_circuit_event_record pg cfg event rule_ids relation_name database_name user_name policy shared =
     (case (shared, event) of
        (Some st, Some ev) \<Rightarrow>
          (if pg_circuit_fault_is (pg_strcaseeq pg) cfg ''event_full'' then shared
           else if re_decision ev = PGC_DECISION_ALLOW
                   \<and> \<not> (case policy of Some p \<Rightarrow> pr_audit_only p | None \<Rightarrow> False)
           then shared
           else (let fingerprint = fingerprint_op pg (re_operation ev) relation_name
                 in if ss_capacity st < 1 then shared
                    else (let event_id = wrap64 (ss_next_event_id st + 1);
                              decision_id = wrap64 (ss_next_decision_id st + 1);
                              st1 = st\<lparr>ss_next_event_id := event_id,
                                       ss_next_decision_id := decision_id\<rparr>
                          in Some (ring_store
                               (fill_slot ev event_id decision_id rule_ids relation_name
                                  database_name user_name fingerprint) st1))))
      | _ \<Rightarrow> shared)"


section \<open>Reading the history\<close>

text \<open>
  The inner loop adds the capacity until the index is non-negative; with a capacity below 1
  it would not return, so its result is optional.
\<close>

partial_function (option) ring_index :: "int \<Rightarrow> int \<Rightarrow> int option" where
  "ring_index capacity idx =
     (if idx < 0 then ring_index capacity (idx + capacity) else Some idx)"

definition pg_circuit_event_snapshot ::
    "PgCircuitSharedState option \<Rightarrow> bool \<Rightarrow> int \<Rightarrow> PgCircuitSharedEvent list option" where
  "pg_circuit_event_snapshot shared out_present max_out =
     (case shared of
        None \<Rightarrow> Some []
      | Some st \<Rightarrow>
          (if \<not> out_present \<or> max_out \<le> 0 then Some []
           else (let n = min (ss_count st) max_out
                 in those (map (\<lambda>i. map_option (\<lambda>idx. ss_events st ! nat idx)
                                     (ring_index (ss_capacity st) (ss_head st - 1 - int i)))
                           [0..<nat n]))))"


section \<open>The WAL rate cache\<close>

definition wal_classify :: "config \<Rightarrow> double \<Rightarrow> int" where
  "wal_classify cfg bps =
     (if bps \<ge> double_of_int (pg_circuit_wal_pressure_high_bps cfg) then 3
      else if bps \<ge> double_of_int (pg_circuit_wal_pressure_elevated_bps cfg) then 2
      else if bps > 0 then 1
      else 0)"

definition pg_circuit_wal_sample_update ::
    "config \<Rightarrow> int \<Rightarrow> timestamp \<Rightarrow> PgCircuitSharedState option
     \<Rightarrow> (double \<times> int) \<times> PgCircuitSharedState option" where
  "pg_circuit_wal_sample_update cfg bytes now shared =
     (case shared of
        None \<Rightarrow> ((0, 0), None)
      | Some st \<Rightarrow>
          (let w = ss_wal st in
           if wal_valid w
           then (let usec = wrap64 (now - wal_sample_time w)
                 in if usec \<ge> 1000000
                    then (let secs = d_div (double_of_int usec) 1000000;
                              prev = wal_bytes w;
                              bps = (if bytes \<ge> prev \<and> secs > 0
                                     then d_div (double_of_int (bytes - prev)) secs else 0);
                              level = wal_classify cfg bps
                          in ((bps, level),
                              Some (st\<lparr>ss_wal := w\<lparr>wal_bytes := bytes, wal_sample_time := now,
                                                   wal_bytes_per_sec := bps,
                                                   wal_pressure_level := level\<rparr>\<rparr>)))
                    else ((wal_bytes_per_sec w, wal_pressure_level w), shared))
           else ((0, 0),
                 Some (st\<lparr>ss_wal := \<lparr>wal_valid = True, wal_bytes = bytes, wal_sample_time = now,
                                     wal_bytes_per_sec = 0, wal_pressure_level = 0\<rparr>\<rparr>))))"

definition pg_circuit_wal_cache_read :: "PgCircuitSharedState option \<Rightarrow> double \<times> int" where
  "pg_circuit_wal_cache_read shared =
     (case shared of
        None \<Rightarrow> (0, 0)
      | Some st \<Rightarrow>
          (if wal_valid (ss_wal st)
           then (wal_bytes_per_sec (ss_wal st), wal_pressure_level (ss_wal st))
           else (0, 0)))"


section \<open>The ring invariant\<close>

definition ring_ok :: "PgCircuitSharedState \<Rightarrow> bool" where
  "ring_ok st \<longleftrightarrow>
     1 \<le> ss_capacity st \<and> int (length (ss_events st)) = ss_capacity st
     \<and> 0 \<le> ss_head st \<and> ss_head st < ss_capacity st
     \<and> 0 \<le> ss_count st \<and> ss_count st \<le> ss_capacity st"

definition ring_at :: "PgCircuitSharedState \<Rightarrow> nat \<Rightarrow> PgCircuitSharedEvent" where
  "ring_at st i = ss_events st ! nat ((ss_head st - 1 - int i) mod ss_capacity st)"

text \<open>The abstraction: the retained events, newest first.\<close>

definition ring_history :: "PgCircuitSharedState \<Rightarrow> PgCircuitSharedEvent list" where
  "ring_history st = map (ring_at st) [0..<nat (ss_count st)]"

definition ring_capacity :: "PgCircuitSharedState \<Rightarrow> nat" where
  "ring_capacity st = nat (ss_capacity st)"

lemma ring_okD:
  assumes "ring_ok st"
  shows "1 \<le> ss_capacity st" "int (length (ss_events st)) = ss_capacity st"
    "0 \<le> ss_head st" "ss_head st < ss_capacity st"
    "0 \<le> ss_count st" "ss_count st \<le> ss_capacity st"
  using assms by (auto simp: ring_ok_def)

lemma event_capacity_pos: "1 \<le> event_capacity cfg"
  by (simp add: event_capacity_def Let_def)

lemma shmem_fresh_ok: "0 < evsz \<Longrightarrow> ring_ok (shmem_fresh hdr evsz cfg)"
  using event_capacity_pos [of cfg]
  by (simp add: ring_ok_def shmem_fresh_def pg_circuit_shared_memsize_def)

lemma shmem_fresh_history [simp]: "ring_history (shmem_fresh hdr evsz cfg) = []"
  by (simp add: ring_history_def shmem_fresh_def)

lemma ring_store_ok: "ring_ok st \<Longrightarrow> ring_ok (ring_store slot st)"
  by (auto simp: ring_ok_def ring_store_def)

lemma ring_store_capacity [simp]:
  "ss_capacity (ring_store slot st) = ss_capacity st"
  "ring_capacity (ring_store slot st) = ring_capacity st"
  by (simp_all add: ring_store_def ring_capacity_def)

lemma ring_store_frame [simp]:
  "ss_wal (ring_store slot st) = ss_wal st"
  "ss_next_event_id (ring_store slot st) = ss_next_event_id st"
  "ss_next_decision_id (ring_store slot st) = ss_next_decision_id st"
  by (simp_all add: ring_store_def)

lemma ring_capacity_frame [simp]:
  "ring_capacity (st\<lparr>ss_next_event_id := a, ss_next_decision_id := b\<rparr>) = ring_capacity st"
  "ring_capacity (st\<lparr>ss_wal := w\<rparr>) = ring_capacity st"
  by (simp_all add: ring_capacity_def)

lemma ring_history_ids [simp]:
  "ring_history (st\<lparr>ss_next_event_id := a, ss_next_decision_id := b\<rparr>) = ring_history st"
  "ring_ok (st\<lparr>ss_next_event_id := a, ss_next_decision_id := b\<rparr>) = ring_ok st"
  "ring_history (st\<lparr>ss_wal := w\<rparr>) = ring_history st"
  "ring_ok (st\<lparr>ss_wal := w\<rparr>) = ring_ok st"
  by (simp_all add: ring_history_def ring_at_def ring_ok_def)

lemma length_ring_history: "length (ring_history st) = nat (ss_count st)"
  by (simp add: ring_history_def)

lemma ring_history_bounded: "ring_ok st \<Longrightarrow> length (ring_history st) \<le> ring_capacity st"
  by (auto simp: length_ring_history ring_capacity_def ring_ok_def intro: nat_mono)

lemma ring_at_store_0:
  assumes "ring_ok st"
  shows "ring_at (ring_store slot st) 0 = slot"
proof -
  note r = ring_okD [OF assms]
  have "((ss_head st + 1) mod ss_capacity st - 1) mod ss_capacity st = ss_head st"
    using r by (simp add: mod_diff_left_eq)
  then show ?thesis
    using r by (simp add: ring_at_def ring_store_def nat_less_iff)
qed

lemma ring_at_store_Suc:
  assumes "ring_ok st" and "int (Suc i) < ss_capacity st"
  shows "ring_at (ring_store slot st) (Suc i) = ring_at st i"
proof -
  note r = ring_okD [OF assms(1)]
  define C where "C = ss_capacity st"
  define h where "h = ss_head st"
  have C: "0 < C" "0 \<le> h" "h < C" "1 + int i < C"
    using r assms(2) by (auto simp: C_def h_def)
  have "((h + 1) mod C - 1 - int (Suc i)) mod C = ((h + 1) mod C - (1 + int (Suc i))) mod C"
    by (simp add: algebra_simps)
  also have "\<dots> = (h + 1 - (1 + int (Suc i))) mod C"
    by (rule mod_diff_left_eq)
  also have "\<dots> = (h - 1 - int i) mod C"
    by (simp add: algebra_simps)
  finally have idx: "((h + 1) mod C - 1 - int (Suc i)) mod C = (h - 1 - int i) mod C" .
  have "(h - 1 - int i) mod C \<noteq> h"
  proof
    assume "(h - 1 - int i) mod C = h"
    then have "(h - 1 - int i) mod C = h mod C" using C by simp
    then have "C dvd (h - 1 - int i) - h" by (simp add: mod_eq_dvd_iff)
    then have "C dvd - (1 + int i)" by (simp add: algebra_simps)
    then have "C dvd 1 + int i" by (simp only: dvd_minus_iff)
    then show False using C zdvd_imp_le [of C "1 + int i"] by simp
  qed
  moreover have "0 \<le> (h - 1 - int i) mod C" using C by simp
  ultimately have "nat ((h - 1 - int i) mod C) \<noteq> nat h" using C by (simp add: eq_nat_nat_iff)
  then have "(ss_events st)[nat h := slot] ! nat (((h + 1) mod C - 1 - int (Suc i)) mod C)
      = ss_events st ! nat ((h - 1 - int i) mod C)"
    unfolding idx by (intro nth_list_update_neq) simp
  then show ?thesis
    unfolding ring_at_def ring_store_def by (simp add: C_def h_def)
qed

lemma ring_history_store:
  assumes "ring_ok st"
  shows "ring_history (ring_store slot st) = take (ring_capacity st) (slot # ring_history st)"
proof (rule nth_equalityI)
  note r = ring_okD [OF assms]
  have cnt: "ss_count (ring_store slot st)
      = (if ss_count st < ss_capacity st then ss_count st + 1 else ss_count st)"
    by (simp add: ring_store_def)
  show len: "length (ring_history (ring_store slot st))
      = length (take (ring_capacity st) (slot # ring_history st))"
    using r by (auto simp: length_ring_history cnt ring_capacity_def min_def)
  fix i
  assume "i < length (ring_history (ring_store slot st))"
  then have i: "i < nat (ss_count (ring_store slot st))"
    by (simp add: length_ring_history)
  have ic: "int i < ss_capacity st" and icnt: "0 < i \<Longrightarrow> i - 1 < nat (ss_count st)"
    using i r by (auto simp: cnt split: if_splits)
  show "ring_history (ring_store slot st) ! i = take (ring_capacity st) (slot # ring_history st) ! i"
  proof (cases i)
    case 0
    then show ?thesis
      using i r assms by (simp add: ring_history_def ring_at_store_0 ring_capacity_def)
  next
    case (Suc j)
    then show ?thesis
      using i ic icnt assms
      by (simp add: ring_history_def ring_at_store_Suc ring_capacity_def nth_take)
  qed
qed


section \<open>The ring as a bounded history\<close>

text \<open>
  The contract the readers of the ring rely on: the history is a list of the newest entries
  and storing one pushes it in front and drops what exceeds the capacity.
\<close>

locale bounded_history =
  fixes hist :: "'s \<Rightarrow> 'e list" and cap :: "'s \<Rightarrow> nat" and push :: "'e \<Rightarrow> 's \<Rightarrow> 's"
    and inv :: "'s \<Rightarrow> bool"
  assumes inv_push: "inv s \<Longrightarrow> inv (push e s)"
    and cap_push: "cap (push e s) = cap s"
    and hist_push: "inv s \<Longrightarrow> hist (push e s) = take (cap s) (e # hist s)"
    and hist_bounded: "inv s \<Longrightarrow> length (hist s) \<le> cap s"
begin

lemma inv_pushes: "inv s \<Longrightarrow> inv (fold push es s)"
  by (induction es arbitrary: s) (auto simp: inv_push)

lemma cap_pushes: "cap (fold push es s) = cap s"
  by (induction es arbitrary: s) (auto simp: cap_push)

lemma hist_pushes: "inv s \<Longrightarrow> hist (fold push es s) = take (cap s) (rev es @ hist s)"
proof (induction es arbitrary: s)
  case Nil
  then show ?case by (simp add: hist_bounded)
next
  case (Cons e es)
  then have "hist (fold push es (push e s)) = take (cap s) (rev es @ take (cap s) (e # hist s))"
    by (simp add: inv_push cap_push hist_push)
  also have "\<dots> = take (cap s) (rev es @ e # hist s)"
    by (simp add: min_def)
  finally show ?case by simp
qed

lemma newest_pushed: "inv s \<Longrightarrow> 0 < cap s \<Longrightarrow> hist (push e s) \<noteq> [] \<and> hd (hist (push e s)) = e"
  by (cases "cap s") (simp_all add: hist_push)

end

interpretation ring: bounded_history ring_history ring_capacity ring_store ring_ok
  by unfold_locales
    (simp_all add: ring_store_ok ring_history_store ring_history_bounded)


section \<open>Operations on the shared state\<close>

definition event_stored :: "pg_server \<Rightarrow> config \<Rightarrow> PgCircuitRiskEvent \<Rightarrow> PgCircuitPolicyResult option \<Rightarrow> bool" where
  "event_stored pg cfg ev policy \<longleftrightarrow>
     \<not> pg_circuit_fault_is (pg_strcaseeq pg) cfg ''event_full''
     \<and> (re_decision ev \<noteq> PGC_DECISION_ALLOW
        \<or> (case policy of Some p \<Rightarrow> pr_audit_only p | None \<Rightarrow> False))"

lemma event_record_stored:
  assumes "ring_ok st" and "event_stored pg cfg ev policy"
  shows "pg_circuit_event_record pg cfg (Some ev) rids rel db usr policy (Some st)
     = Some (ring_store
         (fill_slot ev (wrap64 (ss_next_event_id st + 1)) (wrap64 (ss_next_decision_id st + 1))
            rids rel db usr (fingerprint_op pg (re_operation ev) rel))
         (st\<lparr>ss_next_event_id := wrap64 (ss_next_event_id st + 1),
             ss_next_decision_id := wrap64 (ss_next_decision_id st + 1)\<rparr>))"
  using assms ring_okD(1) [OF assms(1)]
  by (auto simp: pg_circuit_event_record_def event_stored_def Let_def)

lemma event_record_dropped:
  "\<not> event_stored pg cfg ev policy \<Longrightarrow>
   pg_circuit_event_record pg cfg (Some ev) rids rel db usr policy shared = shared"
  by (auto simp: pg_circuit_event_record_def event_stored_def Let_def split: option.split)

lemma event_record_NULL [simp]:
  "pg_circuit_event_record pg cfg ev rids rel db usr policy None = None"
  by (simp add: pg_circuit_event_record_def)

lemma event_record_no_event [simp]:
  "pg_circuit_event_record pg cfg None rids rel db usr policy shared = shared"
  by (simp add: pg_circuit_event_record_def split: option.split)

lemma wal_update_frame:
  assumes "pg_circuit_wal_sample_update cfg bytes now (Some st) = (r, Some st')"
  shows "\<exists>w. st' = st\<lparr>ss_wal := w\<rparr>"
proof -
  have "\<exists>w. st = st\<lparr>ss_wal := w\<rparr>" by (rule exI [of _ "ss_wal st"]) simp
  then show ?thesis
    using assms by (auto simp: pg_circuit_wal_sample_update_def Let_def split: if_splits)
qed

lemma wal_update_Some:
  "\<exists>st'. snd (pg_circuit_wal_sample_update cfg bytes now (Some st)) = Some st'"
  by (simp add: pg_circuit_wal_sample_update_def Let_def)

lemma wal_update_NULL [simp]: "pg_circuit_wal_sample_update cfg bytes now None = ((0, 0), None)"
  by (simp add: pg_circuit_wal_sample_update_def)

text \<open>
  The shared state of a running server: it starts fresh, and every backend may, with its own
  configuration, record an event or sample the WAL counter. \<open>n\<close> counts the stored events.
\<close>

inductive shmem_reach :: "config \<Rightarrow> nat \<Rightarrow> PgCircuitSharedState \<Rightarrow> bool" for cfg0 where
  start: "0 < evsz \<Longrightarrow> shmem_reach cfg0 0 (shmem_fresh hdr evsz cfg0)"
| stored: "shmem_reach cfg0 n st \<Longrightarrow> event_stored pg cfg ev policy \<Longrightarrow>
     pg_circuit_event_record pg cfg (Some ev) rids rel db usr policy (Some st) = Some st' \<Longrightarrow>
     shmem_reach cfg0 (Suc n) st'"
| dropped: "shmem_reach cfg0 n st \<Longrightarrow> \<not> event_stored pg cfg ev policy \<Longrightarrow>
     pg_circuit_event_record pg cfg (Some ev) rids rel db usr policy (Some st) = Some st' \<Longrightarrow>
     shmem_reach cfg0 n st'"
| sampled: "shmem_reach cfg0 n st \<Longrightarrow>
     pg_circuit_wal_sample_update cfg bytes now (Some st) = (r, Some st') \<Longrightarrow>
     shmem_reach cfg0 n st'"

inductive_cases shmem_reach_0E: "shmem_reach cfg0 0 st"

definition ids_ok :: "nat \<Rightarrow> PgCircuitSharedState \<Rightarrow> bool" where
  "ids_ok n st \<longleftrightarrow>
     ss_next_event_id st = int n \<and> ss_next_decision_id st = int n
     \<and> map se_event_id (ring_history st)
         = map (\<lambda>i. int (n - i)) [0..<min n (ring_capacity st)]"

lemma ids_ok_wal [simp]: "ids_ok n (st\<lparr>ss_wal := w\<rparr>) = ids_ok n st"
  by (simp add: ids_ok_def)

lemma fill_slot_id [simp]: "se_event_id (fill_slot ev i j rids rel db usr fp) = i"
  by (simp add: fill_slot_def)

lemma countdown_Suc:
  "map (\<lambda>i. int (Suc n - i)) [0..<Suc k] = int (Suc n) # map (\<lambda>i. int (n - i)) [0..<k]"
  by (induction k) simp_all

lemma ids_ok_store:
  assumes "ring_ok st" and "ids_ok n st" and "Suc n < 2 ^ 63"
  shows "ids_ok (Suc n) (ring_store
     (fill_slot ev (wrap64 (ss_next_event_id st + 1)) d rids rel db usr fp)
     (st\<lparr>ss_next_event_id := wrap64 (ss_next_event_id st + 1),
         ss_next_decision_id := wrap64 (ss_next_decision_id st + 1)\<rparr>))"
proof -
  have "int (Suc n) < int (2 ^ 63)"
    using assms(3) by (simp only: of_nat_less_iff)
  then have w: "wrap64 (int n + 1) = int (Suc n)"
    by (subst wrap64_id) simp_all
  have n: "ss_next_event_id st = int n" "ss_next_decision_id st = int n"
    and h: "map se_event_id (ring_history st)
        = map (\<lambda>i. int (n - i)) [0..<min n (ring_capacity st)]"
    using assms(2) by (auto simp: ids_ok_def)
  obtain c where c: "ring_capacity st = Suc c"
    using ring_okD(1) [OF assms(1)] by (cases "ring_capacity st") (auto simp: ring_capacity_def)
  have "map se_event_id (take (ring_capacity st) (fill_slot ev (int (Suc n)) d rids rel db usr fp
          # ring_history st))
      = int (Suc n) # take c (map (\<lambda>i. int (n - i)) [0..<min n (Suc c)])"
    by (simp add: c h take_map [symmetric])
  also have "\<dots> = int (Suc n) # map (\<lambda>i. int (n - i)) [0..<min n c]"
    by (simp add: take_map min_def)
  also have "\<dots> = map (\<lambda>i. int (Suc n - i)) [0..<min (Suc n) (Suc c)]"
    by (simp only: min_Suc_Suc countdown_Suc)
  finally show ?thesis
    using assms(1) by (simp add: ids_ok_def n w c ring.hist_push del: upt_Suc)
qed

lemma shmem_reach_ring:
  "shmem_reach cfg0 n st \<Longrightarrow> ring_ok st \<and> ss_capacity st = event_capacity cfg0"
proof (induction rule: shmem_reach.induct)
  case (start evsz hdr)
  then show ?case by (simp add: shmem_fresh_ok) (simp add: shmem_fresh_def)
next
  case (stored n st pg cfg ev policy rids rel db usr st')
  then show ?case by (auto simp: event_record_stored ring_store_ok)
next
  case (dropped n st pg cfg ev policy rids rel db usr st')
  then show ?case by (simp add: event_record_dropped)
next
  case (sampled n st cfg bytes now r st')
  then show ?case by (auto dest!: wal_update_frame)
qed

lemma shmem_reach_ids: "shmem_reach cfg0 n st \<Longrightarrow> n < 2 ^ 63 \<Longrightarrow> ids_ok n st"
proof (induction rule: shmem_reach.induct)
  case (start evsz hdr)
  then show ?case
    by (simp add: ids_ok_def) (simp add: shmem_fresh_def)
next
  case (stored n st pg cfg ev policy rids rel db usr st')
  then have "ring_ok st" using shmem_reach_ring by blast
  with stored show ?case by (auto simp: event_record_stored intro!: ids_ok_store)
next
  case (dropped n st pg cfg ev policy rids rel db usr st')
  then show ?case by (simp add: event_record_dropped)
next
  case (sampled n st cfg bytes now r st')
  then show ?case by (auto dest!: wal_update_frame)
qed

lemma ring_index_in_range:
  assumes "0 < capacity" and "- capacity \<le> idx" and "idx < capacity"
  shows "ring_index capacity idx = Some (idx mod capacity)"
proof (cases "idx < 0")
  case True
  then have "ring_index capacity idx = Some (idx + capacity)"
    using assms by (simp add: ring_index.simps)
  moreover have "(idx + capacity) mod capacity = idx + capacity"
    using True assms by (intro mod_pos_pos_trivial) simp_all
  ultimately show ?thesis by simp
next
  case False
  then show ?thesis using assms by (simp add: ring_index.simps)
qed

lemma those_map_Some: "(\<And>x. x \<in> set xs \<Longrightarrow> f x = Some (g x)) \<Longrightarrow> those (map f xs) = Some (map g xs)"
  by (induction xs) auto

lemma snapshot_history:
  assumes "ring_ok st" and "0 < max_out"
  shows "pg_circuit_event_snapshot (Some st) True max_out
     = Some (take (nat max_out) (ring_history st))"
proof -
  note r = ring_okD [OF assms(1)]
  have "ring_index (ss_capacity st) (ss_head st - 1 - int i)
      = Some ((ss_head st - 1 - int i) mod ss_capacity st)"
    if "i \<in> set [0..<nat (min (ss_count st) max_out)]" for i
    using that r by (intro ring_index_in_range) auto
  then have "those (map (\<lambda>i. map_option (\<lambda>idx. ss_events st ! nat idx)
        (ring_index (ss_capacity st) (ss_head st - 1 - int i))) [0..<nat (min (ss_count st) max_out)])
      = Some (map (ring_at st) [0..<nat (min (ss_count st) max_out)])"
    by (intro those_map_Some) (simp add: ring_at_def)
  also have "map (ring_at st) [0..<nat (min (ss_count st) max_out)]
      = take (nat max_out) (ring_history st)"
    using r assms(2) by (auto simp: ring_history_def take_map min_def nat_le_eq_zle)
  finally show ?thesis
    using assms(2) by (simp add: pg_circuit_event_snapshot_def Let_def)
qed

end
