(* ===== verification/Pgc_Wal.thy ===== *)
theory Pgc_Wal
  imports Pgc_Pressure Pgc_Shmem
begin

text \<open>
  \<open>src/wal.c\<close>: the WAL pressure signal. It samples the WAL byte counter through the shared
  rate cache, so it may change the shared state.
\<close>

definition wal_fill :: "double \<Rightarrow> int \<Rightarrow> PgCircuitRuntimeState \<Rightarrow> PgCircuitRuntimeState" where
  "wal_fill bps level state = state\<lparr>rs_wal_bytes_per_sec := bps, rs_wal_pressure_level := level\<rparr>"

definition pg_circuit_collect_wal_signals ::
    "pg_server \<Rightarrow> config \<Rightarrow> PgCircuitSharedState option \<Rightarrow> PgCircuitRuntimeState
     \<Rightarrow> (report + PgCircuitRuntimeState) \<times> PgCircuitSharedState option" where
  "pg_circuit_collect_wal_signals pg cfg shared state =
     (let state = wal_fill 0 PGC_WAL_LOW state
      in case pgstat_fetch_stat_wal pg of
           Inl e \<Rightarrow> (Inl e, shared)
         | Inr None \<Rightarrow> (Inr state, shared)
         | Inr (Some bytes) \<Rightarrow>
             (case pg_circuit_wal_sample_update cfg bytes (now_wal pg) shared of
                ((bps, level), shared') \<Rightarrow> (Inr (wal_fill bps level state), shared')))"


section \<open>The cache invariant\<close>

text \<open>
  The thresholds are settings of a session, the cache is shared: the cached level is the class of
  the cached rate under the thresholds of some session of \<open>C\<close>, and the rate is never negative.
\<close>

definition wal_cache_ok :: "config set \<Rightarrow> PgCircuitSharedState \<Rightarrow> bool" where
  "wal_cache_ok C st \<longleftrightarrow>
     0 \<le> wal_bytes_per_sec (ss_wal st)
     \<and> (\<exists>c \<in> C. wal_pressure_level (ss_wal st) = wal_classify c (wal_bytes_per_sec (ss_wal st)))"

lemma thresholds_positive:
  assumes "config_ok cfg"
  shows "0 < double_of_int (pg_circuit_wal_pressure_high_bps cfg)"
    and "0 < double_of_int (pg_circuit_wal_pressure_elevated_bps cfg)"
  using assms by (simp_all add: config_ok_iff double_of_int32)

lemma wal_classify_zero: "config_ok cfg \<Longrightarrow> wal_classify cfg 0 = 0"
  using thresholds_positive [of cfg] by (simp add: wal_classify_def)

lemma wal_rate_nonneg: "prev \<le> bytes \<Longrightarrow> 0 < secs \<Longrightarrow> 0 \<le> d_div (double_of_int (bytes - prev)) secs"
  by (simp add: d_div_nonneg double_of_int_sign)

lemma wal_update_ok:
  assumes "\<forall>c \<in> C. config_ok c" and "cfg \<in> C" and "wal_cache_ok C st"
    and "pg_circuit_wal_sample_update cfg bytes now (Some st) = ((bps, level), Some st')"
  shows "wal_cache_ok C st'" and "0 \<le> bps" and "\<exists>c \<in> C. level = wal_classify c bps"
    and "st' \<noteq> st \<Longrightarrow> level = wal_classify cfg bps"
proof -
  have "config_ok cfg" using assms(1,2) by blast
  note z = wal_classify_zero [OF this, symmetric]
  show "wal_cache_ok C st'" "0 \<le> bps" "\<exists>c \<in> C. level = wal_classify c bps"
    using assms(2-4) z
    by (auto simp: pg_circuit_wal_sample_update_def wal_cache_ok_def Let_def wal_rate_nonneg
        split: if_split_asm)
  show "level = wal_classify cfg bps" if "st' \<noteq> st"
    using assms(4) that z
    by (auto simp: pg_circuit_wal_sample_update_def Let_def split: if_split_asm)
qed

lemma fresh_wal_cache_ok:
  assumes "c \<in> C" and "config_ok c"
  shows "wal_cache_ok C (shmem_fresh hdr evsz cfg0)"
  using assms wal_classify_zero [OF assms(2), symmetric]
  by (auto simp: wal_cache_ok_def shmem_fresh_def zero_wal_def)

text \<open>Samples of any sessions, one after the other.\<close>

definition run_wal_samples ::
    "(config \<times> int \<times> timestamp) list \<Rightarrow> PgCircuitSharedState \<Rightarrow> PgCircuitSharedState" where
  "run_wal_samples samples st =
     fold (\<lambda>(cfg, bytes, now) st.
             case snd (pg_circuit_wal_sample_update cfg bytes now (Some st)) of
               Some st' \<Rightarrow> st' | None \<Rightarrow> st) samples st"

lemma run_wal_samples_ok:
  assumes "\<forall>c \<in> C. config_ok c" and "wal_cache_ok C st" and "fst ` set samples \<subseteq> C"
  shows "wal_cache_ok C (run_wal_samples samples st)"
  using assms(2,3)
proof (induction samples arbitrary: st)
  case Nil
  then show ?case by (simp add: run_wal_samples_def)
next
  case (Cons s samples)
  obtain cfg bytes now where s: "s = (cfg, bytes, now)" by (metis prod.exhaust)
  obtain bps level st' where u: "pg_circuit_wal_sample_update cfg bytes now (Some st) = ((bps, level), Some st')"
    using wal_update_Some by (metis prod.collapse)
  have c: "cfg \<in> C" using Cons.prems(2) by (simp add: s)
  have "wal_cache_ok C st'" by (rule wal_update_ok(1) [OF assms(1) c Cons.prems(1) u])
  moreover have "fst ` set samples \<subseteq> C" using Cons.prems(2) by simp
  ultimately show ?case
    using Cons.IH by (simp add: run_wal_samples_def s u)
qed

lemma wal_level_score:
  "pg_circuit_pressure_score_wal cfg bps
     = (if wal_classify cfg bps = 3 then 30 else if wal_classify cfg bps = 2 then 15 else 0)"
  by (simp add: pg_circuit_pressure_score_wal_def wal_classify_def)

lemma wal_classify_same:
  "pg_circuit_wal_pressure_high_bps c = pg_circuit_wal_pressure_high_bps cfg \<Longrightarrow>
   pg_circuit_wal_pressure_elevated_bps c = pg_circuit_wal_pressure_elevated_bps cfg \<Longrightarrow>
   wal_classify c bps = wal_classify cfg bps"
  by (simp add: wal_classify_def)

lemma wal_update_result:
  "\<exists>r w. pg_circuit_wal_sample_update cfg bytes now (Some st) = (r, Some (st\<lparr>ss_wal := w\<rparr>))"
proof -
  obtain r st' where u: "pg_circuit_wal_sample_update cfg bytes now (Some st) = (r, Some st')"
    using wal_update_Some by (metis prod.collapse)
  with wal_update_frame [OF u] show ?thesis by auto
qed

lemma collect_wal_shared:
  "\<exists>w. snd (pg_circuit_collect_wal_signals pg cfg (Some st) state) = Some (st\<lparr>ss_wal := w\<rparr>)"
proof (cases "\<exists>bytes. pgstat_fetch_stat_wal pg = Inr (Some bytes)")
  case True
  then obtain bytes where b: "pgstat_fetch_stat_wal pg = Inr (Some bytes)" ..
  obtain r w where "pg_circuit_wal_sample_update cfg bytes (now_wal pg) (Some st)
      = (r, Some (st\<lparr>ss_wal := w\<rparr>))"
    using wal_update_result by blast
  with b show ?thesis
    by (auto simp: pg_circuit_collect_wal_signals_def Let_def split: prod.split)
next
  case False
  then have "snd (pg_circuit_collect_wal_signals pg cfg (Some st) state) = Some (st\<lparr>ss_wal := ss_wal st\<rparr>)"
    by (auto simp: pg_circuit_collect_wal_signals_def Let_def split: sum.split option.split)
  then show ?thesis ..
qed

lemma collect_wal_NULL [simp]:
  "snd (pg_circuit_collect_wal_signals pg cfg None state) = None"
  by (simp add: pg_circuit_collect_wal_signals_def Let_def split: sum.split option.split)

end
