(* ===== verification/Pgc_Relations.thy ===== *)
theory Pgc_Relations
  imports Pgc_Server
begin

text \<open>
  \<open>src/relations.c\<close>: names, cardinality estimates and size of a relation. A value of -1
  says that the catalog or the heap gives no answer; a catalog access, the lock on the
  relation or the storage manager can raise.
\<close>

definition pg_circuit_relation_name :: "pg_server \<Rightarrow> oid \<Rightarrow> nat \<Rightarrow> report + string" where
  "pg_circuit_relation_name pg rid buflen =
     (if \<not> OidIsValid rid then Inr (strlcpy ''?'' buflen)
      else rbind (get_rel_name pg rid) (\<lambda>name.
             Inr (case name of None \<Rightarrow> strlcpy ''?'' buflen | Some n \<Rightarrow> strlcpy n buflen)))"

definition pg_circuit_relation_qualname :: "pg_server \<Rightarrow> oid \<Rightarrow> nat \<Rightarrow> report + string" where
  "pg_circuit_relation_qualname pg rid buflen =
     (if \<not> OidIsValid rid then Inr (strlcpy ''?'' buflen)
      else rbind (get_rel_namespace pg rid) (\<lambda>nspid.
           rbind (get_namespace_name pg nspid) (\<lambda>nsp.
           rbind (get_rel_name pg rid) (\<lambda>rel.
             Inr (case rel of
                    None \<Rightarrow> strlcpy ''?'' buflen
                  | Some r \<Rightarrow>
                      (case nsp of
                         Some n \<Rightarrow> snprintf buflen (n @ ''.'' @ r)
                       | None \<Rightarrow> strlcpy r buflen))))))"

definition pg_circuit_relation_estimated_tuples :: "pg_server \<Rightarrow> oid \<Rightarrow> report + double" where
  "pg_circuit_relation_estimated_tuples pg rid =
     (if \<not> OidIsValid rid then Inr (- 1)
      else rbind (try_relation_open pg rid) (\<lambda>opened.
             case opened of
               None \<Rightarrow> Inr (- 1)
             | Some rel \<Rightarrow>
                 (let tuples = reltuples rel in Inr (if tuples < 0 then - 1 else tuples))))"

definition pg_circuit_relation_physical_tuple_bound :: "pg_server \<Rightarrow> oid \<Rightarrow> report + double" where
  "pg_circuit_relation_physical_tuple_bound pg rid =
     (if \<not> OidIsValid rid then Inr (- 1)
      else rbind (try_relation_open pg rid) (\<lambda>opened.
             case opened of
               None \<Rightarrow> Inr (- 1)
             | Some rel \<Rightarrow>
                 rbind (rd_nblocks rel) (\<lambda>pages.
                   Inr (if pages = 0 then 0
                        else d_mul (double_of_int pages)
                                   (double_of_int (MaxHeapTuplesPerPage pg))))))"

definition pg_circuit_relation_table_rows_estimate :: "pg_server \<Rightarrow> oid \<Rightarrow> report + double" where
  "pg_circuit_relation_table_rows_estimate pg rid =
     rbind (pg_circuit_relation_estimated_tuples pg rid) (\<lambda>tuples.
     rbind (pg_circuit_relation_physical_tuple_bound pg rid) (\<lambda>bound.
       Inr (if tuples > 0 \<and> bound \<ge> 0 \<and> tuples > bound then bound
            else if tuples > 0 then tuples
            else if bound > 0 then bound
            else - 1)))"

definition pg_circuit_relation_size :: "pg_server \<Rightarrow> oid \<Rightarrow> report + int" where
  "pg_circuit_relation_size pg rid =
     (if \<not> OidIsValid rid then Inr (- 1)
      else rbind (try_relation_open pg rid) (\<lambda>opened.
             case opened of
               None \<Rightarrow> Inr (- 1)
             | Some rel \<Rightarrow> rbind (rd_nblocks rel) (\<lambda>pages. Inr (wrap64 (pages * BLCKSZ pg)))))"


section \<open>Well-formed servers\<close>

text \<open>
  What the server guarantees of the values read here: a block number is an unsigned 32-bit
  integer, the block size is at most 32 kB and a page holds fewer tuples than it has bytes.
\<close>

definition server_storage_ok :: "pg_server \<Rightarrow> bool" where
  "server_storage_ok pg \<longleftrightarrow>
     0 < BLCKSZ pg \<and> BLCKSZ pg \<le> 32768
     \<and> 0 < MaxHeapTuplesPerPage pg \<and> MaxHeapTuplesPerPage pg \<le> 32768
     \<and> (\<forall>rid rel pages. try_relation_open pg rid = Inr (Some rel) \<longrightarrow> rd_nblocks rel = Inr pages \<longrightarrow>
          0 \<le> pages \<and> pages < 2 ^ 32)"

lemma relation_name_length:
  "0 < n \<Longrightarrow> pg_circuit_relation_name pg rid n = Inr s \<Longrightarrow> length s < n"
  by (auto simp: pg_circuit_relation_name_def rbind_eq_Inr cstr split: if_splits option.splits)

lemma relation_qualname_length:
  assumes "0 < n" and "pg_circuit_relation_qualname pg rid n = Inr s"
  shows "length s < n"
proof -
  have "length (case rel of None \<Rightarrow> strlcpy ''?'' n
      | Some r \<Rightarrow> (case nsp of Some m \<Rightarrow> snprintf n (m @ ''.'' @ r) | None \<Rightarrow> strlcpy r n)) < n"
    for rel nsp
    using assms(1) by (simp add: cstr split: option.split)
  with assms show ?thesis
    by (auto simp: pg_circuit_relation_qualname_def rbind_eq_Inr cstr simp del: append.simps
        split: if_split_asm)
qed

lemma relation_tuples_cases:
  "pg_circuit_relation_estimated_tuples pg rid = Inr t \<Longrightarrow> t = - 1 \<or> 0 \<le> t"
  by (auto simp: pg_circuit_relation_estimated_tuples_def rbind_eq_Inr Let_def
      split: if_splits option.splits)

lemma open_relation_bounds:
  assumes "server_storage_ok pg" and "try_relation_open pg rid = Inr (Some rel)"
    and "rd_nblocks rel = Inr pages"
  shows "0 \<le> pages" and "pages < 2 ^ 32"
  using assms by (auto simp: server_storage_ok_def)

lemma physical_bound_eq:
  assumes "server_storage_ok pg" and "try_relation_open pg rid = Inr (Some rel)"
    and "rd_nblocks rel = Inr pages" and "OidIsValid rid"
  shows "pg_circuit_relation_physical_tuple_bound pg rid = Inr (of_int (pages * MaxHeapTuplesPerPage pg))"
proof -
  note b = open_relation_bounds [OF assms(1-3)]
  have m: "0 < MaxHeapTuplesPerPage pg" "MaxHeapTuplesPerPage pg \<le> 32768"
    using assms(1) by (auto simp: server_storage_ok_def)
  have "pages * MaxHeapTuplesPerPage pg \<le> 2 ^ 32 * 32768"
    using b m by (intro mult_mono) auto
  then have p: "\<bar>pages * MaxHeapTuplesPerPage pg\<bar> \<le> 2 ^ 53"
    using b m by (simp add: abs_mult)
  have "d_mul (double_of_int pages) (double_of_int (MaxHeapTuplesPerPage pg))
      = dround (of_int (pages * MaxHeapTuplesPerPage pg))"
    using b m by (simp add: d_mul_def double_of_int_exact)
  also have "\<dots> = of_int (pages * MaxHeapTuplesPerPage pg)"
    by (rule dround_of_int [OF p])
  finally show ?thesis
    using assms by (simp add: pg_circuit_relation_physical_tuple_bound_def)
qed

lemma physical_bound_range:
  assumes "server_storage_ok pg" and "pg_circuit_relation_physical_tuple_bound pg rid = Inr b"
  shows "b = - 1 \<or> 0 \<le> b \<and> b \<le> 2 ^ 47"
proof (cases "\<exists>rel pages. OidIsValid rid \<and> try_relation_open pg rid = Inr (Some rel) \<and> rd_nblocks rel = Inr pages")
  case True
  then obtain rel pages where rel: "OidIsValid rid" "try_relation_open pg rid = Inr (Some rel)"
    "rd_nblocks rel = Inr pages" by auto
  note b = open_relation_bounds [OF assms(1) rel(2,3)]
  have m: "0 < MaxHeapTuplesPerPage pg" "MaxHeapTuplesPerPage pg \<le> 32768"
    using assms(1) by (auto simp: server_storage_ok_def)
  have "pages * MaxHeapTuplesPerPage pg \<le> 2 ^ 32 * 32768"
    using b m by (intro mult_mono) auto
  then have "(of_int (pages * MaxHeapTuplesPerPage pg) :: real) \<le> of_int (2 ^ 47)"
    by (subst of_int_le_iff) simp
  moreover have "(0::real) \<le> of_int (pages * MaxHeapTuplesPerPage pg)"
    using b m by (subst of_int_0_le_iff) simp
  ultimately show ?thesis
    using physical_bound_eq [OF assms(1) rel(2,3,1)] assms(2) by simp
next
  case False
  then show ?thesis
    using assms(2)
    by (auto simp: pg_circuit_relation_physical_tuple_bound_def rbind_eq_Inr
        split: if_splits option.splits)
qed

lemma relation_size_eq:
  assumes "server_storage_ok pg" and "try_relation_open pg rid = Inr (Some rel)"
    and "rd_nblocks rel = Inr pages" and "OidIsValid rid"
  shows "pg_circuit_relation_size pg rid = Inr (pages * BLCKSZ pg)"
proof -
  note b = open_relation_bounds [OF assms(1-3)]
  have m: "0 < BLCKSZ pg" "BLCKSZ pg \<le> 32768"
    using assms(1) by (auto simp: server_storage_ok_def)
  have "pages * BLCKSZ pg \<le> 2 ^ 32 * 32768"
    using b m by (intro mult_mono) auto
  moreover have "0 \<le> pages * BLCKSZ pg" using b m by simp
  ultimately show ?thesis
    using assms by (simp add: pg_circuit_relation_size_def wrap64_id)
qed

end
