(* ===== verification/Pgc_Blocker_Graph.thy ===== *)
theory Pgc_Blocker_Graph
  imports Pgc_Relations
begin

text \<open>
  \<open>src/blocker_graph.c\<close>: the blocker edges of a lock-manager snapshot, the cycle test over
  them and the severity of the chains below each root blocker. The two analyses number the
  processes of the graph through a table of at most \<open>PGC_MAX_BLOCKER_PIDS\<close> entries.
\<close>

definition PGC_MAX_BLOCKER_EDGES :: nat where
  "PGC_MAX_BLOCKER_EDGES = 256"

definition PGC_MAX_BLOCKER_PIDS :: nat where
  "PGC_MAX_BLOCKER_PIDS = 64"

record PgCircuitBlockerEdge =
  be_blocked_pid :: int
  be_blocking_pid :: int
  be_blocked_for_seconds :: double
  be_blocking_transaction_age_seconds :: double
  be_database_oid :: oid
  be_relation_oid :: oid
  be_relation_name :: string
  be_lock_type :: string
  be_lock_mode :: string

record PgCircuitBlockerGraph =
  bg_edges :: "PgCircuitBlockerEdge list"
  bg_blocked_sessions :: int
  bg_blocking_sessions :: int
  bg_max_blocked_for_seconds :: double
  bg_has_cycle :: bool
  bg_max_chain_depth :: int
  bg_max_descendant_count :: int

definition pg_circuit_blocker_graph_init :: PgCircuitBlockerGraph where
  "pg_circuit_blocker_graph_init =
     \<lparr>bg_edges = [], bg_blocked_sessions = 0, bg_blocking_sessions = 0,
      bg_max_blocked_for_seconds = 0, bg_has_cycle = False, bg_max_chain_depth = 0,
      bg_max_descendant_count = 0\<rparr>"

definition pg_circuit_blocker_graph_free :: "PgCircuitBlockerGraph \<Rightarrow> PgCircuitBlockerGraph" where
  "pg_circuit_blocker_graph_free graph = graph\<lparr>bg_edges := []\<rparr>"


section \<open>Filling an edge\<close>

definition locktags_equal :: "Locktag \<Rightarrow> Locktag \<Rightarrow> bool" where
  "locktags_equal a b \<longleftrightarrow> a = b"

fun pid_xact_age :: "Backend option list \<Rightarrow> int \<Rightarrow> timestamp \<Rightarrow> double" where
  "pid_xact_age [] pid now = 0"
| "pid_xact_age (None # bs) pid now = pid_xact_age bs pid now"
| "pid_xact_age (Some b # bs) pid now =
     (if st_procpid b \<noteq> pid then pid_xact_age bs pid now
      else if st_xact_start_timestamp b = 0 then 0
      else d_div (double_of_int (wrap64 (now - st_xact_start_timestamp b)))
                 (double_of_int USECS_PER_SEC))"

definition pid_xact_age_seconds :: "pg_server \<Rightarrow> int \<Rightarrow> timestamp \<Rightarrow> double" where
  "pid_xact_age_seconds pg pid now = pid_xact_age (local_beentries pg) pid now"

definition fill_relation_from_locktag ::
    "pg_server \<Rightarrow> Locktag \<Rightarrow> PgCircuitBlockerEdge \<Rightarrow> report + PgCircuitBlockerEdge" where
  "fill_relation_from_locktag pg tag edge =
     (let edge = edge\<lparr>be_database_oid := InvalidOid, be_relation_oid := InvalidOid,
                      be_relation_name := ''''\<rparr>
      in if locktag_type tag = LOCKTAG_RELATION \<or> locktag_type tag = LOCKTAG_RELATION_EXTEND
            \<or> locktag_type tag = LOCKTAG_PAGE \<or> locktag_type tag = LOCKTAG_TUPLE
         then (let edge = edge\<lparr>be_database_oid := locktag_field1 tag,
                               be_relation_oid := locktag_field2 tag\<rparr>
               in if OidIsValid (be_relation_oid edge)
                  then rbind (pg_circuit_relation_name pg (be_relation_oid edge) NAMEDATALEN)
                         (\<lambda>name. Inr (edge\<lparr>be_relation_name := name\<rparr>))
                  else Inr edge)
         else Inr edge)"

definition make_edge ::
    "pg_server \<Rightarrow> timestamp \<Rightarrow> double \<Rightarrow> LockInstance \<Rightarrow> LockInstance
     \<Rightarrow> report + PgCircuitBlockerEdge" where
  "make_edge pg now blocked_for waiter holder =
     (let edge = \<lparr>be_blocked_pid = li_pid waiter, be_blocking_pid = li_pid holder,
                  be_blocked_for_seconds = blocked_for,
                  be_blocking_transaction_age_seconds = pid_xact_age_seconds pg (li_pid holder) now,
                  be_database_oid = 0, be_relation_oid = 0, be_relation_name = '''',
                  be_lock_type = '''', be_lock_mode = ''''\<rparr>;
          tagcode = locktag_code pg (locktag_type (li_locktag waiter))
      in rbind (fill_relation_from_locktag pg (li_locktag waiter) edge) (\<lambda>edge.
           let edge = (if tagcode < LOCKTAG_LAST_TYPE pg
                       then edge\<lparr>be_lock_type := strlcpy (LockTagTypeNames pg tagcode) 32\<rparr>
                       else edge\<lparr>be_lock_type := strlcpy ''?'' 32\<rparr>)
           in Inr (edge\<lparr>be_lock_mode := strlcpy (GetLockmodeName pg (waitLockMode waiter)) 32\<rparr>)))"


section \<open>Scanning the snapshot\<close>

record lock_scan =
  sc_edges :: "PgCircuitBlockerEdge list"
  sc_blocked_pids :: "int list"
  sc_blocking_pids :: "int list"
  sc_max_blocked_for :: double

definition hold_conflicts :: "pg_server \<Rightarrow> LockInstance \<Rightarrow> nat \<Rightarrow> bool" where
  "hold_conflicts pg holder awaited =
     list_ex (\<lambda>mode. bit (holdMask holder) mode \<and> DoLockModesConflict pg mode awaited)
       [1..<MAX_LOCKMODES]"

definition add_pid :: "int \<Rightarrow> int list \<Rightarrow> int list" where
  "add_pid pid pids =
     (if pid \<notin> set pids \<and> length pids < PGC_MAX_BLOCKER_EDGES then pids @ [pid] else pids)"

definition blocked_for_seconds :: "timestamp \<Rightarrow> LockInstance \<Rightarrow> double" where
  "blocked_for_seconds now waiter =
     (if waitStart waiter > 0
      then (let d = d_div (double_of_int (wrap64 (now - waitStart waiter)))
                          (double_of_int USECS_PER_SEC)
            in if d < 0 then 0 else d)
      else 0)"

definition holder_blocks :: "pg_server \<Rightarrow> LockInstance \<Rightarrow> LockInstance \<Rightarrow> bool" where
  "holder_blocks pg waiter holder \<longleftrightarrow>
     \<not> (li_pid holder \<le> 0 \<or> li_pid holder = li_pid waiter)
     \<and> holdMask holder \<noteq> 0
     \<and> locktags_equal (li_locktag waiter) (li_locktag holder)
     \<and> hold_conflicts pg holder (waitLockMode waiter)"

text \<open>
  The inner loop; the flag says that it left through \<open>done_scan\<close>. The lookup of a relation name
  can raise, which ends the scan.
\<close>

fun scan_holders ::
    "pg_server \<Rightarrow> timestamp \<Rightarrow> double \<Rightarrow> LockInstance \<Rightarrow> LockInstance list \<Rightarrow> lock_scan
     \<Rightarrow> report + lock_scan \<times> bool" where
  "scan_holders pg now blocked_for waiter [] s = Inr (s, False)"
| "scan_holders pg now blocked_for waiter (holder # hs) s =
     (if \<not> holder_blocks pg waiter holder then scan_holders pg now blocked_for waiter hs s
      else if length (sc_edges s) \<ge> PGC_MAX_BLOCKER_EDGES then Inr (s, True)
      else rbind (make_edge pg now blocked_for waiter holder) (\<lambda>edge.
           scan_holders pg now blocked_for waiter hs
             (s\<lparr>sc_edges := sc_edges s @ [edge],
                sc_blocked_pids := add_pid (li_pid waiter) (sc_blocked_pids s),
                sc_blocking_pids := add_pid (li_pid holder) (sc_blocking_pids s)\<rparr>)))"

definition is_waiter :: "pg_server \<Rightarrow> LockInstance \<Rightarrow> bool" where
  "is_waiter pg w \<longleftrightarrow> \<not> li_pid w \<le> 0 \<and> waitLockMode w \<noteq> NoLock \<and> li_pid w \<noteq> MyProcPid pg"

fun scan_waiters ::
    "pg_server \<Rightarrow> timestamp \<Rightarrow> LockInstance list \<Rightarrow> LockInstance list \<Rightarrow> lock_scan
     \<Rightarrow> report + lock_scan" where
  "scan_waiters pg now locks [] s = Inr s"
| "scan_waiters pg now locks (waiter # ws) s =
     (if \<not> is_waiter pg waiter then scan_waiters pg now locks ws s
      else (let blocked_for = blocked_for_seconds now waiter;
                s = (if blocked_for > sc_max_blocked_for s
                     then s\<lparr>sc_max_blocked_for := blocked_for\<rparr> else s)
            in rbind (scan_holders pg now blocked_for waiter locks s) (\<lambda>(s', done).
                 if done then Inr s' else scan_waiters pg now locks ws s')))"

definition lock_scan_init :: lock_scan where
  "lock_scan_init =
     \<lparr>sc_edges = [], sc_blocked_pids = [], sc_blocking_pids = [], sc_max_blocked_for = 0\<rparr>"


section \<open>The process table\<close>

fun pid_index_from :: "int \<Rightarrow> int list \<Rightarrow> int \<Rightarrow> int" where
  "pid_index_from k [] pid = - 1"
| "pid_index_from k (p # ps) pid = (if p = pid then k else pid_index_from (k + 1) ps pid)"

definition pid_index :: "int list \<Rightarrow> int \<Rightarrow> int" where
  "pid_index pids pid = pid_index_from 0 pids pid"

text \<open>
  The slot of a process, entered into the table if it is new; \<open>None\<close> is the \<open>continue\<close> on a
  full table.
\<close>

definition pid_slot :: "int list \<Rightarrow> int \<Rightarrow> (int list \<times> nat) option" where
  "pid_slot pids pid =
     (let a = pid_index pids pid
      in if a < 0
         then (if length pids \<ge> PGC_MAX_BLOCKER_PIDS then None
               else Some (pids @ [pid], length pids))
         else Some (pids, nat a))"

definition register_edge :: "int list \<Rightarrow> PgCircuitBlockerEdge \<Rightarrow> int list \<times> (nat \<times> nat) option" where
  "register_edge pids e =
     (case pid_slot pids (be_blocked_pid e) of
        None \<Rightarrow> (pids, None)
      | Some (pids1, a) \<Rightarrow>
          (case pid_slot pids1 (be_blocking_pid e) of
             None \<Rightarrow> (pids1, None)
           | Some (pids2, b) \<Rightarrow> (pids2, Some (a, b))))"


section \<open>Cycles\<close>

type_synonym adjacency = "nat \<Rightarrow> nat \<Rightarrow> bool"

fun cycle_register :: "PgCircuitBlockerEdge list \<Rightarrow> int list \<times> adjacency \<Rightarrow> int list \<times> adjacency" where
  "cycle_register [] (pids, adj) = (pids, adj)"
| "cycle_register (e # es) (pids, adj) =
     (case register_edge pids e of
        (pids', None) \<Rightarrow> cycle_register es (pids', adj)
      | (pids', Some (a, b)) \<Rightarrow> cycle_register es (pids', adj(a := (adj a)(b := True))))"

definition warshall_row :: "nat \<Rightarrow> nat \<Rightarrow> nat \<Rightarrow> adjacency \<Rightarrow> adjacency" where
  "warshall_row n k i adj =
     (if adj i k
      then fold (\<lambda>j A. if A k j then A(i := (A i)(j := True)) else A) [0..<n] adj
      else adj)"

definition warshall :: "nat \<Rightarrow> adjacency \<Rightarrow> adjacency" where
  "warshall n adj = fold (\<lambda>k A. fold (\<lambda>i B. warshall_row n k i B) [0..<n] A) [0..<n] adj"

definition graph_has_cycle :: "PgCircuitBlockerEdge list \<Rightarrow> bool" where
  "graph_has_cycle edges =
     (case cycle_register edges ([], \<lambda>_ _. False) of
        (pids, adj) \<Rightarrow>
          (let closed = warshall (length pids) adj
           in list_ex (\<lambda>i. closed i i) [0..<length pids]))"


section \<open>Chain severity\<close>

fun severity_register ::
    "PgCircuitBlockerEdge list \<Rightarrow> int list \<times> (nat \<Rightarrow> bool) \<times> (nat \<Rightarrow> bool)
     \<Rightarrow> int list \<times> (nat \<Rightarrow> bool) \<times> (nat \<Rightarrow> bool)" where
  "severity_register [] (pids, is_blocked, is_blocker) = (pids, is_blocked, is_blocker)"
| "severity_register (e # es) (pids, is_blocked, is_blocker) =
     (case register_edge pids e of
        (pids', None) \<Rightarrow> severity_register es (pids', is_blocked, is_blocker)
      | (pids', Some (a, b)) \<Rightarrow>
          severity_register es (pids', is_blocked(a := True), is_blocker(b := True)))"

record bfs =
  bf_visited :: "nat \<Rightarrow> bool"
  bf_queue :: "nat list"
  bf_depth :: "nat \<Rightarrow> nat"
  bf_descendants :: int
  bf_max_depth :: nat

definition bfs_init :: "nat \<Rightarrow> bfs" where
  "bfs_init src =
     \<lparr>bf_visited = (\<lambda>_. False)(src := True), bf_queue = [src],
      bf_depth = (\<lambda>_. 0)(src := 0), bf_descendants = 0, bf_max_depth = 0\<rparr>"

definition bfs_enter :: "nat \<Rightarrow> nat \<Rightarrow> bfs \<Rightarrow> bfs" where
  "bfs_enter cur child s =
     (let s = s\<lparr>bf_visited := (bf_visited s)(child := True),
                bf_depth := (bf_depth s)(child := bf_depth s cur + 1)\<rparr>;
          s = (if bf_depth s child > bf_max_depth s
               then s\<lparr>bf_max_depth := bf_depth s child\<rparr> else s);
          s = s\<lparr>bf_descendants := bf_descendants s + 1\<rparr>
      in if length (bf_queue s) < PGC_MAX_BLOCKER_PIDS
         then s\<lparr>bf_queue := bf_queue s @ [child]\<rparr> else s)"

fun bfs_visit :: "int list \<Rightarrow> nat \<Rightarrow> PgCircuitBlockerEdge list \<Rightarrow> bfs \<Rightarrow> bfs" where
  "bfs_visit pids cur [] s = s"
| "bfs_visit pids cur (e # es) s =
     (if be_blocking_pid e \<noteq> pids ! cur then bfs_visit pids cur es s
      else (let child = pid_index pids (be_blocked_pid e)
            in if child < 0 \<or> bf_visited s (nat child) then bfs_visit pids cur es s
               else bfs_visit pids cur es (bfs_enter cur (nat child) s)))"

lemma bfs_enter_queue:
  "max PGC_MAX_BLOCKER_PIDS (length (bf_queue (bfs_enter cur child s)))
     = max PGC_MAX_BLOCKER_PIDS (length (bf_queue s))"
  by (simp add: bfs_enter_def Let_def)

lemma bfs_visit_queue:
  "max PGC_MAX_BLOCKER_PIDS (length (bf_queue (bfs_visit pids cur es s)))
     = max PGC_MAX_BLOCKER_PIDS (length (bf_queue s))"
  by (induction es arbitrary: s) (simp_all add: Let_def bfs_enter_queue)

text \<open>The queue never grows past its bound, so the loop ends: \<open>qh\<close> rises towards it.\<close>

function bfs_loop :: "int list \<Rightarrow> PgCircuitBlockerEdge list \<Rightarrow> nat \<Rightarrow> bfs \<Rightarrow> bfs" where
  "bfs_loop pids edges qh s =
     (if qh < length (bf_queue s)
      then bfs_loop pids edges (Suc qh) (bfs_visit pids (bf_queue s ! qh) edges s)
      else s)"
  by pat_completeness auto
termination
  by (relation "measure (\<lambda>(pids, edges, qh, s).
        max PGC_MAX_BLOCKER_PIDS (length (bf_queue s)) - qh)")
     (auto simp: bfs_visit_queue)

declare bfs_loop.simps [simp del]

definition chain_severity_root ::
    "int list \<Rightarrow> PgCircuitBlockerEdge list \<Rightarrow> nat \<Rightarrow> PgCircuitBlockerGraph \<Rightarrow> PgCircuitBlockerGraph" where
  "chain_severity_root pids edges src graph =
     (let s = bfs_loop pids edges 0 (bfs_init src);
          graph = (if bf_descendants s > bg_max_descendant_count graph
                   then graph\<lparr>bg_max_descendant_count := bf_descendants s\<rparr> else graph)
      in if int (bf_max_depth s) > bg_max_chain_depth graph
         then graph\<lparr>bg_max_chain_depth := int (bf_max_depth s)\<rparr> else graph)"

definition compute_chain_severity :: "PgCircuitBlockerGraph \<Rightarrow> PgCircuitBlockerGraph" where
  "compute_chain_severity graph =
     (let graph = graph\<lparr>bg_max_chain_depth := 0, bg_max_descendant_count := 0\<rparr>
      in case severity_register (bg_edges graph) ([], \<lambda>_. False, \<lambda>_. False) of
           (pids, is_blocked, is_blocker) \<Rightarrow>
             fold (\<lambda>i g. if \<not> is_blocker i \<or> is_blocked i then g
                         else chain_severity_root pids (bg_edges graph) i g)
               [0..<length pids] graph)"


section \<open>Building the graph\<close>

definition graph_of_scan :: "lock_scan \<Rightarrow> PgCircuitBlockerGraph" where
  "graph_of_scan s =
     (let graph = pg_circuit_blocker_graph_init
                    \<lparr>bg_edges := sc_edges s,
                     bg_max_blocked_for_seconds := sc_max_blocked_for s,
                     bg_blocked_sessions := int (length (sc_blocked_pids s)),
                     bg_blocking_sessions := int (length (sc_blocking_pids s)),
                     bg_has_cycle := graph_has_cycle (sc_edges s)\<rparr>
      in compute_chain_severity graph)"

definition pg_circuit_build_blocker_graph :: "pg_server \<Rightarrow> report + PgCircuitBlockerGraph" where
  "pg_circuit_build_blocker_graph pg =
     (case GetLockStatusData pg of
        Inl e \<Rightarrow> Inl e
      | Inr None \<Rightarrow> Inr pg_circuit_blocker_graph_init
      | Inr (Some locks) \<Rightarrow>
          rbind (scan_waiters pg (now_locks pg) locks locks lock_scan_init)
            (\<lambda>s. Inr (graph_of_scan s)))"


section \<open>The process table as a numbering\<close>

definition waits_for :: "PgCircuitBlockerEdge list \<Rightarrow> (int \<times> int) set" where
  "waits_for edges = (\<lambda>e. (be_blocked_pid e, be_blocking_pid e)) ` set edges"

definition graph_pids :: "PgCircuitBlockerEdge list \<Rightarrow> int set" where
  "graph_pids edges = be_blocked_pid ` set edges \<union> be_blocking_pid ` set edges"

definition table_ok :: "int list \<Rightarrow> bool" where
  "table_ok pids \<longleftrightarrow> distinct pids \<and> length pids \<le> PGC_MAX_BLOCKER_PIDS"

lemma waits_for_simps [simp]:
  "waits_for [] = {}"
  "waits_for (e # es) = insert (be_blocked_pid e, be_blocking_pid e) (waits_for es)"
  by (simp_all add: waits_for_def)

lemma graph_pids_simps [simp]:
  "graph_pids [] = {}"
  "graph_pids (e # es) = {be_blocked_pid e, be_blocking_pid e} \<union> graph_pids es"
  by (auto simp: graph_pids_def)

lemma finite_graph_pids [simp]: "finite (graph_pids es)"
  by (simp add: graph_pids_def)

lemma pid_index_from_cases:
  "if pid \<in> set ps then \<exists>i < length ps. pid_index_from k ps pid = k + int i \<and> ps ! i = pid
   else pid_index_from k ps pid = - 1"
proof (induction ps arbitrary: k)
  case Nil
  then show ?case by simp
next
  case (Cons p ps)
  show ?case
  proof (cases "p = pid")
    case True
    then show ?thesis by (auto intro: exI [of _ "0::nat"])
  next
    case False
    show ?thesis
    proof (cases "pid \<in> set ps")
      case True
      with Cons.IH [of "k + 1"] obtain i where
        "i < length ps" "pid_index_from (k + 1) ps pid = k + 1 + int i" "ps ! i = pid" by auto
      with False show ?thesis by (auto intro: exI [of _ "Suc i"])
    next
      case False
      with \<open>p \<noteq> pid\<close> Cons.IH [of "k + 1"] show ?thesis by auto
    qed
  qed
qed

lemma pid_index_neg: "pid_index pids pid < 0 \<longleftrightarrow> pid \<notin> set pids"
  using pid_index_from_cases [of pid pids 0] by (auto simp: pid_index_def split: if_splits)

lemma pid_index_nth:
  assumes "pid \<in> set pids"
  shows "nat (pid_index pids pid) < length pids" and "pids ! nat (pid_index pids pid) = pid"
  using assms pid_index_from_cases [of pid pids 0] by (auto simp: pid_index_def)

lemma pid_slot_None:
  "pid_slot pids pid = None \<Longrightarrow> pid \<notin> set pids \<and> PGC_MAX_BLOCKER_PIDS \<le> length pids"
  by (auto simp: pid_slot_def pid_index_neg Let_def split: if_splits)

lemma pid_slot_Some:
  assumes "pid_slot pids pid = Some (q, a)" and "table_ok pids"
  shows "table_ok q" and "\<exists>r. q = pids @ r" and "a < length q" and "q ! a = pid"
    and "set q = insert pid (set pids)"
  using assms pid_index_nth [of pid pids]
  by (auto simp: pid_slot_def pid_index_neg table_ok_def Let_def nth_append split: if_splits)

fun register_edges ::
    "PgCircuitBlockerEdge list \<Rightarrow> int list \<Rightarrow> int list \<times> (nat \<times> nat) list" where
  "register_edges [] pids = (pids, [])"
| "register_edges (e # es) pids =
     (case register_edge pids e of
        (pids', r) \<Rightarrow>
          (case register_edges es pids' of
             (q, ps) \<Rightarrow> (q, (case r of None \<Rightarrow> ps | Some ab \<Rightarrow> ab # ps))))"

lemma cycle_register_eq:
  "cycle_register es (pids, adj)
     = (fst (register_edges es pids), \<lambda>a b. adj a b \<or> (a, b) \<in> set (snd (register_edges es pids)))"
proof (induction es arbitrary: pids adj)
  case Nil
  then show ?case by simp
next
  case (Cons e es)
  then show ?case
    by (auto simp: fun_eq_iff split: prod.split option.split)
qed

lemma severity_register_eq:
  "severity_register es (pids, blocked, blocker)
     = (fst (register_edges es pids),
        \<lambda>a. blocked a \<or> a \<in> fst ` set (snd (register_edges es pids)),
        \<lambda>b. blocker b \<or> b \<in> snd ` set (snd (register_edges es pids)))"
proof (induction es arbitrary: pids blocked blocker)
  case Nil
  then show ?case by simp
next
  case (Cons e es)
  then show ?case
    by (auto simp: fun_eq_iff split: prod.split option.split)
qed

lemma register_edge_step:
  assumes "register_edge pids e = (q, r)" and "table_ok pids"
  shows "table_ok q" and "\<exists>s. q = pids @ s"
    and "set q \<subseteq> set pids \<union> {be_blocked_pid e, be_blocking_pid e}"
    and "r = Some (a, b) \<Longrightarrow> a < length q \<and> b < length q
           \<and> q ! a = be_blocked_pid e \<and> q ! b = be_blocking_pid e"
    and "r = None \<Longrightarrow> card (set pids \<union> {be_blocked_pid e, be_blocking_pid e}) > PGC_MAX_BLOCKER_PIDS"
proof -
  have big: "card (insert p (set ps)) > PGC_MAX_BLOCKER_PIDS"
    if "pid_slot ps p = None" "table_ok ps" for p ps
    using pid_slot_None [OF that(1)] that(2) by (simp add: table_ok_def distinct_card)
  have all: "table_ok q \<and> (\<exists>s. q = pids @ s)
      \<and> set q \<subseteq> set pids \<union> {be_blocked_pid e, be_blocking_pid e}
      \<and> (\<forall>a b. r = Some (a, b) \<longrightarrow> a < length q \<and> b < length q
            \<and> q ! a = be_blocked_pid e \<and> q ! b = be_blocking_pid e)"
  proof (cases "pid_slot pids (be_blocked_pid e)")
    case None
    with assms show ?thesis by (auto simp: register_edge_def)
  next
    case (Some pa)
    obtain p1 a where s1: "pid_slot pids (be_blocked_pid e) = Some (p1, a)"
      using Some by (cases pa) simp
    note S1 = pid_slot_Some [OF s1 assms(2)]
    show ?thesis
    proof (cases "pid_slot p1 (be_blocking_pid e)")
      case None
      with assms s1 S1 show ?thesis by (auto simp: register_edge_def)
    next
      case (Some pb)
      obtain p2 b where s2: "pid_slot p1 (be_blocking_pid e) = Some (p2, b)"
        using Some by (cases pb) simp
      note S2 = pid_slot_Some [OF s2 S1(1)]
      have qr: "q = p2" "r = Some (a, b)"
        using assms(1) s1 s2 by (auto simp: register_edge_def)
      have "p2 ! a = be_blocked_pid e" "a < length p2"
        using S1(3,4) S2(2) by (auto simp: nth_append)
      moreover have "\<exists>s. p2 = pids @ s" using S1(2) S2(2) by auto
      ultimately show ?thesis
        using S1(5) S2(1,3,4,5) by (auto simp: qr)
    qed
  qed
  then show "table_ok q" and "\<exists>s. q = pids @ s"
    and "set q \<subseteq> set pids \<union> {be_blocked_pid e, be_blocking_pid e}"
    and "r = Some (a, b) \<Longrightarrow> a < length q \<and> b < length q
           \<and> q ! a = be_blocked_pid e \<and> q ! b = be_blocking_pid e" by auto
  show "card (set pids \<union> {be_blocked_pid e, be_blocking_pid e}) > PGC_MAX_BLOCKER_PIDS"
    if r: "r = None"
  proof (cases "pid_slot pids (be_blocked_pid e)")
    case None
    have "card (insert (be_blocked_pid e) (set pids))
        \<le> card (set pids \<union> {be_blocked_pid e, be_blocking_pid e})"
      by (rule card_mono) auto
    with big [OF None assms(2)] show ?thesis by linarith
  next
    case (Some pa)
    obtain p1 a where p1: "pa = (p1, a)" by (cases pa)
    with Some have s1: "pid_slot pids (be_blocked_pid e) = Some (p1, a)" by simp
    from assms(1) r s1 have "pid_slot p1 (be_blocking_pid e) = None"
      by (auto simp: register_edge_def split: option.splits)
    from big [OF this pid_slot_Some(1) [OF s1 assms(2)]]
    have "card (insert (be_blocking_pid e) (set p1)) > PGC_MAX_BLOCKER_PIDS" .
    moreover have "insert (be_blocking_pid e) (set p1)
        = set pids \<union> {be_blocked_pid e, be_blocking_pid e}"
      using pid_slot_Some(5) [OF s1 assms(2)] by auto
    ultimately show ?thesis by simp
  qed
qed

lemma register_edges_sound:
  assumes "register_edges es pids = (q, ps)" and "table_ok pids"
  shows "table_ok q \<and> (\<exists>s. q = pids @ s) \<and> set q \<subseteq> set pids \<union> graph_pids es
     \<and> (\<forall>(a, b) \<in> set ps. a < length q \<and> b < length q \<and> (q ! a, q ! b) \<in> waits_for es)"
  using assms
proof (induction es arbitrary: pids q ps)
  case Nil
  then show ?case by simp
next
  case (Cons e es)
  obtain p1 r where s1: "register_edge pids e = (p1, r)" by fastforce
  obtain q' ps' where s2: "register_edges es p1 = (q', ps')" by fastforce
  have q: "q = q'" and ps: "ps = (case r of None \<Rightarrow> ps' | Some ab \<Rightarrow> ab # ps')"
    using Cons.prems(1) s1 s2 by auto
  note R = register_edge_step [OF s1 Cons.prems(2)]
  have IH: "table_ok q' \<and> (\<exists>s. q' = p1 @ s) \<and> set q' \<subseteq> set p1 \<union> graph_pids es
     \<and> (\<forall>(a, b) \<in> set ps'. a < length q' \<and> b < length q' \<and> (q' ! a, q' ! b) \<in> waits_for es)"
    by (rule Cons.IH [OF s2 R(1)])
  have new: "a < length q' \<and> b < length q' \<and> (q' ! a, q' ! b) = (be_blocked_pid e, be_blocking_pid e)"
    if "r = Some (a, b)" for a b
    using R(4) [OF that] IH by (auto simp: nth_append)
  have "\<exists>s. q' = pids @ s" using IH R(2) by auto
  moreover have "set q' \<subseteq> set pids \<union> graph_pids (e # es)" using IH R(3) by auto
  moreover have "\<forall>(a, b) \<in> set ps. a < length q' \<and> b < length q'
      \<and> (q' ! a, q' ! b) \<in> waits_for (e # es)"
    using IH new by (cases r) (auto simp: ps)
  ultimately show ?case using IH by (simp add: q)
qed

lemma register_edges_complete:
  assumes "register_edges es pids = (q, ps)" and "table_ok pids"
    and "card (set pids \<union> graph_pids es) \<le> PGC_MAX_BLOCKER_PIDS"
  shows "set q = set pids \<union> graph_pids es
     \<and> (\<forall>(u, v) \<in> waits_for es. \<exists>(a, b) \<in> set ps. q ! a = u \<and> q ! b = v)"
  using assms
proof (induction es arbitrary: pids q ps)
  case Nil
  then show ?case by simp
next
  case (Cons e es)
  obtain p1 r where s1: "register_edge pids e = (p1, r)" by fastforce
  obtain q' ps' where s2: "register_edges es p1 = (q', ps')" by fastforce
  have q: "q = q'" and ps: "ps = (case r of None \<Rightarrow> ps' | Some ab \<Rightarrow> ab # ps')"
    using Cons.prems(1) s1 s2 by auto
  note R = register_edge_step [OF s1 Cons.prems(2)]
  have "card (set pids \<union> {be_blocked_pid e, be_blocking_pid e})
      \<le> card (set pids \<union> graph_pids (e # es))"
    by (rule card_mono) auto
  with R(5) Cons.prems(3) obtain a b where r: "r = Some (a, b)" by (cases r) force+
  have R4: "a < length p1" "b < length p1" "p1 ! a = be_blocked_pid e" "p1 ! b = be_blocking_pid e"
    using R(4) [OF r] by auto
  have p1: "set p1 = set pids \<union> {be_blocked_pid e, be_blocking_pid e}"
    using R(2,3) R4 nth_mem [OF R4(1)] nth_mem [OF R4(2)] by auto
  have "card (set p1 \<union> graph_pids es) \<le> PGC_MAX_BLOCKER_PIDS"
    using Cons.prems(3) p1 by (simp add: Un_ac insert_commute)
  from Cons.IH [OF s2 R(1) this]
  have IH: "set q' = set p1 \<union> graph_pids es"
    "\<forall>(u, v) \<in> waits_for es. \<exists>(a, b) \<in> set ps'. q' ! a = u \<and> q' ! b = v" by auto
  obtain s where "q' = p1 @ s" using register_edges_sound [OF s2 R(1)] by blast
  then have "q' ! a = be_blocked_pid e" "q' ! b = be_blocking_pid e"
    using R4 by (simp_all add: nth_append)
  then show ?case
    unfolding q ps r using IH p1 by fastforce
qed

lemma table_ok_Nil [simp]: "table_ok []"
  by (simp add: table_ok_def)

end
