(* ===== verification/Pgc_Blocker_Cycle.thy ===== *)
theory Pgc_Blocker_Cycle
  imports Pgc_Blocker_Graph
begin

text \<open>
  Correctness of the cycle test of \<open>src/blocker_graph.c\<close>: the in-place Warshall loops compute
  the transitive closure of the numbered edges, and a process waits for itself through them
  exactly if the wait-for relation has a cycle (as long as the process table holds everyone).
\<close>


section \<open>One row, one pivot\<close>

lemma warshall_row_fold:
  "fold (\<lambda>j A. if A k j then A(i := (A i)(j := True)) else A) [0..<m] adj
     = (\<lambda>x y. adj x y \<or> (x = i \<and> y < m \<and> adj k y))"
proof (induction m)
  case 0
  then show ?case by simp
next
  case (Suc m)
  then show ?case by (auto simp: fun_eq_iff less_Suc_eq)
qed

lemma warshall_row_eq:
  "warshall_row n k i adj = (\<lambda>x y. adj x y \<or> (x = i \<and> y < n \<and> adj i k \<and> adj k y))"
  by (auto simp: warshall_row_def warshall_row_fold fun_eq_iff)

lemma warshall_pivot_fold:
  "fold (\<lambda>i B. warshall_row n k i B) [0..<m] adj
     = (\<lambda>x y. adj x y \<or> (x < m \<and> y < n \<and> adj x k \<and> adj k y))"
proof (induction m)
  case 0
  then show ?case by simp
next
  case (Suc m)
  then show ?case by (auto simp: warshall_row_eq fun_eq_iff less_Suc_eq)
qed


section \<open>Closure\<close>

definition adj_rel :: "adjacency \<Rightarrow> (nat \<times> nat) set" where
  "adj_rel adj = {(x, y). adj x y}"

definition adj_below :: "nat \<Rightarrow> adjacency \<Rightarrow> bool" where
  "adj_below n adj \<longleftrightarrow> (\<forall>x y. adj x y \<longrightarrow> x < n \<and> y < n)"

definition pivots :: "nat \<Rightarrow> nat \<Rightarrow> adjacency \<Rightarrow> adjacency" where
  "pivots n m adj = fold (\<lambda>k A. fold (\<lambda>i B. warshall_row n k i B) [0..<n] A) [0..<m] adj"

lemma warshall_pivots: "warshall n adj = pivots n n adj"
  by (simp add: warshall_def pivots_def)

lemma pivots_0 [simp]: "pivots n 0 adj = adj"
  by (simp add: pivots_def)

lemma pivots_Suc:
  "pivots n (Suc m) adj x y \<longleftrightarrow>
     pivots n m adj x y \<or> (x < n \<and> y < n \<and> pivots n m adj x m \<and> pivots n m adj m y)"
  by (simp add: pivots_def warshall_pivot_fold)

lemma adj_belowD: "adj_below n adj \<Longrightarrow> adj x y \<Longrightarrow> x < n \<and> y < n"
  by (simp only: adj_below_def)

lemma pivots_below:
  assumes "adj_below n adj"
  shows "adj_below n (pivots n m adj)"
proof (induction m)
  case 0
  then show ?case by (simp only: pivots_0 assms)
next
  case (Suc m)
  then show ?case unfolding adj_below_def pivots_Suc by blast
qed

lemma pivots_extends: "adj x y \<Longrightarrow> pivots n m adj x y"
  by (induction m) (simp_all add: pivots_Suc)

lemma pivots_sound: "pivots n m adj x y \<Longrightarrow> (x, y) \<in> (adj_rel adj)\<^sup>+"
proof (induction m arbitrary: x y)
  case 0
  then show ?case by (simp add: adj_rel_def r_into_trancl)
next
  case (Suc m)
  from Suc.prems consider "pivots n m adj x y" | "pivots n m adj x m" "pivots n m adj m y"
    unfolding pivots_Suc by blast
  then show ?case
  proof cases
    case 1
    then show ?thesis by (rule Suc.IH)
  next
    case 2
    then show ?thesis by (intro trancl_trans [OF Suc.IH Suc.IH])
  qed
qed

text \<open>After \<open>m\<close> pivots the matrix is transitive through every node below \<open>m\<close>.\<close>

lemma pivots_transitive:
  assumes "adj_below n adj"
  shows "z < m \<Longrightarrow> pivots n m adj x z \<Longrightarrow> pivots n m adj z y \<Longrightarrow> pivots n m adj x y"
proof (induction m arbitrary: x y z)
  case 0
  then show ?case by simp
next
  case (Suc m)
  have b: "adj_below n (pivots n m adj)" by (rule pivots_below [OF assms])
  have edge: "a < n \<and> b < n" if "pivots n m adj a b" for a b
    by (rule adj_belowD [OF b that])
  have tr: "pivots n m adj a c" if "pivots n m adj a z" "pivots n m adj z c" "z < m" for a c z
    using Suc.IH [OF that(3,1,2)] .
  have old: "pivots n m adj a b \<Longrightarrow> pivots n (Suc m) adj a b" for a b by (simp add: pivots_Suc)
  have via: "pivots n (Suc m) adj a c" if "pivots n m adj a m" "pivots n m adj m c" for a c
    using that edge [OF that(1)] edge [OF that(2)] by (simp add: pivots_Suc)
  from Suc.prems(2,3) consider
      "pivots n m adj x z" "pivots n m adj z y"
    | "pivots n m adj x z" "pivots n m adj z m" "pivots n m adj m y"
    | "pivots n m adj x m" "pivots n m adj m z" "pivots n m adj z y"
    | "pivots n m adj x m" "pivots n m adj m y"
    unfolding pivots_Suc by blast
  then show ?case
    using Suc.prems(1) unfolding less_Suc_eq by cases (blast intro: old via tr)+
qed

lemma warshall_closure:
  assumes "adj_below n adj"
  shows "warshall n adj x y \<longleftrightarrow> (x, y) \<in> (adj_rel adj)\<^sup>+"
proof
  assume "warshall n adj x y"
  then show "(x, y) \<in> (adj_rel adj)\<^sup>+" by (simp add: warshall_pivots pivots_sound)
next
  assume "(x, y) \<in> (adj_rel adj)\<^sup>+"
  then show "warshall n adj x y"
  proof (induction rule: trancl_induct)
    case (base y)
    then show ?case by (simp add: warshall_pivots pivots_extends adj_rel_def)
  next
    case (step y z)
    from step.hyps(2) have a: "adj y z" by (simp add: adj_rel_def)
    from adj_belowD [OF assms a] have "y < n" ..
    from pivots_transitive [OF assms this step.IH [unfolded warshall_pivots] pivots_extends [of adj y z n n, OF a]]
    show ?case by (simp only: warshall_pivots)
  qed
qed


section \<open>From numbers to processes\<close>

lemma trancl_image:
  assumes "(x, y) \<in> r\<^sup>+" and "\<And>a b. (a, b) \<in> r \<Longrightarrow> (f a, f b) \<in> s"
  shows "(f x, f y) \<in> s\<^sup>+"
  using assms(1)
proof (induction rule: trancl_induct)
  case (base y)
  then show ?case using assms(2) by blast
next
  case (step y z)
  show ?case by (rule trancl_into_trancl [OF step.IH assms(2) [OF step.hyps(2)]])
qed

definition numbered :: "PgCircuitBlockerEdge list \<Rightarrow> int list \<times> (nat \<times> nat) list" where
  "numbered edges = register_edges edges []"

lemma numbered_sound:
  assumes "numbered edges = (pids, ps)"
  shows "table_ok pids" and "set pids \<subseteq> graph_pids edges"
    and "(a, b) \<in> set ps \<Longrightarrow> a < length pids \<and> b < length pids \<and> (pids ! a, pids ! b) \<in> waits_for edges"
  using register_edges_sound [OF assms [unfolded numbered_def] table_ok_Nil] by auto

lemma numbered_complete:
  assumes "numbered edges = (pids, ps)" and "card (graph_pids edges) \<le> PGC_MAX_BLOCKER_PIDS"
  shows "set pids = graph_pids edges"
    and "\<forall>(u, v) \<in> waits_for edges. \<exists>(a, b) \<in> set ps. pids ! a = u \<and> pids ! b = v"
  using register_edges_complete [OF assms(1) [unfolded numbered_def] table_ok_Nil] assms(2)
  by simp_all

lemma graph_has_cycle_numbered:
  assumes "numbered edges = (pids, ps)"
  shows "graph_has_cycle edges \<longleftrightarrow> (\<exists>i < length pids. (i, i) \<in> (set ps)\<^sup>+)"
proof -
  have eq: "cycle_register edges ([], \<lambda>_ _. False) = (pids, \<lambda>a b. (a, b) \<in> set ps)"
    using assms by (simp add: cycle_register_eq numbered_def)
  have below: "adj_below (length pids) (\<lambda>a b. (a, b) \<in> set ps)"
    using numbered_sound(3) [OF assms] by (auto simp: adj_below_def)
  have "adj_rel (\<lambda>a b. (a, b) \<in> set ps) = set ps" by (auto simp: adj_rel_def)
  then show ?thesis
    by (auto simp: graph_has_cycle_def eq Let_def warshall_closure [OF below] list_ex_iff)
qed

lemma graph_has_cycle_sound:
  assumes "graph_has_cycle edges"
  shows "\<exists>p. (p, p) \<in> (waits_for edges)\<^sup>+"
proof -
  obtain pids ps where n: "numbered edges = (pids, ps)" by fastforce
  from assms obtain i where "(i, i) \<in> (set ps)\<^sup>+" by (auto simp: graph_has_cycle_numbered [OF n])
  then have "(pids ! i, pids ! i) \<in> (waits_for edges)\<^sup>+"
    by (rule trancl_image) (use numbered_sound(3) [OF n] in blast)
  then show ?thesis ..
qed

lemma graph_has_cycle_complete:
  assumes "(p, p) \<in> (waits_for edges)\<^sup>+" and "card (graph_pids edges) \<le> PGC_MAX_BLOCKER_PIDS"
  shows "graph_has_cycle edges"
proof -
  obtain pids ps where n: "numbered edges = (pids, ps)" by fastforce
  define num where "num = (\<lambda>p. THE i. i < length pids \<and> pids ! i = p)"
  have d: "distinct pids" using numbered_sound(1) [OF n] by (simp add: table_ok_def)
  have num: "num (pids ! i) = i" if "i < length pids" for i
    unfolding num_def using that d by (intro the_equality) (auto simp: nth_eq_iff_index_eq)
  have step: "(num u, num v) \<in> set ps" if uv: "(u, v) \<in> waits_for edges" for u v
  proof -
    obtain a b where ab: "(a, b) \<in> set ps" "pids ! a = u" "pids ! b = v"
      using bspec [OF numbered_complete(2) [OF n assms(2)] uv] by auto
    then show ?thesis using numbered_sound(3) [OF n ab(1)] num [of a] num [of b] by auto
  qed
  have c: "(num p, num p) \<in> (set ps)\<^sup>+"
    by (rule trancl_image [OF assms(1)]) (rule step)
  moreover have "num p < length pids"
    using tranclD [OF c] numbered_sound(3) [OF n] by blast
  ultimately show ?thesis by (auto simp: graph_has_cycle_numbered [OF n])
qed

end
