(* ===== verification/Pgc_Blocker_Chain.thy ===== *)
theory Pgc_Blocker_Chain
  imports Pgc_Blocker_Cycle
begin

text \<open>
  Correctness of the chain severity of \<open>src/blocker_graph.c\<close>: the breadth-first walk below a
  root blocker visits exactly the processes that wait for it, directly or through others, and
  gives each its distance from the root. The queue never overflows its \<open>PGC_MAX_BLOCKER_PIDS\<close>
  places because it holds each numbered process once.
\<close>

definition kid_rel :: "int list \<Rightarrow> PgCircuitBlockerEdge list \<Rightarrow> (nat \<times> nat) set" where
  "kid_rel pids edges =
     {(a, b). a < length pids \<and> b < length pids \<and> (pids ! b, pids ! a) \<in> waits_for edges}"

lemma kid_rel_Nil [simp]: "kid_rel pids [] = {}"
  by (simp add: kid_rel_def)

lemma kid_rel_Cons:
  "kid_rel pids (e # es) `` {cur} =
     {b. cur < length pids \<and> b < length pids \<and> pids ! b = be_blocked_pid e \<and> pids ! cur = be_blocking_pid e}
     \<union> kid_rel pids es `` {cur}"
  by (auto simp: kid_rel_def)


section \<open>Entering the children of one process\<close>

definition bfs_ok :: "int list \<Rightarrow> bfs \<Rightarrow> bool" where
  "bfs_ok pids s \<longleftrightarrow>
     bf_queue s \<noteq> [] \<and> distinct (bf_queue s) \<and> set (bf_queue s) \<subseteq> {..<length pids}
     \<and> bf_visited s = (\<lambda>v. v \<in> set (bf_queue s))
     \<and> bf_descendants s + 1 = int (length (bf_queue s))
     \<and> bf_max_depth s = Max (bf_depth s ` set (bf_queue s))"

lemma bfs_enter_ok:
  assumes t: "table_ok pids" and ok: "bfs_ok pids s" and cur: "cur \<in> set (bf_queue s)"
    and new: "child < length pids" "child \<notin> set (bf_queue s)"
  shows "bf_queue (bfs_enter cur child s) = bf_queue s @ [child]"
    and "bf_depth (bfs_enter cur child s) = (bf_depth s)(child := bf_depth s cur + 1)"
    and "bfs_ok pids (bfs_enter cur child s)"
proof -
  have "insert child (set (bf_queue s)) \<subseteq> {..<length pids}" using ok new by (simp add: bfs_ok_def)
  from card_mono [OF finite_lessThan this]
  have room: "length (bf_queue s) < PGC_MAX_BLOCKER_PIDS"
    using ok new(2) t by (simp add: bfs_ok_def distinct_card table_ok_def)
  then show q: "bf_queue (bfs_enter cur child s) = bf_queue s @ [child]"
    by (simp add: bfs_enter_def Let_def)
  show d: "bf_depth (bfs_enter cur child s) = (bf_depth s)(child := bf_depth s cur + 1)"
    by (simp add: bfs_enter_def Let_def)
  have img: "bf_depth (bfs_enter cur child s) ` set (bf_queue (bfs_enter cur child s))
      = insert (bf_depth s cur + 1) (bf_depth s ` set (bf_queue s))"
    using new(2) by (auto simp: q d)
  have m: "bf_max_depth (bfs_enter cur child s) = max (bf_depth s cur + 1) (bf_max_depth s)"
    by (simp add: bfs_enter_def Let_def max_def)
  have "bf_max_depth (bfs_enter cur child s)
      = Max (bf_depth (bfs_enter cur child s) ` set (bf_queue (bfs_enter cur child s)))"
    unfolding m img using ok by (simp add: bfs_ok_def)
  moreover have "bf_visited (bfs_enter cur child s) = (bf_visited s)(child := True)"
    "bf_descendants (bfs_enter cur child s) = bf_descendants s + 1"
    by (simp_all add: bfs_enter_def Let_def)
  ultimately show "bfs_ok pids (bfs_enter cur child s)"
    using ok new unfolding bfs_ok_def by (simp add: q fun_eq_iff)
qed

lemma bfs_visit_ok:
  assumes "table_ok pids" and "bfs_ok pids s" and "cur \<in> set (bf_queue s)"
  shows "\<exists>new. bf_queue (bfs_visit pids cur es s) = bf_queue s @ new
     \<and> bfs_ok pids (bfs_visit pids cur es s)
     \<and> set new = kid_rel pids es `` {cur} - set (bf_queue s)
     \<and> (\<forall>v. bf_depth (bfs_visit pids cur es s) v
            = (if v \<in> set new then bf_depth s cur + 1 else bf_depth s v))"
  using assms(2,3)
proof (induction es arbitrary: s)
  case Nil
  then show ?case by simp
next
  case (Cons e es)
  have cur: "cur < length pids" using Cons.prems by (auto simp: bfs_ok_def)
  show ?case
  proof (cases "be_blocking_pid e = pids ! cur \<and> be_blocked_pid e \<in> set pids")
    case False
    then have "bfs_visit pids cur (e # es) s = bfs_visit pids cur es s"
      by (auto simp: Let_def pid_index_neg)
    moreover have "kid_rel pids (e # es) `` {cur} = kid_rel pids es `` {cur}"
      using False by (auto simp: kid_rel_Cons) (metis nth_mem)
    ultimately show ?thesis using Cons.IH [OF Cons.prems] by (simp only:)
  next
    case True
    define c where "c = nat (pid_index pids (be_blocked_pid e))"
    have c: "c < length pids" "pids ! c = be_blocked_pid e"
      using pid_index_nth [of "be_blocked_pid e" pids] True by (simp_all add: c_def)
    have "{b. cur < length pids \<and> b < length pids \<and> pids ! b = be_blocked_pid e
             \<and> pids ! cur = be_blocking_pid e} = {c}"
      using c cur True assms(1) nth_eq_iff_index_eq [of pids _ c] by (auto simp: table_ok_def)
    then have kids: "kid_rel pids (e # es) `` {cur} = insert c (kid_rel pids es `` {cur})"
      by (simp add: kid_rel_Cons)
    show ?thesis
    proof (cases "c \<in> set (bf_queue s)")
      case seen: True
      then have "bfs_visit pids cur (e # es) s = bfs_visit pids cur es s"
        using True Cons.prems(1) by (simp add: Let_def bfs_ok_def c_def)
      moreover have "insert c A - set (bf_queue s) = A - set (bf_queue s)" for A
        using seen by auto
      ultimately show ?thesis using Cons.IH [OF Cons.prems] by (simp only: kids)
    next
      case False
      have v: "bfs_visit pids cur (e # es) s = bfs_visit pids cur es (bfs_enter cur c s)"
        using True False Cons.prems(1)
        by (simp add: Let_def bfs_ok_def pid_index_neg flip: c_def)
      note E = bfs_enter_ok [OF assms(1) Cons.prems c(1) False]
      have cc: "c \<noteq> cur" using False Cons.prems(2) by auto
      have "cur \<in> set (bf_queue (bfs_enter cur c s))" using Cons.prems(2) E(1) by simp
      from Cons.IH [OF E(3) this] obtain new where new:
        "bf_queue (bfs_visit pids cur es (bfs_enter cur c s)) = bf_queue s @ c # new"
        "bfs_ok pids (bfs_visit pids cur es (bfs_enter cur c s))"
        "set new = kid_rel pids es `` {cur} - set (bf_queue s @ [c])"
        "\<forall>v. bf_depth (bfs_visit pids cur es (bfs_enter cur c s)) v
           = (if v \<in> set new then ((bf_depth s)(c := bf_depth s cur + 1)) cur + 1
              else ((bf_depth s)(c := bf_depth s cur + 1)) v)"
        unfolding E(1,2) by auto
      show ?thesis
        unfolding v kids using new(1,2,3,4) cc False
        by (intro exI [of _ "c # new"]) auto
    qed
  qed
qed


section \<open>The walk\<close>

definition bfs_inv :: "int list \<Rightarrow> PgCircuitBlockerEdge list \<Rightarrow> nat \<Rightarrow> nat \<Rightarrow> bfs \<Rightarrow> bool" where
  "bfs_inv pids edges src qh s \<longleftrightarrow>
     bfs_ok pids s \<and> src \<in> set (bf_queue s) \<and> bf_depth s src = 0
     \<and> (\<forall>v \<in> set (bf_queue s). (src, v) \<in> kid_rel pids edges ^^ bf_depth s v)
     \<and> (\<forall>i < qh. i < length (bf_queue s) \<longrightarrow> (\<forall>c. (bf_queue s ! i, c) \<in> kid_rel pids edges \<longrightarrow>
          c \<in> set (bf_queue s) \<and> bf_depth s c \<le> bf_depth s (bf_queue s ! i) + 1))
     \<and> sorted (map (bf_depth s) (bf_queue s))
     \<and> (qh < length (bf_queue s) \<longrightarrow>
          (\<forall>v \<in> set (bf_queue s). bf_depth s v \<le> bf_depth s (bf_queue s ! qh) + 1))"

lemma bfs_inv_init:
  assumes "src < length pids"
  shows "bfs_inv pids edges src 0 (bfs_init src)"
  using assms by (simp add: bfs_inv_def bfs_ok_def bfs_init_def fun_eq_iff)

lemma bfs_inv_step:
  assumes t: "table_ok pids" and inv: "bfs_inv pids edges src qh s" and qh: "qh < length (bf_queue s)"
  shows "bfs_inv pids edges src (Suc qh) (bfs_visit pids (bf_queue s ! qh) edges s)"
proof -
  define cur where "cur = bf_queue s ! qh"
  define s' where "s' = bfs_visit pids cur edges s"
  have ok: "bfs_ok pids s" and src: "src \<in> set (bf_queue s)" "bf_depth s src = 0"
    and path: "\<And>v. v \<in> set (bf_queue s) \<Longrightarrow> (src, v) \<in> kid_rel pids edges ^^ bf_depth s v"
    and old: "\<And>i c. i < qh \<Longrightarrow> (bf_queue s ! i, c) \<in> kid_rel pids edges \<Longrightarrow>
          c \<in> set (bf_queue s) \<and> bf_depth s c \<le> bf_depth s (bf_queue s ! i) + 1"
    and sorted: "sorted (map (bf_depth s) (bf_queue s))"
    and near: "\<And>v. v \<in> set (bf_queue s) \<Longrightarrow> bf_depth s v \<le> bf_depth s cur + 1"
    using inv qh unfolding bfs_inv_def cur_def by auto
  have cur: "cur \<in> set (bf_queue s)" using qh by (simp add: cur_def)
  obtain new where q': "bf_queue s' = bf_queue s @ new" and ok': "bfs_ok pids s'"
    and new: "set new = kid_rel pids edges `` {cur} - set (bf_queue s)"
    and d': "\<And>v. bf_depth s' v = (if v \<in> set new then bf_depth s cur + 1 else bf_depth s v)"
    using bfs_visit_ok [OF t ok cur, of edges] unfolding s'_def by blast
  have same: "bf_depth s' v = bf_depth s v" if "v \<in> set (bf_queue s)" for v
    using that new by (auto simp: d')
  have fresh: "bf_depth s' v = bf_depth s cur + 1" if "v \<in> set new" for v using that by (simp add: d')
  have m: "map (bf_depth s') (bf_queue s') =
      map (bf_depth s) (bf_queue s) @ map (\<lambda>_. bf_depth s cur + 1) new"
    by (simp add: q' same fresh)
  have sorted': "sorted (map (bf_depth s') (bf_queue s'))"
    unfolding m using sorted near by (auto simp: sorted_append map_replicate_const)
  have near': "bf_depth s' v \<le> bf_depth s cur + 1" if "v \<in> set (bf_queue s')" for v
    using that near by (auto simp: q' same fresh)
  have path': "(src, v) \<in> kid_rel pids edges ^^ bf_depth s' v" if v: "v \<in> set (bf_queue s')" for v
  proof (cases "v \<in> set new")
    case True
    then have "(cur, v) \<in> kid_rel pids edges" using new by auto
    with path [OF cur] show ?thesis by (auto simp: fresh [OF True])
  next
    case False
    then have "v \<in> set (bf_queue s)" using v by (simp add: q')
    with path same show ?thesis by simp
  qed
  have closed': "c \<in> set (bf_queue s') \<and> bf_depth s' c \<le> bf_depth s' (bf_queue s' ! i) + 1"
    if i: "i < Suc qh" and k: "(bf_queue s' ! i, c) \<in> kid_rel pids edges" for i c
  proof -
    have qi: "bf_queue s' ! i = bf_queue s ! i" "bf_queue s ! i \<in> set (bf_queue s)"
      using i qh by (auto simp: q' nth_append)
    show ?thesis
    proof (cases "i = qh")
      case True
      then have "(cur, c) \<in> kid_rel pids edges" using k qi by (simp add: cur_def)
      then have "c \<in> set (bf_queue s')" using new by (auto simp: q')
      moreover have "bf_queue s' ! i = cur" using qi True by (simp add: cur_def)
      ultimately show ?thesis using near' same [OF cur] by simp
    next
      case False
      then have "i < qh" using i by simp
      from old [OF this] k qi have "c \<in> set (bf_queue s)" "bf_depth s c \<le> bf_depth s (bf_queue s ! i) + 1"
        by simp_all
      then show ?thesis using qi by (simp add: q' same)
    qed
  qed
  have "bf_depth s cur \<le> bf_depth s' (bf_queue s' ! Suc qh)" if l: "Suc qh < length (bf_queue s')"
  proof -
    have "bf_depth s' (bf_queue s' ! qh) \<le> bf_depth s' (bf_queue s' ! Suc qh)"
      using sorted_nth_mono [OF sorted', of qh "Suc qh"] l by simp
    moreover have "bf_queue s' ! qh = cur" using qh by (simp add: q' nth_append cur_def)
    ultimately show ?thesis using same [OF cur] by simp
  qed
  then have last': "bf_depth s' v \<le> bf_depth s' (bf_queue s' ! Suc qh) + 1"
    if "v \<in> set (bf_queue s')" "Suc qh < length (bf_queue s')" for v
    using near' [OF that(1)] that(2) by fastforce
  have "src \<in> set (bf_queue s')" "bf_depth s' src = 0" using src by (simp_all add: q' same)
  then show ?thesis
    unfolding bfs_inv_def cur_def [symmetric] s'_def [symmetric]
    using ok' path' closed' sorted' last' by blast
qed

lemma bfs_loop_inv:
  assumes "table_ok pids" and "bfs_inv pids edges src qh s"
  shows "\<exists>m. bfs_inv pids edges src m (bfs_loop pids edges qh s)
     \<and> length (bf_queue (bfs_loop pids edges qh s)) \<le> m"
  using assms
proof (induction pids edges qh s rule: bfs_loop.induct)
  case (1 pids edges qh s)
  show ?case
  proof (cases "qh < length (bf_queue s)")
    case True
    from "1.IH" [OF True "1.prems"(1) bfs_inv_step [OF "1.prems" True]] True
    show ?thesis by (simp add: bfs_loop.simps [of pids edges qh s])
  next
    case False
    with "1.prems" show ?thesis
      by (intro exI [of _ qh]) (simp add: bfs_loop.simps [of pids edges qh s])
  qed
qed

text \<open>The result of the walk: everything reachable, each at its distance.\<close>

lemma bfs_loop_result:
  fixes pids edges src
  assumes t: "table_ok pids" and src: "src < length pids"
  defines "s \<equiv> bfs_loop pids edges 0 (bfs_init src)"
  shows "bf_descendants s = int (card ((kid_rel pids edges)\<^sup>* `` {src})) - 1"
    and "bf_max_depth s = Max (bf_depth s ` ((kid_rel pids edges)\<^sup>* `` {src}))"
    and "(src, v) \<in> (kid_rel pids edges)\<^sup>* \<Longrightarrow> (src, v) \<in> kid_rel pids edges ^^ bf_depth s v"
    and "(src, v) \<in> kid_rel pids edges ^^ m \<Longrightarrow> bf_depth s v \<le> m"
proof -
  obtain m where inv: "bfs_inv pids edges src m s" and m: "length (bf_queue s) \<le> m"
    using bfs_loop_inv [OF t bfs_inv_init [OF src]] unfolding s_def by blast
  have ok: "bfs_ok pids s" and mem: "src \<in> set (bf_queue s)" "bf_depth s src = 0"
    and path: "\<And>v. v \<in> set (bf_queue s) \<Longrightarrow> (src, v) \<in> kid_rel pids edges ^^ bf_depth s v"
    and all: "\<forall>i < m. i < length (bf_queue s) \<longrightarrow> (\<forall>c. (bf_queue s ! i, c) \<in> kid_rel pids edges \<longrightarrow>
          c \<in> set (bf_queue s) \<and> bf_depth s c \<le> bf_depth s (bf_queue s ! i) + 1)"
    using inv unfolding bfs_inv_def by blast+
  have inv3: "c \<in> set (bf_queue s) \<and> bf_depth s c \<le> bf_depth s (bf_queue s ! i) + 1"
    if "i < length (bf_queue s)" "(bf_queue s ! i, c) \<in> kid_rel pids edges" for i c
    using all that m by (meson less_le_trans)
  have closed: "c \<in> set (bf_queue s) \<and> bf_depth s c \<le> bf_depth s v + 1"
    if "v \<in> set (bf_queue s)" "(v, c) \<in> kid_rel pids edges" for v c
    using that inv3 by (auto simp: in_set_conv_nth)
  have short: "v \<in> set (bf_queue s) \<and> bf_depth s v \<le> l" if "(src, v) \<in> kid_rel pids edges ^^ l" for l v
    using that
  proof (induction l arbitrary: v)
    case 0
    then show ?case using mem by simp
  next
    case (Suc l)
    then obtain u where "(src, u) \<in> kid_rel pids edges ^^ l" "(u, v) \<in> kid_rel pids edges" by auto
    with Suc.IH [of u] closed [of u v] show ?case by fastforce
  qed
  have reach: "(kid_rel pids edges)\<^sup>* `` {src} = set (bf_queue s)"
    using path short by (auto simp: rtrancl_is_UN_relpow)
  show "bf_descendants s = int (card ((kid_rel pids edges)\<^sup>* `` {src})) - 1"
    using ok by (simp add: reach bfs_ok_def distinct_card)
  show "bf_max_depth s = Max (bf_depth s ` ((kid_rel pids edges)\<^sup>* `` {src}))"
    using ok by (simp add: reach bfs_ok_def)
  show "(src, v) \<in> kid_rel pids edges ^^ bf_depth s v" if "(src, v) \<in> (kid_rel pids edges)\<^sup>*"
    using that path reach by auto
  show "bf_depth s v \<le> m" if "(src, v) \<in> kid_rel pids edges ^^ m" for m
    using short that by blast
qed


section \<open>From numbers to processes\<close>

definition blocker_roots :: "PgCircuitBlockerEdge list \<Rightarrow> int set" where
  "blocker_roots edges = be_blocking_pid ` set edges - be_blocked_pid ` set edges"

definition dependants :: "PgCircuitBlockerEdge list \<Rightarrow> int \<Rightarrow> int set" where
  "dependants edges r = {p. (p, r) \<in> (waits_for edges)\<^sup>+}"

definition wait_distance :: "PgCircuitBlockerEdge list \<Rightarrow> int \<Rightarrow> int \<Rightarrow> nat" where
  "wait_distance edges r p = (LEAST m. (p, r) \<in> waits_for edges ^^ m)"

lemma kid_relpow:
  assumes all: "set pids = graph_pids edges" and i: "i < length pids" and j: "j < length pids"
    and d: "distinct pids"
  shows "(i, j) \<in> kid_rel pids edges ^^ m \<longleftrightarrow> (pids ! j, pids ! i) \<in> waits_for edges ^^ m"
  using j
proof (induction m arbitrary: j)
  case 0
  then show ?case using i d by (auto simp: nth_eq_iff_index_eq)
next
  case (Suc m)
  have "(i, j) \<in> kid_rel pids edges ^^ Suc m
      \<longleftrightarrow> (\<exists>k < length pids. (i, k) \<in> kid_rel pids edges ^^ m \<and> (k, j) \<in> kid_rel pids edges)"
    by (auto simp: kid_rel_def)
  also have "\<dots> \<longleftrightarrow> (\<exists>k < length pids. (pids ! k, pids ! i) \<in> waits_for edges ^^ m
      \<and> (pids ! j, pids ! k) \<in> waits_for edges)"
    using Suc by (auto simp: kid_rel_def)
  also have "\<dots> \<longleftrightarrow> (\<exists>q \<in> set pids. (pids ! j, q) \<in> waits_for edges
      \<and> (q, pids ! i) \<in> waits_for edges ^^ m)"
    by (auto simp: in_set_conv_nth Bex_def)
  also have "\<dots> \<longleftrightarrow> (pids ! j, pids ! i) \<in> waits_for edges O waits_for edges ^^ m"
    using all by (auto simp: waits_for_def graph_pids_def)
  finally show ?case by (simp only: relpow.simps relpow_commute)
qed

lemma waits_for_reach_pids: "(p, r) \<in> (waits_for edges)\<^sup>+ \<Longrightarrow> p \<in> graph_pids edges"
  by (drule tranclD) (auto simp: waits_for_def graph_pids_def)

lemma walk_below_root:
  assumes t: "table_ok pids" and all: "set pids = graph_pids edges" and i: "i < length pids"
    and root: "pids ! i \<in> blocker_roots edges"
  shows "bf_descendants (bfs_loop pids edges 0 (bfs_init i)) = int (card (dependants edges (pids ! i)))"
    and "bf_max_depth (bfs_loop pids edges 0 (bfs_init i))
      = Max (insert 0 (wait_distance edges (pids ! i) ` dependants edges (pids ! i)))"
proof -
  define s where "s = bfs_loop pids edges 0 (bfs_init i)"
  define V where "V = (kid_rel pids edges)\<^sup>* `` {i}"
  have d: "distinct pids" using t by (simp add: table_ok_def)
  note R = bfs_loop_result [where edges = edges, OF t i, folded s_def V_def]
  have free: "(pids ! i, q) \<notin> waits_for edges" for q
    using root by (auto simp: blocker_roots_def waits_for_def)
  then have self: "pids ! i \<notin> dependants edges (pids ! i)"
    using tranclD [of "pids ! i" "pids ! i" "waits_for edges"] by (auto simp: dependants_def)
  have V: "V \<subseteq> {..<length pids}"
    using i by (auto simp: V_def kid_rel_def elim: rtranclE)
  have conn: "v \<in> V \<longleftrightarrow> (pids ! v, pids ! i) \<in> (waits_for edges)\<^sup>*" if "v < length pids" for v
    using kid_relpow [OF all i that d] by (simp add: V_def rtrancl_is_UN_relpow)
  have img: "(\<lambda>v. pids ! v) ` V = insert (pids ! i) (dependants edges (pids ! i))"
  proof
    show "(\<lambda>v. pids ! v) ` V \<subseteq> insert (pids ! i) (dependants edges (pids ! i))"
      using conn V by (auto simp: dependants_def rtrancl_eq_or_trancl)
    show "insert (pids ! i) (dependants edges (pids ! i)) \<subseteq> (\<lambda>v. pids ! v) ` V"
    proof
      fix p assume p: "p \<in> insert (pids ! i) (dependants edges (pids ! i))"
      then have "p \<in> set pids"
        using nth_mem [OF i] waits_for_reach_pids [of p "pids ! i" edges]
        by (auto simp: dependants_def all)
      then obtain v where v: "v < length pids" "pids ! v = p" by (auto simp: in_set_conv_nth)
      with p conn [OF v(1)] have "v \<in> V"
        by (auto simp: dependants_def rtrancl_eq_or_trancl)
      with v(2) show "p \<in> (\<lambda>v. pids ! v) ` V" by blast
    qed
  qed
  have inj: "inj_on (\<lambda>v. pids ! v) V" using d V by (intro inj_on_nth) auto
  have fin: "finite V" using V finite_subset by blast
  have "card V = card (insert (pids ! i) (dependants edges (pids ! i)))"
    using card_image [OF inj] img by simp
  moreover have "finite (dependants edges (pids ! i))"
    using fin img by (metis finite_imageI finite_insert)
  ultimately have "card V = Suc (card (dependants edges (pids ! i)))" using self by simp
  then show "bf_descendants s = int (card (dependants edges (pids ! i)))" by (simp add: R(1))
  have dist: "bf_depth s v = wait_distance edges (pids ! i) (pids ! v)" if "v \<in> V" for v
  proof -
    have v: "v < length pids" using that V by auto
    have "(LEAST m. (pids ! v, pids ! i) \<in> waits_for edges ^^ m) = bf_depth s v"
    proof (rule Least_equality)
      show "(pids ! v, pids ! i) \<in> waits_for edges ^^ bf_depth s v"
        using R(3) [of v] that kid_relpow [OF all i v d] by (simp add: V_def)
      show "bf_depth s v \<le> m" if "(pids ! v, pids ! i) \<in> waits_for edges ^^ m" for m
        using R(4) [of v m] that kid_relpow [OF all i v d] by simp
    qed
    then show ?thesis by (simp add: wait_distance_def)
  qed
  have "wait_distance edges (pids ! i) (pids ! i) = 0"
    unfolding wait_distance_def by (rule Least_equality) auto
  then have "wait_distance edges (pids ! i) ` insert (pids ! i) (dependants edges (pids ! i))
      = insert 0 (wait_distance edges (pids ! i) ` dependants edges (pids ! i))" by simp
  moreover have "bf_depth s ` V = wait_distance edges (pids ! i) ` ((\<lambda>v. pids ! v) ` V)"
    using dist by (auto simp: image_image)
  ultimately show "bf_max_depth s
      = Max (insert 0 (wait_distance edges (pids ! i) ` dependants edges (pids ! i)))"
    by (simp only: R(2) img)
qed


section \<open>Chain severity of the graph\<close>

definition root_severity :: "int list \<Rightarrow> PgCircuitBlockerEdge list \<Rightarrow> nat \<Rightarrow> int \<times> int" where
  "root_severity pids edges i =
     (let s = bfs_loop pids edges 0 (bfs_init i) in (bf_descendants s, int (bf_max_depth s)))"

lemma severity_fold:
  "let g' = fold (\<lambda>i g. if \<not> P i then g else chain_severity_root pids edges i g) xs g
   in bg_max_descendant_count g'
        = Max (insert (bg_max_descendant_count g) ((\<lambda>i. fst (root_severity pids edges i)) ` {i \<in> set xs. P i}))
      \<and> bg_max_chain_depth g'
        = Max (insert (bg_max_chain_depth g) ((\<lambda>i. snd (root_severity pids edges i)) ` {i \<in> set xs. P i}))
      \<and> bg_edges g' = bg_edges g"
proof (induction xs arbitrary: g)
  case Nil
  then show ?case by simp
next
  case (Cons x xs)
  show ?case
  proof (cases "P x")
    case False
    then have "{i \<in> set (x # xs). P i} = {i \<in> set xs. P i}" by auto
    then show ?thesis using Cons.IH [of g] False by (simp add: Let_def)
  next
    case True
    then have s: "{i. (i = x \<or> i \<in> set xs) \<and> P i} = insert x {i \<in> set xs. P i}" by auto
    define g1 where "g1 = chain_severity_root pids edges x g"
    have g1: "bg_max_descendant_count g1 = max (bg_max_descendant_count g) (fst (root_severity pids edges x))"
      "bg_max_chain_depth g1 = max (bg_max_chain_depth g) (snd (root_severity pids edges x))"
      "bg_edges g1 = bg_edges g"
      by (simp_all add: g1_def chain_severity_root_def root_severity_def Let_def)
    have mm: "Max (insert (max a b) A) = Max (insert a (insert b A))" if "finite A" for a b :: int and A
      using that by (cases "A = {}") (simp_all add: max.assoc)
    show ?thesis
      using Cons.IH [of g1] True
      by (simp add: s g1 mm Let_def flip: g1_def)
  qed
qed

definition graph_roots_severity :: "PgCircuitBlockerEdge list \<Rightarrow> int \<times> int" where
  "graph_roots_severity edges =
     (Max (insert 0 ((\<lambda>r. int (card (dependants edges r))) ` blocker_roots edges)),
      Max (insert 0 ((\<lambda>r. int (Max (insert 0 (wait_distance edges r ` dependants edges r))))
                       ` blocker_roots edges)))"

lemma compute_chain_severity_spec:
  assumes "card (graph_pids (bg_edges g)) \<le> PGC_MAX_BLOCKER_PIDS"
  shows "(bg_max_descendant_count (compute_chain_severity g), bg_max_chain_depth (compute_chain_severity g))
     = graph_roots_severity (bg_edges g)"
proof -
  define edges where "edges = bg_edges g"
  obtain pids ps where n: "numbered edges = (pids, ps)" by fastforce
  have t: "table_ok pids" by (rule numbered_sound(1) [OF n])
  have all: "set pids = graph_pids edges" by (rule numbered_complete(1) [OF n assms [folded edges_def]])
  have d: "distinct pids" using t by (simp add: table_ok_def)
  have both: "a < length pids \<and> b < length pids \<and> (pids ! a, pids ! b) \<in> waits_for edges"
    if "(a, b) \<in> set ps" for a b
    by (rule numbered_sound(3) [OF n that])
  have cover: "\<exists>(a, b) \<in> set ps. pids ! a = u \<and> pids ! b = v" if "(u, v) \<in> waits_for edges" for u v
    using bspec [OF numbered_complete(2) [OF n assms [folded edges_def]] that] by simp
  define P where "P = (\<lambda>i. i \<in> snd ` set ps \<and> i \<notin> fst ` set ps)"
  have root: "P i \<longleftrightarrow> pids ! i \<in> blocker_roots edges" if i: "i < length pids" for i
  proof -
    have "i \<in> fst ` set ps \<longleftrightarrow> pids ! i \<in> be_blocked_pid ` set edges"
    proof
      assume "i \<in> fst ` set ps"
      then show "pids ! i \<in> be_blocked_pid ` set edges" using both by (force simp: waits_for_def)
    next
      assume "pids ! i \<in> be_blocked_pid ` set edges"
      then obtain v where "(pids ! i, v) \<in> waits_for edges" by (auto simp: waits_for_def)
      then obtain a b where ab: "(a, b) \<in> set ps" "pids ! a = pids ! i" using cover by blast
      then have "a = i" using both [OF ab(1)] i d by (simp add: nth_eq_iff_index_eq)
      with ab(1) show "i \<in> fst ` set ps" by force
    qed
    moreover have "i \<in> snd ` set ps \<longleftrightarrow> pids ! i \<in> be_blocking_pid ` set edges"
    proof
      assume "i \<in> snd ` set ps"
      then show "pids ! i \<in> be_blocking_pid ` set edges" using both by (force simp: waits_for_def)
    next
      assume "pids ! i \<in> be_blocking_pid ` set edges"
      then obtain u where "(u, pids ! i) \<in> waits_for edges" by (auto simp: waits_for_def)
      then obtain a b where ab: "(a, b) \<in> set ps" "pids ! b = pids ! i" using cover by blast
      then have "b = i" using both [OF ab(1)] i d by (simp add: nth_eq_iff_index_eq)
      with ab(1) show "i \<in> snd ` set ps" by force
    qed
    ultimately show ?thesis by (simp add: P_def blocker_roots_def)
  qed
  have roots: "(\<lambda>i. pids ! i) ` {i \<in> set [0..<length pids]. P i} = blocker_roots edges"
  proof -
    have "blocker_roots edges \<subseteq> set pids" by (auto simp: all blocker_roots_def graph_pids_def)
    then show ?thesis using root by (force simp: in_set_conv_nth)
  qed
  have sev: "root_severity pids edges i = (int (card (dependants edges (pids ! i))),
      int (Max (insert 0 (wait_distance edges (pids ! i) ` dependants edges (pids ! i)))))"
    if i: "i \<in> {i \<in> set [0..<length pids]. P i}" for i
  proof -
    from i have "i < length pids" "pids ! i \<in> blocker_roots edges" using root by auto
    from walk_below_root [OF t all this] show ?thesis by (simp only: root_severity_def Let_def)
  qed
  define g0 where "g0 = g\<lparr>bg_max_chain_depth := 0, bg_max_descendant_count := 0\<rparr>"
  have "compute_chain_severity g =
      fold (\<lambda>i g. if \<not> P i then g else chain_severity_root pids edges i g) [0..<length pids] g0"
    using n by (simp add: compute_chain_severity_def severity_register_eq numbered_def P_def g0_def
        edges_def Let_def del: upt_Suc cong: if_cong)
  with severity_fold [of P pids edges "[0..<length pids]" g0]
  have c: "bg_max_descendant_count (compute_chain_severity g)
        = Max (insert 0 ((\<lambda>i. fst (root_severity pids edges i)) ` {i \<in> set [0..<length pids]. P i}))"
    "bg_max_chain_depth (compute_chain_severity g)
        = Max (insert 0 ((\<lambda>i. snd (root_severity pids edges i)) ` {i \<in> set [0..<length pids]. P i}))"
    by (simp_all only: Let_def) (simp_all add: g0_def)
  have "(\<lambda>i. fst (root_severity pids edges i)) ` {i \<in> set [0..<length pids]. P i}
      = (\<lambda>r. int (card (dependants edges r))) ` blocker_roots edges"
    unfolding roots [symmetric] image_image by (rule image_cong [OF refl]) (simp only: sev fst_conv)
  moreover have "(\<lambda>i. snd (root_severity pids edges i)) ` {i \<in> set [0..<length pids]. P i}
      = (\<lambda>r. int (Max (insert 0 (wait_distance edges r ` dependants edges r)))) ` blocker_roots edges"
    unfolding roots [symmetric] image_image by (rule image_cong [OF refl]) (simp only: sev snd_conv)
  ultimately show ?thesis
    unfolding graph_roots_severity_def c edges_def [symmetric] by (simp only:)
qed

end
