(* ===== verification/Pgc_Blocker_Build.thy ===== *)
theory Pgc_Blocker_Build
  imports Pgc_Blocker_Chain
begin

text \<open>
  Correctness of \<open>pg_circuit_build_blocker_graph\<close>: the scan of the lock-manager snapshot against
  the list of all conflicting waiter/holder pairs, and the properties of the finished graph.
\<close>

section \<open>The pairs of a snapshot\<close>

text \<open>An edge whose relation name cannot be looked up is the error of the lookup.\<close>

definition waiter_edges ::
    "pg_server \<Rightarrow> timestamp \<Rightarrow> LockInstance list \<Rightarrow> LockInstance \<Rightarrow> (report + PgCircuitBlockerEdge) list" where
  "waiter_edges pg now locks w =
     map (make_edge pg now (blocked_for_seconds now w) w) (filter (holder_blocks pg w) locks)"

definition snapshot_edges ::
    "pg_server \<Rightarrow> timestamp \<Rightarrow> LockInstance list \<Rightarrow> LockInstance list
     \<Rightarrow> (report + PgCircuitBlockerEdge) list" where
  "snapshot_edges pg now locks ws = concat (map (waiter_edges pg now locks) (filter (is_waiter pg) ws))"

lemma snapshot_edges_simps [simp]:
  "snapshot_edges pg now locks [] = []"
  "snapshot_edges pg now locks (w # ws) =
     (if is_waiter pg w then waiter_edges pg now locks w else []) @ snapshot_edges pg now locks ws"
  by (simp_all add: snapshot_edges_def)

lemma make_edge_fields:
  assumes "make_edge pg now d w h = Inr e"
  shows "be_blocked_pid e = li_pid w" "be_blocking_pid e = li_pid h" "be_blocked_for_seconds e = d"
  using assms
  by (auto simp: make_edge_def fill_relation_from_locktag_def Let_def rbind_eq_Inr split: if_split_asm)

lemma make_edge_raises:
  assumes "make_edge pg now d w h = Inl e"
  shows "get_rel_name pg (locktag_field2 (li_locktag w)) = Inl e"
  using assms
  by (auto simp: make_edge_def fill_relation_from_locktag_def pg_circuit_relation_name_def Let_def
      rbind_eq_Inl split: if_split_asm)


lemma snapshot_edges_raises:
  assumes "Inl e \<in> set (snapshot_edges pg now locks ws)"
  shows "\<exists>r. get_rel_name pg r = Inl e"
proof -
  from assms obtain w h d where "Inl e = make_edge pg now d w h"
    by (auto simp: snapshot_edges_def waiter_edges_def)
  from make_edge_raises [OF this [symmetric]] show ?thesis ..
qed


section \<open>The scan invariant\<close>

definition scan_ok :: "lock_scan \<Rightarrow> bool" where
  "scan_ok s \<longleftrightarrow>
     length (sc_edges s) \<le> PGC_MAX_BLOCKER_EDGES
     \<and> distinct (sc_blocked_pids s) \<and> set (sc_blocked_pids s) = be_blocked_pid ` set (sc_edges s)
     \<and> distinct (sc_blocking_pids s) \<and> set (sc_blocking_pids s) = be_blocking_pid ` set (sc_edges s)
     \<and> (\<forall>e \<in> set (sc_edges s). be_blocked_for_seconds e \<le> sc_max_blocked_for s)"

lemma scan_ok_init: "scan_ok lock_scan_init"
  by (simp add: scan_ok_def lock_scan_init_def)

lemma add_pid_ok:
  assumes "distinct pids" "set pids = f ` set es" "length es < PGC_MAX_BLOCKER_EDGES"
  shows "distinct (add_pid p pids) \<and> set (add_pid p pids) = insert p (set pids)"
proof -
  have "length pids = card (f ` set es)" using assms(1,2) distinct_card by fastforce
  also have "\<dots> \<le> length es" using card_image_le [of "set es" f] card_length [of es] by simp
  finally show ?thesis using assms(1,3) by (auto simp: add_pid_def)
qed

text \<open>
  A scan over pairs: it raises with the error of one of the first 256 pairs, or it has taken
  the edges of all of these.
\<close>

lemma scan_holders_spec:
  assumes "scan_ok s" and "d \<le> sc_max_blocked_for s"
  shows "case scan_holders pg now d w hs s of
     Inl e \<Rightarrow> Inl e \<in> set (take PGC_MAX_BLOCKER_EDGES
         (map Inr (sc_edges s) @ map (make_edge pg now d w) (filter (holder_blocks pg w) hs)))
   | Inr (s', full) \<Rightarrow>
     scan_ok s' \<and> sc_max_blocked_for s' = sc_max_blocked_for s
     \<and> map Inr (sc_edges s') = take PGC_MAX_BLOCKER_EDGES
         (map Inr (sc_edges s) @ map (make_edge pg now d w) (filter (holder_blocks pg w) hs))
     \<and> (full \<longrightarrow> length (sc_edges s') = PGC_MAX_BLOCKER_EDGES)"
  using assms
proof (induction hs arbitrary: s)
  case Nil
  then show ?case by (simp add: scan_ok_def)
next
  case (Cons h hs)
  show ?case
  proof (cases "holder_blocks pg w h")
    case False
    then have "scan_holders pg now d w (h # hs) s = scan_holders pg now d w hs s"
      "filter (holder_blocks pg w) (h # hs) = filter (holder_blocks pg w) hs" by simp_all
    with Cons.IH [OF Cons.prems] show ?thesis by (simp only:)
  next
    case blocks: True
    show ?thesis
    proof (cases "PGC_MAX_BLOCKER_EDGES \<le> length (sc_edges s)")
      case full: True
      then have "length (sc_edges s) = PGC_MAX_BLOCKER_EDGES"
        using Cons.prems(1) by (simp add: scan_ok_def)
      then show ?thesis using full blocks Cons.prems(1) by simp
    next
      case room: False
      show ?thesis
      proof (cases "make_edge pg now d w h")
        case (Inl e)
        then have "scan_holders pg now d w (h # hs) s = Inl e" using blocks room by simp
        moreover have "Inl e \<in> set (take (PGC_MAX_BLOCKER_EDGES - length (sc_edges s))
            (Inl e # map (make_edge pg now d w) (filter (holder_blocks pg w) hs)))"
          using room by (cases "PGC_MAX_BLOCKER_EDGES - length (sc_edges s)") simp_all
        ultimately show ?thesis using blocks Inl by simp
      next
        case (Inr edge)
        note f = make_edge_fields [OF Inr]
        define s1 where "s1 = s\<lparr>sc_edges := sc_edges s @ [edge],
                  sc_blocked_pids := add_pid (li_pid w) (sc_blocked_pids s),
                  sc_blocking_pids := add_pid (li_pid h) (sc_blocking_pids s)\<rparr>"
        have "scan_ok s1"
          using room Cons.prems add_pid_ok [of "sc_blocked_pids s" be_blocked_pid "sc_edges s" "li_pid w"]
            add_pid_ok [of "sc_blocking_pids s" be_blocking_pid "sc_edges s" "li_pid h"]
          by (simp add: scan_ok_def s1_def f)
        moreover have "d \<le> sc_max_blocked_for s1" using Cons.prems(2) by (simp add: s1_def)
        ultimately have IH: "case scan_holders pg now d w hs s1 of
             Inl e \<Rightarrow> Inl e \<in> set (take PGC_MAX_BLOCKER_EDGES
                 (map Inr (sc_edges s1) @ map (make_edge pg now d w) (filter (holder_blocks pg w) hs)))
           | Inr (s', full) \<Rightarrow>
             scan_ok s' \<and> sc_max_blocked_for s' = sc_max_blocked_for s1
             \<and> map Inr (sc_edges s') = take PGC_MAX_BLOCKER_EDGES
                 (map Inr (sc_edges s1) @ map (make_edge pg now d w) (filter (holder_blocks pg w) hs))
             \<and> (full \<longrightarrow> length (sc_edges s') = PGC_MAX_BLOCKER_EDGES)"
          by (rule Cons.IH)
        have run: "scan_holders pg now d w (h # hs) s = scan_holders pg now d w hs s1"
          using blocks room by (simp add: s1_def Inr)
        have es: "map Inr (sc_edges s) @ map (make_edge pg now d w) (filter (holder_blocks pg w) (h # hs))
            = map Inr (sc_edges s1) @ map (make_edge pg now d w) (filter (holder_blocks pg w) hs)"
          using blocks by (simp add: s1_def Inr)
        have mx: "sc_max_blocked_for s = sc_max_blocked_for s1" by (simp add: s1_def)
        show ?thesis unfolding run es mx by (rule IH)
      qed
    qed
  qed
qed

lemma scan_waiters_spec:
  assumes "scan_ok s"
  shows "case scan_waiters pg now locks ws s of
     Inl e \<Rightarrow> Inl e \<in> set (take PGC_MAX_BLOCKER_EDGES (map Inr (sc_edges s) @ snapshot_edges pg now locks ws))
   | Inr s' \<Rightarrow> scan_ok s' \<and> map Inr (sc_edges s')
         = take PGC_MAX_BLOCKER_EDGES (map Inr (sc_edges s) @ snapshot_edges pg now locks ws)"
  using assms
proof (induction ws arbitrary: s)
  case Nil
  then show ?case by (simp add: scan_ok_def)
next
  case (Cons w ws)
  show ?case
  proof (cases "is_waiter pg w")
    case False
    then have "scan_waiters pg now locks (w # ws) s = scan_waiters pg now locks ws s"
      "snapshot_edges pg now locks (w # ws) = snapshot_edges pg now locks ws" by simp_all
    with Cons.IH [OF Cons.prems] show ?thesis by (simp only:)
  next
    case True
    define d where "d = blocked_for_seconds now w"
    define s1 where "s1 = (if d > sc_max_blocked_for s then s\<lparr>sc_max_blocked_for := d\<rparr> else s)"
    have s1: "scan_ok s1" "d \<le> sc_max_blocked_for s1" "sc_edges s1 = sc_edges s"
      using Cons.prems by (auto simp: s1_def scan_ok_def intro: order_trans)
    have run: "scan_waiters pg now locks (w # ws) s
        = rbind (scan_holders pg now d w locks s1)
            (\<lambda>(s', done). if done then Inr s' else scan_waiters pg now locks ws s')"
      by (simp only: scan_waiters.simps True Let_def simp_thms if_False flip: d_def s1_def)
    note H = scan_holders_spec [OF s1(1,2), of pg now w locks, unfolded s1(3),
        folded waiter_edges_def [of pg now locks w, folded d_def]]
    have app: "map Inr (sc_edges s) @ snapshot_edges pg now locks (w # ws)
        = (map Inr (sc_edges s) @ waiter_edges pg now locks w) @ snapshot_edges pg now locks ws"
      using True by simp
    show ?thesis
    proof (cases "scan_holders pg now d w locks s1")
      case (Inl e)
      with H have "Inl e \<in> set (take PGC_MAX_BLOCKER_EDGES (map Inr (sc_edges s) @ waiter_edges pg now locks w))"
        by simp
      then have "Inl e \<in> set (take PGC_MAX_BLOCKER_EDGES
          ((map Inr (sc_edges s) @ waiter_edges pg now locks w) @ snapshot_edges pg now locks ws))"
        by (subst take_append) auto
      then show ?thesis unfolding run app Inl by simp
    next
      case (Inr p)
      obtain s2 full where p: "p = (s2, full)" by fastforce
      from H have S: "scan_ok s2"
        "map Inr (sc_edges s2) = take PGC_MAX_BLOCKER_EDGES (map Inr (sc_edges s) @ waiter_edges pg now locks w)"
        "full \<Longrightarrow> length (sc_edges s2) = PGC_MAX_BLOCKER_EDGES"
        by (simp_all add: Inr p)
      have tt: "take n (take n xs @ ys) = take n (xs @ ys)"
        for n and xs ys :: "(report + PgCircuitBlockerEdge) list"
        by (simp add: min_def)
      show ?thesis
      proof (cases full)
        case False
        then have "scan_waiters pg now locks (w # ws) s = scan_waiters pg now locks ws s2"
          by (simp only: run Inr p rbind_simps prod.case if_False)
        with Cons.IH [OF S(1)] show ?thesis by (simp only: app S(2) tt)
      next
        case full: True
        then have "scan_waiters pg now locks (w # ws) s = Inr s2"
          by (simp only: run Inr p rbind_simps prod.case if_True)
        moreover have "take PGC_MAX_BLOCKER_EDGES (map Inr (sc_edges s2) @ snapshot_edges pg now locks ws)
            = map Inr (sc_edges s2)"
          using S(3) [OF full] by simp
        ultimately show ?thesis using S(1) by (simp only: app S(2) tt sum.case simp_thms)
      qed
    qed
  qed
qed

lemma chain_severity_fold_frame:
  "\<exists>a b. fold (\<lambda>i g. if P i then g else chain_severity_root pids edges i g) xs g
     = g\<lparr>bg_max_chain_depth := a, bg_max_descendant_count := b\<rparr>"
proof (induction xs arbitrary: g)
  case Nil
  show ?case
    by (rule exI [of _ "bg_max_chain_depth g"], rule exI [of _ "bg_max_descendant_count g"]) simp
next
  case (Cons x xs)
  have "\<exists>a b. chain_severity_root pids edges x g = g\<lparr>bg_max_chain_depth := a, bg_max_descendant_count := b\<rparr>"
  proof (intro exI)
    show "chain_severity_root pids edges x g =
        g\<lparr>bg_max_chain_depth := bg_max_chain_depth (chain_severity_root pids edges x g),
          bg_max_descendant_count := bg_max_descendant_count (chain_severity_root pids edges x g)\<rparr>"
      by (simp add: chain_severity_root_def Let_def)
  qed
  then obtain a b where
    x: "chain_severity_root pids edges x g = g\<lparr>bg_max_chain_depth := a, bg_max_descendant_count := b\<rparr>"
    by blast
  show ?case using Cons.IH [of g] Cons.IH [of "chain_severity_root pids edges x g"]
    by (cases "P x") (simp_all add: x)
qed

lemma compute_chain_severity_frame:
  "\<exists>a b. compute_chain_severity g = g\<lparr>bg_max_chain_depth := a, bg_max_descendant_count := b\<rparr>"
proof -
  obtain pids blocked blocker where
    r: "severity_register (bg_edges g) ([], \<lambda>_. False, \<lambda>_. False) = (pids, blocked, blocker)"
    by (metis prod.exhaust)
  obtain a b where "fold (\<lambda>i g'. if \<not> blocker i \<or> blocked i then g'
        else chain_severity_root pids (bg_edges g) i g') [0..<length pids]
        (g\<lparr>bg_max_chain_depth := 0, bg_max_descendant_count := 0\<rparr>)
      = g\<lparr>bg_max_chain_depth := 0, bg_max_descendant_count := 0,
          bg_max_chain_depth := a, bg_max_descendant_count := b\<rparr>"
    using chain_severity_fold_frame [of "\<lambda>i. \<not> blocker i \<or> blocked i" pids "bg_edges g" "[0..<length pids]"
        "g\<lparr>bg_max_chain_depth := 0, bg_max_descendant_count := 0\<rparr>"] by blast
  then have "compute_chain_severity g = g\<lparr>bg_max_chain_depth := a, bg_max_descendant_count := b\<rparr>"
    by (simp add: compute_chain_severity_def r Let_def cong: if_cong)
  then show ?thesis by blast
qed

lemma compute_chain_severity_keeps:
  "bg_edges (compute_chain_severity g) = bg_edges g"
  "bg_blocked_sessions (compute_chain_severity g) = bg_blocked_sessions g"
  "bg_blocking_sessions (compute_chain_severity g) = bg_blocking_sessions g"
  "bg_max_blocked_for_seconds (compute_chain_severity g) = bg_max_blocked_for_seconds g"
  "bg_has_cycle (compute_chain_severity g) = bg_has_cycle g"
  using compute_chain_severity_frame [of g] by auto

lemma graph_of_scan_fields:
  assumes "scan_ok s"
  shows "bg_edges (graph_of_scan s) = sc_edges s"
    and "bg_blocked_sessions (graph_of_scan s) = int (card (be_blocked_pid ` set (sc_edges s)))"
    and "bg_blocking_sessions (graph_of_scan s) = int (card (be_blocking_pid ` set (sc_edges s)))"
    and "e \<in> set (sc_edges s) \<Longrightarrow> be_blocked_for_seconds e \<le> bg_max_blocked_for_seconds (graph_of_scan s)"
    and "bg_has_cycle (graph_of_scan s) = graph_has_cycle (sc_edges s)"
  using assms distinct_card [of "sc_blocked_pids s"] distinct_card [of "sc_blocking_pids s"]
  by (simp_all add: graph_of_scan_def Let_def compute_chain_severity_keeps scan_ok_def)


lemma build_graph_raises:
  assumes "pg_circuit_build_blocker_graph pg = Inl e"
  shows "GetLockStatusData pg = Inl e \<or> (\<exists>r. get_rel_name pg r = Inl e)"
proof (cases "GetLockStatusData pg")
  case (Inl e')
  with assms show ?thesis by (simp add: pg_circuit_build_blocker_graph_def)
next
  case (Inr locks)
  then obtain ls where s: "scan_waiters pg (now_locks pg) ls ls lock_scan_init = Inl e"
    using assms
    by (auto simp: pg_circuit_build_blocker_graph_def rbind_eq_Inl split: option.splits)
  have "Inl e \<in> set (take PGC_MAX_BLOCKER_EDGES (snapshot_edges pg (now_locks pg) ls ls))"
    using scan_waiters_spec [OF scan_ok_init, of pg "now_locks pg" ls ls]
    unfolding s by (simp add: lock_scan_init_def)
  from snapshot_edges_raises [OF in_set_takeD [OF this]] show ?thesis ..
qed

end
