(* ===== verification/Pgc_Runtime.thy ===== *)
theory Pgc_Runtime
  imports Pgc_Transactions Pgc_Replication Pgc_Wal Pgc_Blocker_Build
begin

text \<open>
  \<open>src/locks.c\<close> and \<open>pg_circuit_collect_runtime_state\<close> of \<open>src/runtime_state.c\<close>: the
  collectors run in order over a cleared state. The lock, replication and WAL collectors can
  raise an error of the server; the WAL collector also samples the shared cache.
\<close>

definition lock_reset :: "PgCircuitRuntimeState \<Rightarrow> PgCircuitRuntimeState" where
  "lock_reset state =
     state\<lparr>rs_blocked_sessions := 0, rs_blocking_sessions := 0, rs_max_lock_wait_seconds := 0,
           rs_lock_cycle_detected := False, rs_max_lock_chain_depth := 0,
           rs_max_lock_descendants := 0\<rparr>"

definition pg_circuit_collect_lock_signals ::
    "pg_server \<Rightarrow> PgCircuitRuntimeState \<Rightarrow> report + PgCircuitRuntimeState" where
  "pg_circuit_collect_lock_signals pg state =
     (let state = lock_reset state
      in case pg_circuit_build_blocker_graph pg of
           Inl e \<Rightarrow> Inl e
         | Inr graph \<Rightarrow>
             Inr (state\<lparr>rs_blocked_sessions := bg_blocked_sessions graph,
                        rs_blocking_sessions := bg_blocking_sessions graph,
                        rs_max_lock_wait_seconds := bg_max_blocked_for_seconds graph,
                        rs_lock_cycle_detected := bg_has_cycle graph,
                        rs_max_lock_chain_depth := bg_max_chain_depth graph,
                        rs_max_lock_descendants := bg_max_descendant_count graph\<rparr>))"

definition runtime_defaults :: PgCircuitRuntimeState where
  "runtime_defaults =
     zero_runtime\<lparr>rs_max_write_lag_seconds := - 1, rs_max_flush_lag_seconds := - 1,
                  rs_max_replay_lag_seconds := - 1\<rparr>"

definition pg_circuit_collect_runtime_state ::
    "pg_server \<Rightarrow> config \<Rightarrow> PgCircuitSharedState option
     \<Rightarrow> (report + PgCircuitRuntimeState) \<times> PgCircuitSharedState option" where
  "pg_circuit_collect_runtime_state pg cfg shared =
     (let state = pg_circuit_collect_transaction_signals pg cfg runtime_defaults
      in case pg_circuit_collect_lock_signals pg state of
           Inl e \<Rightarrow> (Inl e, shared)
         | Inr state \<Rightarrow>
             (case pg_circuit_collect_replication_signals pg cfg state of
                Inl e \<Rightarrow> (Inl e, shared)
              | Inr state \<Rightarrow>
                  (case pg_circuit_collect_wal_signals pg cfg shared state of
                     (Inl e, shared) \<Rightarrow> (Inl e, shared)
                   | (Inr state, shared) \<Rightarrow>
                       (Inr (pg_circuit_compute_pressure_and_mode cfg state), shared))))"


section \<open>Facts the callers use\<close>

lemma collect_runtime_shared_Some:
  "\<exists>w. snd (pg_circuit_collect_runtime_state pg cfg (Some st)) = Some (st\<lparr>ss_wal := w\<rparr>)"
proof -
  have keep: "\<exists>w. Some st = Some (st\<lparr>ss_wal := w\<rparr>)" by (intro exI [of _ "ss_wal st"]) simp
  have "\<exists>w. snd (case pg_circuit_collect_wal_signals pg cfg (Some st) s of
                     (Inl e, shared) \<Rightarrow> (Inl e, shared)
                   | (Inr state, shared) \<Rightarrow>
                       (Inr (pg_circuit_compute_pressure_and_mode cfg state), shared))
        = Some (st\<lparr>ss_wal := w\<rparr>)" for s
    using collect_wal_shared [of pg cfg st s]
    by (cases "pg_circuit_collect_wal_signals pg cfg (Some st) s") (simp split: sum.split)
  with keep show ?thesis
    by (simp add: pg_circuit_collect_runtime_state_def Let_def split: sum.split)
qed

lemma collect_runtime_shared_None [simp]:
  "snd (pg_circuit_collect_runtime_state pg cfg None) = None"
proof -
  have "snd (case pg_circuit_collect_wal_signals pg cfg None s of
                     (Inl e, shared) \<Rightarrow> (Inl e, shared)
                   | (Inr state, shared) \<Rightarrow>
                       (Inr (pg_circuit_compute_pressure_and_mode cfg state), shared)) = None" for s
    using collect_wal_NULL [of pg cfg s]
    by (cases "pg_circuit_collect_wal_signals pg cfg None s") (simp split: sum.split)
  then show ?thesis
    by (simp add: pg_circuit_collect_runtime_state_def Let_def split: sum.split)
qed

lemma compute_pressure_fields:
  "rs_mode (pg_circuit_compute_pressure_and_mode cfg s) = PGC_SAFETY_NORMAL"
  "rs_pressure_score (pg_circuit_compute_pressure_and_mode cfg s) =
     pg_circuit_pressure_score_combine5
       (rs_pressure_tx (pg_circuit_compute_pressure_and_mode cfg s))
       (rs_pressure_locks (pg_circuit_compute_pressure_and_mode cfg s))
       (rs_pressure_replication (pg_circuit_compute_pressure_and_mode cfg s))
       (rs_pressure_wal (pg_circuit_compute_pressure_and_mode cfg s))
       (rs_pressure_connections (pg_circuit_compute_pressure_and_mode cfg s))"
  by (simp_all add: pg_circuit_compute_pressure_and_mode_def pg_circuit_resolve_safety_mode_def Let_def)

lemma collect_runtime_computed:
  assumes "fst (pg_circuit_collect_runtime_state pg cfg shared) = Inr r"
  shows "\<exists>s. r = pg_circuit_compute_pressure_and_mode cfg s"
  using assms
  by (auto simp: pg_circuit_collect_runtime_state_def Let_def split: sum.splits prod.splits)

lemma collect_runtime_mode:
  "fst (pg_circuit_collect_runtime_state pg cfg shared) = Inr r \<Longrightarrow> rs_mode r = PGC_SAFETY_NORMAL"
  using collect_runtime_computed compute_pressure_fields(1) by blast


text \<open>
  The errors a collection can raise: those of the lock manager, of a relation name lookup and of
  the WAL statistics, and the injected fault of the replication collector.
\<close>

lemma collect_runtime_raises:
  assumes "fst (pg_circuit_collect_runtime_state pg cfg shared) = Inl e"
  shows "GetLockStatusData pg = Inl e \<or> (\<exists>r. get_rel_name pg r = Inl e)
     \<or> pgstat_fetch_stat_wal pg = Inl e
     \<or> pg_circuit_fault_is (pg_strcaseeq pg) cfg ''replication'' \<and> sqlerrcode e = ERRCODE_INTERNAL_ERROR"
proof -
  have l: "GetLockStatusData pg = Inl x \<or> (\<exists>r. get_rel_name pg r = Inl x)"
    if "pg_circuit_collect_lock_signals pg s = Inl x" for s x
    using that build_graph_raises [of pg x]
    by (simp add: pg_circuit_collect_lock_signals_def Let_def split: sum.splits)
  have r: "pg_circuit_fault_is (pg_strcaseeq pg) cfg ''replication'' \<and> sqlerrcode x = ERRCODE_INTERNAL_ERROR"
    if "pg_circuit_collect_replication_signals pg cfg s = Inl x" for s x
    using that by (auto simp: pg_circuit_collect_replication_signals_def Let_def elog_def
        split: if_splits option.splits)
  have wl: "pgstat_fetch_stat_wal pg = Inl x"
    if "pg_circuit_collect_wal_signals pg cfg sh s = (Inl x, sh')" for sh sh' s x
    using that by (simp add: pg_circuit_collect_wal_signals_def Let_def
        split: sum.splits option.splits prod.splits)
  show ?thesis
    using assms
    by (simp add: pg_circuit_collect_runtime_state_def Let_def split: sum.splits prod.splits)
      (auto dest: l r wl)
qed

lemma collect_runtime_returns:
  assumes "\<And>e. GetLockStatusData pg \<noteq> Inl e" and "\<And>r e. get_rel_name pg r \<noteq> Inl e"
    and "\<And>e. pgstat_fetch_stat_wal pg \<noteq> Inl e"
    and "\<not> pg_circuit_fault_is (pg_strcaseeq pg) cfg ''replication''"
  shows "\<exists>r sh'. pg_circuit_collect_runtime_state pg cfg sh = (Inr r, sh')"
  using collect_runtime_raises [of pg cfg sh] assms
  by (cases "fst (pg_circuit_collect_runtime_state pg cfg sh)") (auto simp: prod_eq_iff)

end
