(* ===== verification/Pgc_Risk_Engine.thy ===== *)
theory Pgc_Risk_Engine
  imports Pgc_Pressure
begin

text \<open>
  \<open>src/risk_engine.c\<close>: the rules PGC001-PGC005 and PGC012-PGC016 that score a classified
  statement, the final decision from the configured mode and thresholds, and the parsers of the
  SQL-level inspection functions.
\<close>

record PgCircuitFinding =
  fi_rule_id :: string
  fi_level :: PgCircuitRiskLevel
  fi_score_contribution :: int
  fi_reason :: string
  fi_title :: string
  fi_remediation :: string
  fi_relation_oid :: oid
  fi_relation_name :: string
  fi_estimated_rows :: double
  fi_relation_size :: int

record PgCircuitRiskAssessment =
  as_score :: int
  as_level :: PgCircuitRiskLevel
  as_should_warn :: bool
  as_should_block :: bool
  as_decision :: PgCircuitDecision
  as_findings :: "PgCircuitFinding list"
  as_primary_rule :: string

record PgCircuitQueryInfo =
  qi_kind :: PgCircuitQueryKind
  qi_relation_oid :: oid
  qi_relation_name :: string
  qi_relation_qualname :: string
  qi_estimated_rows :: double
  qi_relation_size :: int
  qi_has_where :: bool
  qi_is_write :: bool
  qi_concurrent :: bool
  qi_rewrite_likely :: bool
  qi_lock_class :: PgCircuitLockClass
  qi_workload_class :: PgCircuitWorkloadClass
  qi_ddl_detail :: string

definition zero_qinfo :: PgCircuitQueryInfo where
  "zero_qinfo =
     \<lparr>qi_kind = PGC_QKIND_OTHER, qi_relation_oid = 0, qi_relation_name = '''',
      qi_relation_qualname = '''', qi_estimated_rows = 0, qi_relation_size = 0,
      qi_has_where = False, qi_is_write = False, qi_concurrent = False,
      qi_rewrite_likely = False, qi_lock_class = PGC_LOCK_NONE,
      qi_workload_class = PGC_WCLASS_READ, qi_ddl_detail = ''''\<rparr>"


section \<open>Findings\<close>

definition pg_circuit_init_assessment :: PgCircuitRiskAssessment where
  "pg_circuit_init_assessment =
     \<lparr>as_score = 0, as_level = PGC_RISK_INFO, as_should_warn = False, as_should_block = False,
      as_decision = PGC_DECISION_ALLOW, as_findings = [], as_primary_rule = ''''\<rparr>"

definition pg_circuit_free_assessment :: "PgCircuitRiskAssessment \<Rightarrow> PgCircuitRiskAssessment" where
  "pg_circuit_free_assessment assessment = assessment\<lparr>as_findings := []\<rparr>"

definition make_finding ::
    "string \<Rightarrow> int \<Rightarrow> string \<Rightarrow> oid \<Rightarrow> string option \<Rightarrow> double \<Rightarrow> int \<Rightarrow> PgCircuitFinding" where
  "make_finding rule_id contribution reason rel_oid rel_name rows bytes =
     \<lparr>fi_rule_id = strlcpy rule_id 16,
      fi_level = pg_circuit_score_to_level contribution,
      fi_score_contribution = contribution,
      fi_reason = strlcpy reason 256,
      fi_title = '''',
      fi_remediation = '''',
      fi_relation_oid = rel_oid,
      fi_relation_name = (case rel_name of Some n \<Rightarrow> strlcpy n NAMEDATALEN | None \<Rightarrow> ''''),
      fi_estimated_rows = rows,
      fi_relation_size = bytes\<rparr>"

definition pg_circuit_add_finding ::
    "string \<Rightarrow> int \<Rightarrow> string \<Rightarrow> oid \<Rightarrow> string option \<Rightarrow> double \<Rightarrow> int
     \<Rightarrow> PgCircuitRiskAssessment \<Rightarrow> PgCircuitRiskAssessment" where
  "pg_circuit_add_finding rule_id contribution reason rel_oid rel_name rows bytes a =
     (let a = a\<lparr>as_findings := as_findings a
                   @ [make_finding rule_id contribution reason rel_oid rel_name rows bytes],
                as_score := c_add (as_score a) contribution\<rparr>
      in if as_primary_rule a = '''' \<or> contribution \<ge> 80
         then a\<lparr>as_primary_rule := strlcpy rule_id 16\<rparr> else a)"

definition pg_circuit_clamp_score :: "int \<Rightarrow> int" where
  "pg_circuit_clamp_score score = (if score < 0 then 0 else if score > 100 then 100 else score)"

definition pg_circuit_score_relation_size :: "int \<Rightarrow> int" where
  "pg_circuit_score_relation_size relation_size_bytes =
     (let gb = 1024 * 1024 * 1024
      in if relation_size_bytes < 0 then 0
         else if relation_size_bytes \<ge> gb * 100 then 15
         else if relation_size_bytes \<ge> gb * 10 then 10
         else if relation_size_bytes \<ge> gb then 5
         else 0)"

definition pg_circuit_classify_workload :: "PgCircuitQueryInfo \<Rightarrow> PgCircuitWorkloadClass" where
  "pg_circuit_classify_workload qinfo =
     (case qi_kind qinfo of
        PGC_QKIND_VACUUM_FULL \<Rightarrow> PGC_WCLASS_MAINTENANCE
      | PGC_QKIND_CLUSTER \<Rightarrow> PGC_WCLASS_MAINTENANCE
      | PGC_QKIND_REINDEX \<Rightarrow> PGC_WCLASS_MAINTENANCE
      | PGC_QKIND_ALTER_TABLE \<Rightarrow> PGC_WCLASS_DDL
      | PGC_QKIND_CREATE_INDEX \<Rightarrow> PGC_WCLASS_DDL
      | PGC_QKIND_CREATE_INDEX_CONCURRENTLY \<Rightarrow> PGC_WCLASS_DDL
      | PGC_QKIND_DROP_TABLE \<Rightarrow> PGC_WCLASS_DDL
      | PGC_QKIND_DROP_DATABASE \<Rightarrow> PGC_WCLASS_DDL
      | PGC_QKIND_TRUNCATE \<Rightarrow> PGC_WCLASS_DDL
      | PGC_QKIND_DELETE_NO_WHERE \<Rightarrow> PGC_WCLASS_BULK_WRITE
      | PGC_QKIND_UPDATE_NO_WHERE \<Rightarrow> PGC_WCLASS_BULK_WRITE
      | PGC_QKIND_OTHER \<Rightarrow> if qi_is_write qinfo then PGC_WCLASS_OLTP_SMALL else PGC_WCLASS_READ)"


section \<open>The decision\<close>

definition mode_decision :: "config \<Rightarrow> bool \<Rightarrow> bool \<Rightarrow> PgCircuitDecision" where
  "mode_decision cfg should_warn should_block =
     (case PgCircuitMode_of (pg_circuit_mode cfg) of
        Some PGC_MODE_OBSERVE \<Rightarrow> PGC_DECISION_ALLOW
      | Some PGC_MODE_WARN \<Rightarrow> if should_warn then PGC_DECISION_WARN else PGC_DECISION_ALLOW
      | Some PGC_MODE_ENFORCE \<Rightarrow>
          if should_block then PGC_DECISION_BLOCK
          else if should_warn then PGC_DECISION_WARN
          else PGC_DECISION_ALLOW
      | None \<Rightarrow> PGC_DECISION_ALLOW)"

definition pg_circuit_finalize_assessment ::
    "config \<Rightarrow> PgCircuitRiskAssessment \<Rightarrow> PgCircuitRiskAssessment" where
  "pg_circuit_finalize_assessment cfg a =
     (let score = pg_circuit_clamp_score (as_score a);
          (warn_at, block_at) = pg_circuit_effective_risk_thresholds cfg
      in a\<lparr>as_score := score,
           as_level := pg_circuit_score_to_level score,
           as_should_warn := score \<ge> warn_at,
           as_should_block := score \<ge> block_at,
           as_decision := mode_decision cfg (score \<ge> warn_at) (score \<ge> block_at)\<rparr>)"

definition finding_line :: "PgCircuitFinding \<Rightarrow> string" where
  "finding_line f =
     fi_rule_id f @ '' '' @ fi_reason f @ '' +'' @ show_int (fi_score_contribution f) @ newline"

definition pg_circuit_format_findings :: "PgCircuitRiskAssessment \<Rightarrow> string" where
  "pg_circuit_format_findings a =
     concat (map finding_line (as_findings a)) @ ''Final score: '' @ show_int (as_score a) @ ''/100''"


section \<open>Parsers\<close>

text \<open>\<open>strcaseeq a b\<close> is \<open>pg_strcasecmp (a, b) == 0\<close>.\<close>

definition pg_circuit_parse_query_kind ::
    "(string \<Rightarrow> string \<Rightarrow> bool) \<Rightarrow> string option \<Rightarrow> PgCircuitQueryKind option" where
  "pg_circuit_parse_query_kind strcaseeq name =
     (case name of
        None \<Rightarrow> None
      | Some n \<Rightarrow>
          if strcaseeq n ''delete_no_where'' then Some PGC_QKIND_DELETE_NO_WHERE
          else if strcaseeq n ''update_no_where'' then Some PGC_QKIND_UPDATE_NO_WHERE
          else if strcaseeq n ''truncate'' then Some PGC_QKIND_TRUNCATE
          else if strcaseeq n ''drop_table'' then Some PGC_QKIND_DROP_TABLE
          else if strcaseeq n ''drop_database'' then Some PGC_QKIND_DROP_DATABASE
          else if strcaseeq n ''alter_table'' then Some PGC_QKIND_ALTER_TABLE
          else if strcaseeq n ''create_index'' then Some PGC_QKIND_CREATE_INDEX
          else if strcaseeq n ''create_index_concurrently''
          then Some PGC_QKIND_CREATE_INDEX_CONCURRENTLY
          else if strcaseeq n ''reindex'' then Some PGC_QKIND_REINDEX
          else if strcaseeq n ''vacuum_full'' then Some PGC_QKIND_VACUUM_FULL
          else if strcaseeq n ''cluster'' then Some PGC_QKIND_CLUSTER
          else if strcaseeq n ''other'' then Some PGC_QKIND_OTHER
          else None)"

definition pg_circuit_parse_safety_mode ::
    "(string \<Rightarrow> string \<Rightarrow> bool) \<Rightarrow> string option \<Rightarrow> PgCircuitSafetyMode option" where
  "pg_circuit_parse_safety_mode strcaseeq name =
     (case name of
        None \<Rightarrow> None
      | Some n \<Rightarrow>
          if strcaseeq n ''normal'' then Some PGC_SAFETY_NORMAL
          else if strcaseeq n ''protect'' then Some PGC_SAFETY_PROTECT
          else if strcaseeq n ''emergency'' then Some PGC_SAFETY_EMERGENCY
          else None)"


section \<open>Assessing a statement\<close>

definition alter_reason :: "PgCircuitQueryInfo \<Rightarrow> string" where
  "alter_reason qinfo =
     snprintf 256
       (''ALTER TABLE high-lock-risk operation (''
        @ (if qi_ddl_detail qinfo \<noteq> '''' then qi_ddl_detail qinfo else ''ALTER TABLE'')
        @ '', lock class '' @ pg_circuit_lock_class_name (PgCircuitLockClass_code (qi_lock_class qinfo))
        @ (if qi_rewrite_likely qinfo then '', rewrite likely'' else '''') @ '')'')"

definition pg_circuit_assess_query ::
    "config \<Rightarrow> PgCircuitQueryInfo \<Rightarrow> PgCircuitRuntimeState \<Rightarrow> PgCircuitRiskAssessment" where
  "pg_circuit_assess_query cfg qinfo runtime =
     (let relname = Some (qi_relation_name qinfo);
          relsize = qi_relation_size qinfo;
          rel = qi_relation_oid qinfo;
          rows = qi_estimated_rows qinfo;
          a = pg_circuit_init_assessment
      in pg_circuit_finalize_assessment cfg
         (case qi_kind qinfo of
            PGC_QKIND_DELETE_NO_WHERE \<Rightarrow>
              pg_circuit_add_finding ''PGC001'' 95 ''DELETE without WHERE clause'' rel relname rows relsize a
          | PGC_QKIND_UPDATE_NO_WHERE \<Rightarrow>
              pg_circuit_add_finding ''PGC002'' 95 ''UPDATE without WHERE clause'' rel relname rows relsize a
          | PGC_QKIND_TRUNCATE \<Rightarrow>
              pg_circuit_add_finding ''PGC003'' 90 ''TRUNCATE statement'' rel relname rows relsize a
          | PGC_QKIND_DROP_TABLE \<Rightarrow>
              pg_circuit_add_finding ''PGC004'' 95 ''DROP TABLE statement'' rel relname (- 1) relsize a
          | PGC_QKIND_DROP_DATABASE \<Rightarrow>
              pg_circuit_add_finding ''PGC005'' 100 ''DROP DATABASE statement'' InvalidOid relname (- 1) (- 1) a
          | PGC_QKIND_ALTER_TABLE \<Rightarrow>
              (let base = (if qi_lock_class qinfo \<ge> PGC_LOCK_HIGH then 60
                           else if qi_lock_class qinfo \<ge> PGC_LOCK_MEDIUM then 45 else 35)
               in pg_circuit_add_finding ''PGC012'' base (alter_reason qinfo) rel relname rows relsize a)
          | PGC_QKIND_CREATE_INDEX \<Rightarrow>
              (let contrib = (if relsize \<ge> 0 \<and> relsize < 64 * 1024 * 1024 then 25 else 50)
               in pg_circuit_add_finding ''PGC013'' contrib ''CREATE INDEX without CONCURRENTLY''
                    rel relname rows relsize a)
          | PGC_QKIND_CREATE_INDEX_CONCURRENTLY \<Rightarrow>
              pg_circuit_add_finding ''PGC013'' 15 ''CREATE INDEX CONCURRENTLY (lower lock impact)''
                rel relname rows relsize a
          | PGC_QKIND_REINDEX \<Rightarrow>
              (if qi_concurrent qinfo
               then pg_circuit_add_finding ''PGC014'' 20 ''REINDEX CONCURRENTLY'' rel relname rows relsize a
               else pg_circuit_add_finding ''PGC014'' 55 ''REINDEX without CONCURRENTLY''
                      rel relname rows relsize a)
          | PGC_QKIND_VACUUM_FULL \<Rightarrow>
              pg_circuit_add_finding ''PGC015'' 70 ''VACUUM FULL on relation'' rel relname rows relsize a
          | PGC_QKIND_CLUSTER \<Rightarrow>
              pg_circuit_add_finding ''PGC016'' 70 ''CLUSTER on relation'' rel relname rows relsize a
          | PGC_QKIND_OTHER \<Rightarrow> a))"


section \<open>What an assessment says\<close>

text \<open>The base score of a statement and the rule that gives it.\<close>

definition base_score :: "PgCircuitQueryInfo \<Rightarrow> int" where
  "base_score qinfo =
     (case qi_kind qinfo of
        PGC_QKIND_DELETE_NO_WHERE \<Rightarrow> 95
      | PGC_QKIND_UPDATE_NO_WHERE \<Rightarrow> 95
      | PGC_QKIND_TRUNCATE \<Rightarrow> 90
      | PGC_QKIND_DROP_TABLE \<Rightarrow> 95
      | PGC_QKIND_DROP_DATABASE \<Rightarrow> 100
      | PGC_QKIND_ALTER_TABLE \<Rightarrow>
          (case qi_lock_class qinfo of PGC_LOCK_HIGH \<Rightarrow> 60 | PGC_LOCK_MEDIUM \<Rightarrow> 45 | _ \<Rightarrow> 35)
      | PGC_QKIND_CREATE_INDEX \<Rightarrow> if qi_relation_size qinfo \<in> {0..<67108864} then 25 else 50
      | PGC_QKIND_CREATE_INDEX_CONCURRENTLY \<Rightarrow> 15
      | PGC_QKIND_REINDEX \<Rightarrow> if qi_concurrent qinfo then 20 else 55
      | PGC_QKIND_VACUUM_FULL \<Rightarrow> 70
      | PGC_QKIND_CLUSTER \<Rightarrow> 70
      | PGC_QKIND_OTHER \<Rightarrow> 0)"

definition rule_of_kind :: "PgCircuitQueryKind \<Rightarrow> string" where
  "rule_of_kind kind =
     (case kind of
        PGC_QKIND_DELETE_NO_WHERE \<Rightarrow> ''PGC001''
      | PGC_QKIND_UPDATE_NO_WHERE \<Rightarrow> ''PGC002''
      | PGC_QKIND_TRUNCATE \<Rightarrow> ''PGC003''
      | PGC_QKIND_DROP_TABLE \<Rightarrow> ''PGC004''
      | PGC_QKIND_DROP_DATABASE \<Rightarrow> ''PGC005''
      | PGC_QKIND_ALTER_TABLE \<Rightarrow> ''PGC012''
      | PGC_QKIND_CREATE_INDEX \<Rightarrow> ''PGC013''
      | PGC_QKIND_CREATE_INDEX_CONCURRENTLY \<Rightarrow> ''PGC013''
      | PGC_QKIND_REINDEX \<Rightarrow> ''PGC014''
      | PGC_QKIND_VACUUM_FULL \<Rightarrow> ''PGC015''
      | PGC_QKIND_CLUSTER \<Rightarrow> ''PGC016''
      | PGC_QKIND_OTHER \<Rightarrow> '''')"

lemma base_score_range: "0 \<le> base_score qinfo" "base_score qinfo \<le> 100"
  by (simp_all add: base_score_def split: PgCircuitQueryKind.split PgCircuitLockClass.split)

lemma base_score_zero_iff: "base_score qinfo = 0 \<longleftrightarrow> qi_kind qinfo = PGC_QKIND_OTHER"
  by (simp add: base_score_def split: PgCircuitQueryKind.split PgCircuitLockClass.split)

lemma add_finding_init:
  "as_score (pg_circuit_add_finding r c why o' n d z pg_circuit_init_assessment) = wrap32 c"
  "as_primary_rule (pg_circuit_add_finding r c why o' n d z pg_circuit_init_assessment) = strlcpy r 16"
  "map fi_rule_id (as_findings (pg_circuit_add_finding r c why o' n d z pg_circuit_init_assessment))
     = [strlcpy r 16]"
  "map fi_score_contribution
     (as_findings (pg_circuit_add_finding r c why o' n d z pg_circuit_init_assessment)) = [c]"
  by (simp_all add: pg_circuit_add_finding_def pg_circuit_init_assessment_def make_finding_def
      c_add_def Let_def)

lemma finalize_fields [simp]:
  "as_score (pg_circuit_finalize_assessment cfg a) = pg_circuit_clamp_score (as_score a)"
  "as_level (pg_circuit_finalize_assessment cfg a)
     = pg_circuit_score_to_level (pg_circuit_clamp_score (as_score a))"
  "as_findings (pg_circuit_finalize_assessment cfg a) = as_findings a"
  "as_primary_rule (pg_circuit_finalize_assessment cfg a) = as_primary_rule a"
  "as_decision (pg_circuit_finalize_assessment cfg a)
     = mode_decision cfg
         (pg_circuit_risk_warn_threshold cfg \<le> pg_circuit_clamp_score (as_score a))
         (pg_circuit_risk_block_threshold cfg \<le> pg_circuit_clamp_score (as_score a))"
  by (simp_all add: pg_circuit_finalize_assessment_def pg_circuit_effective_risk_thresholds_def
      Let_def)

lemma clamp_id [simp]: "0 \<le> s \<Longrightarrow> s \<le> 100 \<Longrightarrow> pg_circuit_clamp_score s = s"
  by (simp add: pg_circuit_clamp_score_def)

lemma clamp_range: "0 \<le> pg_circuit_clamp_score s" "pg_circuit_clamp_score s \<le> 100"
  by (simp_all add: pg_circuit_clamp_score_def)

lemma clamp_mono: "a \<le> b \<Longrightarrow> pg_circuit_clamp_score a \<le> pg_circuit_clamp_score b"
  by (simp add: pg_circuit_clamp_score_def)

lemmas assess_simps = pg_circuit_assess_query_def Let_def add_finding_init base_score_def
  rule_of_kind_def wrap32_id strlcpy_id PgCircuitLockClass_order

lemma assess_score: "as_score (pg_circuit_assess_query cfg qinfo runtime) = base_score qinfo"
  by (cases "qi_kind qinfo"; cases "qi_lock_class qinfo")
    (simp_all add: assess_simps pg_circuit_init_assessment_def [THEN arg_cong [where f = as_score]])

lemma assess_decision:
  "as_decision (pg_circuit_assess_query cfg qinfo runtime)
     = mode_decision cfg (pg_circuit_risk_warn_threshold cfg \<le> base_score qinfo)
         (pg_circuit_risk_block_threshold cfg \<le> base_score qinfo)"
proof -
  have "\<exists>a. pg_circuit_assess_query cfg qinfo runtime = pg_circuit_finalize_assessment cfg a"
    by (simp only: pg_circuit_assess_query_def Let_def) blast
  then obtain a where a: "pg_circuit_assess_query cfg qinfo runtime = pg_circuit_finalize_assessment cfg a" ..
  with assess_score [of cfg qinfo runtime] have "pg_circuit_clamp_score (as_score a) = base_score qinfo"
    by simp
  with a show ?thesis by simp
qed

lemma assess_level:
  "as_level (pg_circuit_assess_query cfg qinfo runtime) = pg_circuit_score_to_level (base_score qinfo)"
proof -
  have "\<exists>a. pg_circuit_assess_query cfg qinfo runtime = pg_circuit_finalize_assessment cfg a"
    by (simp only: pg_circuit_assess_query_def Let_def) blast
  then obtain a where a: "pg_circuit_assess_query cfg qinfo runtime = pg_circuit_finalize_assessment cfg a" ..
  with assess_score [of cfg qinfo runtime] show ?thesis by simp
qed

lemma assess_primary_rule:
  "as_primary_rule (pg_circuit_assess_query cfg qinfo runtime) = rule_of_kind (qi_kind qinfo)"
  by (cases "qi_kind qinfo") (simp_all add: assess_simps pg_circuit_init_assessment_def
      [THEN arg_cong [where f = as_primary_rule]])

lemma assess_rule_ids:
  "map fi_rule_id (as_findings (pg_circuit_assess_query cfg qinfo runtime))
     = (if qi_kind qinfo = PGC_QKIND_OTHER then [] else [rule_of_kind (qi_kind qinfo)])"
  by (cases "qi_kind qinfo") (simp_all add: assess_simps pg_circuit_init_assessment_def
      [THEN arg_cong [where f = as_findings]])

lemma assess_contributions:
  "map fi_score_contribution (as_findings (pg_circuit_assess_query cfg qinfo runtime))
     = (if qi_kind qinfo = PGC_QKIND_OTHER then [] else [base_score qinfo])"
  by (cases "qi_kind qinfo"; cases "qi_lock_class qinfo")
    (simp_all add: assess_simps pg_circuit_init_assessment_def
      [THEN arg_cong [where f = as_findings]])

lemma mode_decision_warn_mono:
  "mode_decision cfg w b \<le> mode_decision cfg (w \<or> w') (b \<or> b')"
  by (simp add: mode_decision_def enum_simps split: option.split PgCircuitMode.split)

end
