(* ===== verification/Pgc_Policy.thy ===== *)
theory Pgc_Policy
  imports Pgc_Risk_Engine Pgc_Events
begin

text \<open>\<open>src/policy_stub.c\<close>: this edition has no policy engine, so a policy never matches.\<close>

record PgCircuitIdentity =
  id_database_name :: string
  id_current_user :: string
  id_session_user :: string
  id_application_name :: string
  id_schema_name :: string
  id_relation_name :: string

definition pg_circuit_collect_identity :: "PgCircuitQueryInfo \<Rightarrow> PgCircuitIdentity" where
  "pg_circuit_collect_identity qinfo =
     \<lparr>id_database_name = '''', id_current_user = '''', id_session_user = '''',
      id_application_name = '''', id_schema_name = '''', id_relation_name = ''''\<rparr>"

definition zero_policy :: PgCircuitPolicyResult where
  "zero_policy =
     \<lparr>pr_matched = False, pr_exception_applied = False, pr_audit_only = False,
      pr_outside_maintenance_window = False, pr_policy_id = 0, pr_policy_rule_id = 0,
      pr_exception_id = 0, pr_priority = 0, pr_base_decision = PGC_DECISION_ALLOW,
      pr_final_decision = PGC_DECISION_ALLOW, pr_action = PGC_PACTION_NONE,
      pr_policy_name = '''', pr_matched_rule = '''', pr_reason = ''''\<rparr>"

definition pg_circuit_policy_evaluate ::
    "PgCircuitQueryInfo \<Rightarrow> PgCircuitRuntimeState \<Rightarrow> PgCircuitRiskAssessment \<Rightarrow> PgCircuitPolicyResult" where
  "pg_circuit_policy_evaluate qinfo runtime assessment =
     zero_policy\<lparr>pr_matched := False, pr_action := PGC_PACTION_NONE,
                 pr_base_decision := as_decision assessment,
                 pr_final_decision := as_decision assessment\<rparr>"

definition pg_circuit_reload_policies_internal :: int where
  "pg_circuit_reload_policies_internal = 0"

text \<open>The out-parameter is written (to \<open>PGC_PACTION_NONE\<close>) whenever both pointers are set.\<close>

definition pg_circuit_parse_policy_action ::
    "(string \<Rightarrow> string \<Rightarrow> bool) \<Rightarrow> string option \<Rightarrow> bool \<Rightarrow> bool \<times> PgCircuitPolicyAction option" where
  "pg_circuit_parse_policy_action strcaseeq name action_present =
     (case name of
        None \<Rightarrow> (False, None)
      | Some n \<Rightarrow>
          (if \<not> action_present then (False, None)
           else (strcaseeq n ''none'', Some PGC_PACTION_NONE)))"

definition pg_circuit_maintenance_window_active :: "int \<Rightarrow> int \<Rightarrow> int \<Rightarrow> timestamp \<Rightarrow> bool" where
  "pg_circuit_maintenance_window_active dow start_min end_min now = False"

lemma policy_evaluate_fields [simp]:
  "pr_audit_only (pg_circuit_policy_evaluate q r a) = False"
  "pr_base_decision (pg_circuit_policy_evaluate q r a) = as_decision a"
  "pr_final_decision (pg_circuit_policy_evaluate q r a) = as_decision a"
  by (simp_all add: pg_circuit_policy_evaluate_def zero_policy_def)

end
