(* ===== verification/Pgc_World.thy ===== *)
theory Pgc_World
  imports Pgc_Events Pgc_Shmem
begin

text \<open>
  Statements with effects. An action runs on the world: the shared state and the reports
  emitted so far. It ends with a value or by raising an error report (a \<open>longjmp\<close> in C), and
  keeps its effects up to that point either way.
\<close>

record world =
  w_shared :: "PgCircuitSharedState option"
  w_log :: "report list"

type_synonym 'a action = "world \<Rightarrow> (report + 'a) \<times> world"

definition ret :: "'a \<Rightarrow> 'a action" where
  "ret x w = (Inr x, w)"

definition throw :: "report \<Rightarrow> 'a action" where
  "throw e w = (Inl e, w)"

definition ebind :: "'a action \<Rightarrow> ('a \<Rightarrow> 'b action) \<Rightarrow> 'b action" where
  "ebind m f w = (case m w of (Inl e, w') \<Rightarrow> (Inl e, w') | (Inr x, w') \<Rightarrow> f x w')"

text \<open>\<open>ereport\<close> at level \<open>ERROR\<close> does not return; at the lower levels it emits and goes on.\<close>

definition ereport :: "report \<Rightarrow> unit action" where
  "ereport r w = (if elevel r = ERROR then (Inl r, w) else (Inr (), w\<lparr>w_log := w_log w @ [r]\<rparr>))"

text \<open>\<open>PG_TRY\<close> with its \<open>PG_CATCH\<close> block.\<close>

definition pg_try :: "'a action \<Rightarrow> (report \<Rightarrow> 'a action) \<Rightarrow> 'a action" where
  "pg_try body handler w =
     (case body w of (Inl e, w') \<Rightarrow> handler e w' | (Inr x, w') \<Rightarrow> (Inr x, w'))"

definition lift_result :: "report + 'a \<Rightarrow> 'a action" where
  "lift_result r w = (r, w)"

definition lift_shared ::
    "(PgCircuitSharedState option \<Rightarrow> (report + 'a) \<times> PgCircuitSharedState option) \<Rightarrow> 'a action" where
  "lift_shared f w = (case f (w_shared w) of (r, s) \<Rightarrow> (r, w\<lparr>w_shared := s\<rparr>))"

named_theorems action_simps \<open>running an action\<close>

lemma ret_run [action_simps]: "ret x w = (Inr x, w)"
  by (simp add: ret_def)

lemma throw_run [action_simps]: "throw e w = (Inl e, w)"
  by (simp add: throw_def)

lemma ebind_ret [action_simps]: "ebind (ret x) f = f x"
  by (simp add: ebind_def ret_def fun_eq_iff)

lemma ebind_throw [action_simps]: "ebind (throw e) f = throw e"
  by (simp add: ebind_def throw_def fun_eq_iff)

lemma ebind_assoc: "ebind (ebind m f) g = ebind m (\<lambda>x. ebind (f x) g)"
  by (auto simp: ebind_def fun_eq_iff split: prod.split sum.split)

lemma ebind_ret_right [simp]: "ebind m ret = m"
  by (auto simp: ebind_def ret_def fun_eq_iff split: prod.split sum.split)

text \<open>What an action can raise and leave: rules that split a run at its binds.\<close>

lemma ebind_InrE:
  assumes "ebind m f w = (Inr y, w')"
  obtains x w1 where "m w = (Inr x, w1)" and "f x w1 = (Inr y, w')"
  using assms by (auto simp: ebind_def split: prod.splits sum.splits)

lemma ebind_InlE:
  assumes "ebind m f w = (Inl e, w')"
  obtains "m w = (Inl e, w')" | x w1 where "m w = (Inr x, w1)" and "f x w1 = (Inl e, w')"
  using assms by (auto simp: ebind_def split: prod.splits sum.splits)

lemma pg_try_raises:
  assumes "pg_try body handler w = (Inl e, w')"
  obtains e0 w1 where "body w = (Inl e0, w1)" and "handler e0 w1 = (Inl e, w')"
  using assms by (auto simp: pg_try_def split: prod.splits sum.splits)

end
