(* ===== verification/Pgc_Circuit_Breaker.thy ===== *)
theory Pgc_Circuit_Breaker
  imports Pgc_Policy Pgc_World
begin

text \<open>
  \<open>src/circuit_breaker.c\<close>: the operator-facing detail text and the reports that warn about or
  block a statement.
\<close>

section \<open>Digit grouping\<close>

text \<open>The loop over the digits from the last to the first, with the count of digits so far.\<close>

fun group_digits :: "nat \<Rightarrow> string \<Rightarrow> string" where
  "group_digits digits [] = []"
| "group_digits digits (c # cs) =
     (if digits > 0 \<and> digits mod 3 = 0 then CHR '','' # c # group_digits (Suc digits) cs
      else c # group_digits (Suc digits) cs)"

definition append_grouped_u64 :: "string \<Rightarrow> nat \<Rightarrow> string" where
  "append_grouped_u64 buf n =
     (let tmp = show_nat n; len = length tmp
      in if len \<le> 0 \<or> len \<ge> 32 then buf @ snprintf 32 tmp
         else buf @ rev (group_digits 0 (rev tmp)))"


section \<open>The detail text\<close>

definition decimal_1 :: "double \<Rightarrow> string" where
  "decimal_1 x =
     (let n = nat (rne (10 * \<bar>x\<bar>))
      in (if x < 0 then ''-'' else '''') @ show_nat (n div 10) @ ''.'' @ [digit_char (n mod 10)])"

definition decimal_0 :: "double \<Rightarrow> string" where
  "decimal_0 x = (if x < 0 then ''-'' else '''') @ show_nat (nat (rne \<bar>x\<bar>))"

text \<open>The C conversion truncates; beyond the range of \<open>uint64\<close> the platform decides.\<close>

definition u64_of_double :: "pg_server \<Rightarrow> double \<Rightarrow> nat" where
  "u64_of_double pg x = (if - 1 < x \<and> x < 2 ^ 64 then nat \<lfloor>x\<rfloor> else u64_out_of_range pg x)"

definition format_decision_detail ::
    "pg_server \<Rightarrow> config \<Rightarrow> PgCircuitRiskAssessment \<Rightarrow> PgCircuitRuntimeState
     \<Rightarrow> PgCircuitQueryInfo \<Rightarrow> PgCircuitPolicyResult option \<Rightarrow> string" where
  "format_decision_detail pg cfg assessment runtime qinfo policy =
     (let detail = ''Risk: '' @ show_int (as_score assessment) @ ''/100'';
          detail = (if qi_estimated_rows qinfo \<ge> 0
                    then append_grouped_u64 (detail @ newline @ ''Estimated rows: '')
                           (u64_of_double pg (qi_estimated_rows qinfo))
                    else detail);
          detail = (if qi_relation_qualname qinfo \<noteq> ''''
                    then detail @ newline @ ''Relation: '' @ qi_relation_qualname qinfo
                    else if qi_relation_name qinfo \<noteq> '''' \<and> qi_relation_name qinfo \<noteq> ''?''
                    then detail @ newline @ ''Relation: '' @ qi_relation_name qinfo
                    else detail);
          detail = detail @ newline @ ''Operating mode: '' @ pg_circuit_mode_name (pg_circuit_mode cfg)
                    @ newline @ ''Runtime mode: ''
                    @ pg_circuit_safety_mode_name (PgCircuitSafetyMode_code (rs_mode runtime))
                    @ newline @ ''Pressure: '' @ show_int (rs_pressure_score runtime) @ ''/100''
                    @ newline @ ''Replication lag: ''
                    @ decimal_1 (rs_max_replication_lag_seconds runtime) @ ''s'';
          detail = (if rs_long_transactions runtime > 0
                    then detail @ newline @ ''Long transactions: '' @ show_int (rs_long_transactions runtime)
                    else detail);
          detail = (if rs_blocked_sessions runtime > 0
                    then detail @ newline @ ''Blocked sessions: '' @ show_int (rs_blocked_sessions runtime)
                    else detail)
      in detail @ newline @ ''Decision: ''
         @ pg_circuit_decision_name (PgCircuitDecision_code (as_decision assessment)))"


section \<open>Applying a decision\<close>

definition pg_circuit_decide :: "PgCircuitRiskAssessment \<Rightarrow> PgCircuitDecision" where
  "pg_circuit_decide assessment = as_decision assessment"

definition decision_rule :: "PgCircuitRiskAssessment \<Rightarrow> string" where
  "decision_rule assessment =
     (if as_primary_rule assessment \<noteq> '''' then as_primary_rule assessment else ''PGC000'')"

definition block_report :: "string \<Rightarrow> string \<Rightarrow> report" where
  "block_report rule detail =
     \<lparr>elevel = ERROR, sqlerrcode = ERRCODE_INSUFFICIENT_PRIVILEGE,
      errmsg = ''PG Circuit ['' @ rule @ ''] blocked high-risk operation'',
      errdetail = Some detail,
      errhint = Some (''retry in smaller batches (add WHERE); then SELECT * FROM pg_circuit_events() ''
        @ ''and pg_circuit_explain_risk(...); adjust pg_circuit.mode or risk_*_threshold'')\<rparr>"

definition warn_report :: "string \<Rightarrow> string \<Rightarrow> report" where
  "warn_report rule detail =
     \<lparr>elevel = WARNING, sqlerrcode = ERRCODE_WARNING,
      errmsg = ''PG Circuit ['' @ rule @ ''] high-risk operation'',
      errdetail = Some detail,
      errhint = Some (''set pg_circuit.mode=enforce to block, or reduce scope; inspect with ''
        @ ''pg_circuit_events() / pg_circuit_explain_risk(...)'')\<rparr>"

definition pg_circuit_apply_decision_ex ::
    "pg_server \<Rightarrow> config \<Rightarrow> PgCircuitRiskAssessment \<Rightarrow> PgCircuitRuntimeState
     \<Rightarrow> PgCircuitQueryInfo \<Rightarrow> PgCircuitPolicyResult option \<Rightarrow> unit action" where
  "pg_circuit_apply_decision_ex pg cfg assessment runtime qinfo policy =
     (if as_decision assessment = PGC_DECISION_ALLOW then ret ()
      else (let rule = decision_rule assessment;
                detail = format_decision_detail pg cfg assessment runtime qinfo policy
            in ebind (if as_decision assessment = PGC_DECISION_BLOCK
                      then ereport (block_report rule detail) else ret ())
                 (\<lambda>_. ereport (warn_report rule detail))))"

definition pg_circuit_apply_decision ::
    "pg_server \<Rightarrow> config \<Rightarrow> PgCircuitRiskAssessment \<Rightarrow> PgCircuitRuntimeState
     \<Rightarrow> PgCircuitQueryInfo \<Rightarrow> unit action" where
  "pg_circuit_apply_decision pg cfg assessment runtime qinfo =
     pg_circuit_apply_decision_ex pg cfg assessment runtime qinfo None"


section \<open>What is emitted\<close>

lemma apply_decision_run:
  "pg_circuit_apply_decision_ex pg cfg a r q p w =
     (let detail = format_decision_detail pg cfg a r q p
      in case as_decision a of
           PGC_DECISION_ALLOW \<Rightarrow> (Inr (), w)
         | PGC_DECISION_WARN \<Rightarrow>
             (Inr (), w\<lparr>w_log := w_log w @ [warn_report (decision_rule a) detail]\<rparr>)
         | PGC_DECISION_BLOCK \<Rightarrow> (Inl (block_report (decision_rule a) detail), w))"
  by (simp add: pg_circuit_apply_decision_ex_def ebind_def ereport_def ret_def warn_report_def
      block_report_def Let_def split: PgCircuitDecision.split)

lemma group_digits_filter:
  "CHR '','' \<notin> set cs \<Longrightarrow> filter (\<lambda>c. c \<noteq> CHR '','') (group_digits d cs) = cs"
  by (induction d cs rule: group_digits.induct) auto

text \<open>How many characters the loop has written after \<open>d\<close> digits.\<close>

definition written :: "nat \<Rightarrow> nat" where
  "written d = d + (d - 1) div 3"

lemma written_simps [simp]:
  "written 0 = 0"
  "written (3 * q + 1) = 4 * q + 1"
  "written (3 * q + 2) = 4 * q + 2"
  "written (3 * q + 3) = 4 * q + 3"
  by (simp_all add: written_def)

lemma written_Suc:
  "written (Suc d) = (if 0 < d \<and> d mod 3 = 0 then written d + 2 else written d + 1)"
  "0 < d \<and> d mod 3 = 0 \<longleftrightarrow> written d mod 4 = 3"
proof -
  have "d = 0 \<or> (\<exists>q. d = 3 * q + 1 \<or> d = 3 * q + 2 \<or> d = 3 * q + 3)" by presburger
  then consider "d = 0" | q where "d = 3 * q + 1" | q where "d = 3 * q + 2" | q where "d = 3 * q + 3"
    by blast
  then have "written (Suc d) = (if 0 < d \<and> d mod 3 = 0 then written d + 2 else written d + 1)
      \<and> (0 < d \<and> d mod 3 = 0 \<longleftrightarrow> written d mod 4 = 3)"
  proof cases
    case 1
    then show ?thesis by (simp add: written_def)
  next
    case (2 q)
    then have "Suc d = 3 * q + 2" "d mod 3 = 1" by presburger+
    then have "written (Suc d) = 4 * q + 2" by (simp only: written_simps)
    moreover have "written d = 4 * q + 1" unfolding 2 by (simp only: written_simps)
    moreover have "(4 * q + 1) mod 4 \<noteq> (3 :: nat)" by presburger
    ultimately show ?thesis using \<open>d mod 3 = 1\<close> by simp
  next
    case (3 q)
    then have "Suc d = 3 * q + 3" "d mod 3 = 2" by presburger+
    then have "written (Suc d) = 4 * q + 3" by (simp only: written_simps)
    moreover have "written d = 4 * q + 2" unfolding 3 by (simp only: written_simps)
    moreover have "(4 * q + 2) mod 4 \<noteq> (3 :: nat)" by presburger
    ultimately show ?thesis using \<open>d mod 3 = 2\<close> by simp
  next
    case (4 q)
    then have "Suc d = 3 * (q + 1) + 1" "d mod 3 = 0" "0 < d" by presburger+
    then have "written (Suc d) = 4 * (q + 1) + 1" by (simp only: written_simps)
    moreover have "written d = 4 * q + 3" unfolding 4 by (simp only: written_simps)
    moreover have "(4 * q + 3) mod 4 = (3 :: nat)" by presburger
    ultimately show ?thesis using \<open>d mod 3 = 0\<close> \<open>0 < d\<close> by simp
  qed
  then show "written (Suc d) = (if 0 < d \<and> d mod 3 = 0 then written d + 2 else written d + 1)"
    "0 < d \<and> d mod 3 = 0 \<longleftrightarrow> written d mod 4 = 3" by simp_all
qed

lemma group_digits_commas:
  assumes "CHR '','' \<notin> set cs" and "i < length (group_digits d cs)"
  shows "group_digits d cs ! i = CHR '','' \<longleftrightarrow> (written d + i) mod 4 = 3"
  using assms
proof (induction d cs arbitrary: i rule: group_digits.induct)
  case (1 d)
  then show ?case by simp
next
  case (2 d c cs)
  have tail: "group_digits (Suc d) cs ! j = CHR '','' \<longleftrightarrow> (written (Suc d) + j) mod 4 = 3"
    if "j < length (group_digits (Suc d) cs)" for j
    using "2.IH" "2.prems"(1) that by (cases "0 < d \<and> d mod 3 = 0") auto
  show ?case
  proof (cases "0 < d \<and> d mod 3 = 0")
    case True
    then have w: "written d mod 4 = 3" "written (Suc d) = written d + 2" using written_Suc [of d] by auto
    consider "i = 0" | "i = 1" | j where "i = Suc (Suc j)" by (metis One_nat_def not0_implies_Suc)
    then show ?thesis
    proof cases
      case 2
      then show ?thesis using True "2.prems"(1) w(1) by (auto simp: mod_Suc)
    next
      case (3 j)
      then show ?thesis using True "2.prems"(2) tail [of j] w(2) by simp
    qed (use True w in simp)
  next
    case False
    then have g: "group_digits d (c # cs) = c # group_digits (Suc d) cs" by auto
    from False have w: "written d mod 4 \<noteq> 3" "written (Suc d) = written d + 1" using written_Suc [of d] by auto
    show ?thesis
    proof (cases i)
      case 0
      then show ?thesis using False "2.prems"(1) w(1) by auto
    next
      case (Suc j)
      then show ?thesis using "2.prems"(2) tail [of j] w(2) unfolding g by simp
    qed
  qed
qed

lemma length_group_digits: "length (group_digits d cs) + written d = written (d + length cs)"
  by (induction d cs rule: group_digits.induct) (auto simp: written_Suc(1))

lemma append_grouped_eq:
  "n < 2 ^ 64 \<Longrightarrow> append_grouped_u64 buf n = buf @ rev (group_digits 0 (rev (show_nat n)))"
  using length_show_nat [of 20 n] by (simp add: append_grouped_u64_def Let_def)

end
