(* ===== verification/Pgc_Event_Fill.thy ===== *)
theory Pgc_Event_Fill
  imports Pgc_Policy Pgc_Shmem
begin

text \<open>\<open>src/event.c\<close>: the risk event of a checked statement and its way into the ring.\<close>

definition pg_circuit_fill_risk_event ::
    "pg_server \<Rightarrow> PgCircuitQueryInfo \<Rightarrow> PgCircuitRuntimeState \<Rightarrow> PgCircuitRiskAssessment
     \<Rightarrow> PgCircuitPolicyResult option \<Rightarrow> PgCircuitRiskEvent" where
  "pg_circuit_fill_risk_event pg qinfo runtime assessment policy =
     \<lparr>re_timestamp = now_event pg,
      re_backend_pid = MyProcPid pg,
      re_database_oid = MyDatabaseId pg,
      re_user_oid = CurrentUserId pg,
      re_primary_rule = strlcpy (as_primary_rule assessment) 16,
      re_risk_score = as_score assessment,
      re_decision = as_decision assessment,
      re_base_decision =
        (case policy of Some p \<Rightarrow> pr_base_decision p | None \<Rightarrow> as_decision assessment),
      re_runtime_mode = rs_mode runtime,
      re_relation_oid = qi_relation_oid qinfo,
      re_operation = qi_kind qinfo\<rparr>"

fun rule_ids_loop :: "nat \<Rightarrow> PgCircuitFinding list \<Rightarrow> string \<Rightarrow> string" where
  "rule_ids_loop buflen [] buf = buf"
| "rule_ids_loop buflen (f # fs) buf =
     (if fi_rule_id f = '''' then rule_ids_loop buflen fs buf
      else (let used = length buf;
                need = length (fi_rule_id f) + (if used > 0 then 1 else 0)
            in if used + need + 1 \<ge> buflen then buf
               else rule_ids_loop buflen fs
                      (buf @ (if used > 0 then '','' else '''') @ fi_rule_id f)))"

definition build_rule_ids :: "PgCircuitRiskAssessment \<Rightarrow> nat \<Rightarrow> string" where
  "build_rule_ids assessment buflen =
     (let buf = rule_ids_loop buflen (as_findings assessment) ''''
      in if buf = '''' \<and> as_primary_rule assessment \<noteq> ''''
         then strlcpy (as_primary_rule assessment) buflen else buf)"

definition event_relation_name :: "PgCircuitQueryInfo \<Rightarrow> string" where
  "event_relation_name qinfo =
     (if qi_relation_qualname qinfo \<noteq> '''' then qi_relation_qualname qinfo else qi_relation_name qinfo)"

text \<open>The two names of an event; their lookups can raise, before anything is recorded.\<close>

definition event_names :: "pg_server \<Rightarrow> oid \<Rightarrow> oid \<Rightarrow> report + string \<times> string" where
  "event_names pg dbid userid =
     rbind (get_database_name pg dbid) (\<lambda>tmp.
       let dbname = (case tmp of Some n \<Rightarrow> strlcpy n NAMEDATALEN | None \<Rightarrow> '''') in
     rbind (GetUserNameFromId pg userid) (\<lambda>tmp.
       let username = (case tmp of Some n \<Rightarrow> strlcpy n NAMEDATALEN | None \<Rightarrow> '''') in
     Inr (dbname, username)))"

definition pg_circuit_persist_risk_event ::
    "pg_server \<Rightarrow> config \<Rightarrow> PgCircuitRiskEvent \<Rightarrow> PgCircuitQueryInfo \<Rightarrow> PgCircuitRiskAssessment
     \<Rightarrow> PgCircuitPolicyResult option \<Rightarrow> PgCircuitSharedState option
     \<Rightarrow> (report + unit) \<times> PgCircuitSharedState option" where
  "pg_circuit_persist_risk_event pg cfg event qinfo assessment policy shared =
     (let rule_ids = build_rule_ids assessment PGC_RULE_IDS_MAX
      in case event_names pg (re_database_oid event) (re_user_oid event) of
           Inl e \<Rightarrow> (Inl e, shared)
         | Inr (dbname, username) \<Rightarrow>
             (Inr (), pg_circuit_event_record pg cfg (Some event) (Some rule_ids)
                        (Some (event_relation_name qinfo)) (Some dbname) (Some username)
                        policy shared))"


section \<open>The rule list\<close>

lemma rule_ids_loop_length: "length buf < buflen \<Longrightarrow> length (rule_ids_loop buflen fs buf) < buflen"
  by (induction buflen fs buf rule: rule_ids_loop.induct) (auto simp: Let_def)

lemma build_rule_ids_length: "0 < buflen \<Longrightarrow> length (build_rule_ids a buflen) < buflen"
  by (simp add: build_rule_ids_def Let_def rule_ids_loop_length length_strlcpy)

lemma build_rule_ids_single:
  assumes "map fi_rule_id (as_findings a) = [r]" and "r \<noteq> ''''" and "length r + 1 < buflen"
  shows "build_rule_ids a buflen = r"
  using assms by (cases "as_findings a") (auto simp: build_rule_ids_def Let_def)


fun comma_join :: "string list \<Rightarrow> string" where
  "comma_join [] = ''''"
| "comma_join [x] = x"
| "comma_join (x # y # zs) = x @ '','' @ comma_join (y # zs)"

lemma comma_join_snoc:
  "comma_join (xs @ [x]) = comma_join xs @ (if xs = [] then '''' else '','') @ x"
  by (induction xs rule: comma_join.induct) simp_all

lemma comma_join_empty: "\<forall>x \<in> set xs. x \<noteq> '''' \<Longrightarrow> comma_join xs = '''' \<longleftrightarrow> xs = []"
  by (induction xs rule: comma_join.induct) simp_all

lemma length_comma_join_append: "length (comma_join xs) \<le> length (comma_join (xs @ ys))"
proof (induction ys rule: rev_induct)
  case Nil
  then show ?case by simp
next
  case (snoc y ys)
  then show ?case using comma_join_snoc [of "xs @ ys" y] by simp
qed

definition nonempty_ids :: "PgCircuitFinding list \<Rightarrow> string list" where
  "nonempty_ids fs = filter (\<lambda>r. r \<noteq> '''') (map fi_rule_id fs)"

lemma rule_ids_step:
  assumes "\<forall>x \<in> set pre. x \<noteq> ''''" and "fi_rule_id f \<noteq> ''''"
  shows "rule_ids_loop buflen (f # fs) (comma_join pre) =
     (if length (comma_join (pre @ [fi_rule_id f])) + 1 \<ge> buflen then comma_join pre
      else rule_ids_loop buflen fs (comma_join (pre @ [fi_rule_id f])))"
  using assms comma_join_empty [OF assms(1)] by (auto simp: Let_def comma_join_snoc)

lemma rule_ids_prefix:
  assumes "\<forall>x \<in> set pre. x \<noteq> ''''"
  shows "\<exists>k \<le> length (nonempty_ids fs).
     rule_ids_loop buflen fs (comma_join pre) = comma_join (pre @ take k (nonempty_ids fs))
     \<and> (k = length (nonempty_ids fs)
        \<or> buflen \<le> length (comma_join (pre @ take (Suc k) (nonempty_ids fs))) + 1)
     \<and> (k = 0 \<or> length (comma_join (pre @ take k (nonempty_ids fs))) + 1 < buflen)"
  using assms
proof (induction fs arbitrary: pre)
  case Nil
  then show ?case by (simp add: nonempty_ids_def)
next
  case (Cons f fs)
  show ?case
  proof (cases "fi_rule_id f = ''''")
    case True
    then show ?thesis using Cons.IH [OF Cons.prems] by (simp add: nonempty_ids_def)
  next
    case False
    then have n: "nonempty_ids (f # fs) = fi_rule_id f # nonempty_ids fs" by (simp add: nonempty_ids_def)
    have ne: "\<forall>x \<in> set (pre @ [fi_rule_id f]). x \<noteq> ''''" using Cons.prems False by simp
    note step = rule_ids_step [OF Cons.prems False, of buflen fs]
    show ?thesis
    proof (cases "length (comma_join (pre @ [fi_rule_id f])) + 1 \<ge> buflen")
      case True
      then show ?thesis unfolding step n by (intro exI [of _ 0]) simp
    next
      case room: False
      from Cons.IH [OF ne] obtain k where k: "k \<le> length (nonempty_ids fs)"
        "rule_ids_loop buflen fs (comma_join (pre @ [fi_rule_id f]))
           = comma_join ((pre @ [fi_rule_id f]) @ take k (nonempty_ids fs))"
        "k = length (nonempty_ids fs)
           \<or> buflen \<le> length (comma_join ((pre @ [fi_rule_id f]) @ take (Suc k) (nonempty_ids fs))) + 1"
        "k = 0 \<or> length (comma_join ((pre @ [fi_rule_id f]) @ take k (nonempty_ids fs))) + 1 < buflen"
        by blast
      have "length (comma_join ((pre @ [fi_rule_id f]) @ take k (nonempty_ids fs))) + 1 < buflen"
        using k(4) room by auto
      with k(1-3) room show ?thesis unfolding step n by (intro exI [of _ "Suc k"]) simp
    qed
  qed
qed

end
