(* ===== verification/Pgc_Query_Analysis.thy ===== *)
theory Pgc_Query_Analysis
  imports Pgc_Risk_Engine Pgc_Relations
begin

text \<open>
  \<open>src/query_analysis.c\<close>: classification of DELETE and UPDATE, from a parsed query or, in the
  executor hook, from the plan alone.
\<close>

definition init_qinfo :: PgCircuitQueryInfo where
  "init_qinfo =
     zero_qinfo\<lparr>qi_kind := PGC_QKIND_OTHER, qi_relation_oid := InvalidOid,
                qi_estimated_rows := - 1, qi_relation_size := - 1, qi_has_where := False,
                qi_is_write := False\<rparr>"

text \<open>\<open>rt_fetch\<close> counts the entries of a range table from 1.\<close>

definition rt_fetch :: "nat \<Rightarrow> RangeTblEntry list \<Rightarrow> RangeTblEntry" where
  "rt_fetch rti rtable = rtable ! (rti - 1)"

definition result_relation_oid :: "Query \<Rightarrow> oid" where
  "result_relation_oid query =
     (if resultRelation query \<le> 0 then InvalidOid
      else if resultRelation query > int (length (q_rtable query)) then InvalidOid
      else (let rte = rt_fetch (nat (resultRelation query)) (q_rtable query)
            in if rtekind rte \<noteq> RTE_RELATION then InvalidOid else relid rte))"

definition query_has_where :: "Query \<Rightarrow> bool" where
  "query_has_where query = (case jointree query of None \<Rightarrow> False | Some has_quals \<Rightarrow> has_quals)"

definition clamp_estimated_rows :: "pg_server \<Rightarrow> oid \<Rightarrow> double \<Rightarrow> report + double" where
  "clamp_estimated_rows pg rid rows =
     (if rows < 0 then Inr rows
      else rbind (pg_circuit_relation_physical_tuple_bound pg rid) (\<lambda>bound.
             Inr (if bound \<ge> 0 \<and> rows > bound then bound else rows)))"

definition modify_table_rows :: "Plan \<Rightarrow> double option" where
  "modify_table_rows plan =
     (if plan_tag plan = T_ModifyTable
      then (case lefttree plan of
              Some sub \<Rightarrow>
                if plan_rows sub > 0 then Some (plan_rows sub)
                else if plan_rows plan > 0 then Some (plan_rows plan) else None
            | None \<Rightarrow> if plan_rows plan > 0 then Some (plan_rows plan) else None)
      else None)"

definition plan_estimated_rows :: "PlannedStmt option \<Rightarrow> double" where
  "plan_estimated_rows stmt =
     (case stmt of
        None \<Rightarrow> - 1
      | Some s \<Rightarrow>
          (case planTree s of
             None \<Rightarrow> - 1
           | Some plan \<Rightarrow>
               (case modify_table_rows plan of
                  Some rows \<Rightarrow> rows
                | None \<Rightarrow> if plan_rows plan > 0 then plan_rows plan else - 1)))"

text \<open>
  The part both analyses share: names, size and row estimate of the target. Every access to
  the catalog or the relation can raise.
\<close>

definition target_rows :: "pg_server \<Rightarrow> oid \<Rightarrow> bool \<Rightarrow> double \<Rightarrow> report + double" where
  "target_rows pg rid has_where rows =
     (if \<not> has_where \<and> OidIsValid rid
      then rbind (pg_circuit_relation_estimated_tuples pg rid) (\<lambda>tuples.
             Inr (if tuples > 0 then tuples else rows))
      else Inr rows)"

definition fill_target ::
    "pg_server \<Rightarrow> oid \<Rightarrow> bool \<Rightarrow> double \<Rightarrow> PgCircuitQueryInfo \<Rightarrow> report + PgCircuitQueryInfo" where
  "fill_target pg rid has_where rows qinfo =
     rbind (pg_circuit_relation_name pg rid NAMEDATALEN) (\<lambda>name.
     rbind (pg_circuit_relation_qualname pg rid (NAMEDATALEN * 2 + 2)) (\<lambda>qualname.
     rbind (pg_circuit_relation_size pg rid) (\<lambda>bytes.
     rbind (target_rows pg rid has_where rows) (\<lambda>rows.
     rbind (clamp_estimated_rows pg rid rows) (\<lambda>estimate.
       Inr (qinfo\<lparr>qi_is_write := True, qi_relation_oid := rid, qi_relation_name := name,
                  qi_relation_qualname := qualname, qi_relation_size := bytes,
                  qi_has_where := has_where, qi_estimated_rows := estimate\<rparr>))))))"

text \<open>Only a statement without WHERE leaves the kind \<open>OTHER\<close>.\<close>

definition dml_kind :: "CmdType \<Rightarrow> bool \<Rightarrow> PgCircuitQueryInfo \<Rightarrow> PgCircuitQueryInfo" where
  "dml_kind cmd has_where qinfo =
     (if cmd = CMD_DELETE
      then (if \<not> has_where then qinfo\<lparr>qi_kind := PGC_QKIND_DELETE_NO_WHERE\<rparr> else qinfo)
      else if \<not> has_where then qinfo\<lparr>qi_kind := PGC_QKIND_UPDATE_NO_WHERE\<rparr>
      else qinfo)"

definition pg_circuit_analyze_query ::
    "pg_server \<Rightarrow> Query option \<Rightarrow> PlannedStmt option \<Rightarrow> report + PgCircuitQueryInfo" where
  "pg_circuit_analyze_query pg query stmt =
     (case query of
        None \<Rightarrow> Inr init_qinfo
      | Some q \<Rightarrow>
          (if q_commandType q \<noteq> CMD_DELETE \<and> q_commandType q \<noteq> CMD_UPDATE then Inr init_qinfo
           else rbind (fill_target pg (result_relation_oid q) (query_has_where q)
                         (plan_estimated_rows stmt) init_qinfo)
                  (\<lambda>qinfo. Inr (dml_kind (q_commandType q) (query_has_where q) qinfo))))"

definition planned_relation_oid :: "PlannedStmt \<Rightarrow> oid" where
  "planned_relation_oid stmt =
     (case resultRelations stmt of
        [] \<Rightarrow> InvalidOid
      | rti # _ \<Rightarrow>
          (if rti > 0 \<and> rti \<le> length (ps_rtable stmt)
           then (let rte = rt_fetch rti (ps_rtable stmt)
                 in if rtekind rte = RTE_RELATION then relid rte else InvalidOid)
           else InvalidOid))"

definition planned_has_where :: "PlannedStmt \<Rightarrow> bool" where
  "planned_has_where stmt =
     (case planTree stmt of
        None \<Rightarrow> True
      | Some plan \<Rightarrow>
          (if plan_tag plan = T_ModifyTable
           then (case lefttree plan of
                   None \<Rightarrow> True
                 | Some sub \<Rightarrow> \<not> (plan_tag sub = T_SeqScan \<and> \<not> plan_has_qual sub))
           else True))"

definition pg_circuit_analyze_plannedstmt ::
    "pg_server \<Rightarrow> PlannedStmt option \<Rightarrow> report + PgCircuitQueryInfo" where
  "pg_circuit_analyze_plannedstmt pg stmt =
     (case stmt of
        None \<Rightarrow> Inr init_qinfo
      | Some s \<Rightarrow>
          (if ps_commandType s \<noteq> CMD_DELETE \<and> ps_commandType s \<noteq> CMD_UPDATE then Inr init_qinfo
           else rbind (fill_target pg (planned_relation_oid s) (planned_has_where s)
                         (plan_estimated_rows stmt) init_qinfo)
                  (\<lambda>qinfo. Inr (dml_kind (ps_commandType s) (planned_has_where s) qinfo))))"


section \<open>Facts about the analysis\<close>

lemma init_qinfo_fields [simp]:
  "qi_kind init_qinfo = PGC_QKIND_OTHER" "qi_estimated_rows init_qinfo = - 1"
  "qi_relation_oid init_qinfo = 0" "qi_relation_qualname init_qinfo = ''''"
  "qi_relation_name init_qinfo = ''''" "qi_ddl_detail init_qinfo = ''''"
  "qi_lock_class init_qinfo = PGC_LOCK_NONE" "qi_is_write init_qinfo = False"
  "qi_concurrent init_qinfo = False" "qi_rewrite_likely init_qinfo = False"
  by (simp_all add: init_qinfo_def zero_qinfo_def InvalidOid_def)

lemma fill_target_fields:
  assumes "fill_target pg rid hw rows q = Inr q'"
  shows "qi_kind q' = qi_kind q" and "qi_relation_oid q' = rid" and "qi_has_where q' = hw"
    and "qi_is_write q'" and "\<exists>r. clamp_estimated_rows pg rid r = Inr (qi_estimated_rows q')"
  using assms by (auto simp: fill_target_def rbind_eq_Inr)

lemma dml_kind_fields [simp]:
  "qi_kind (dml_kind cmd hw q) =
     (if hw then qi_kind q
      else if cmd = CMD_DELETE then PGC_QKIND_DELETE_NO_WHERE else PGC_QKIND_UPDATE_NO_WHERE)"
  "qi_estimated_rows (dml_kind cmd hw q) = qi_estimated_rows q"
  "qi_relation_oid (dml_kind cmd hw q) = qi_relation_oid q"
  by (simp_all add: dml_kind_def)

lemma analyze_planned_kind:
  assumes "pg_circuit_analyze_plannedstmt pg (Some s) = Inr q"
  shows "qi_kind q =
     (if planned_has_where s then PGC_QKIND_OTHER
      else if ps_commandType s = CMD_DELETE then PGC_QKIND_DELETE_NO_WHERE
      else if ps_commandType s = CMD_UPDATE then PGC_QKIND_UPDATE_NO_WHERE
      else PGC_QKIND_OTHER)"
  using assms
  by (auto simp: pg_circuit_analyze_plannedstmt_def rbind_eq_Inr fill_target_fields(1) split: if_split_asm)

lemma clamp_rows_bounded:
  assumes "server_storage_ok pg" and "OidIsValid rid" and "try_relation_open pg rid = Inr (Some rel)"
    and "rd_nblocks rel = Inr pages" and "clamp_estimated_rows pg rid rows = Inr r"
  shows "r \<le> 2 ^ 47"
proof -
  note b = open_relation_bounds [OF assms(1,3,4)]
  define bound where "bound = (of_int (pages * MaxHeapTuplesPerPage pg) :: real)"
  have e: "pg_circuit_relation_physical_tuple_bound pg rid = Inr bound"
    using physical_bound_eq [OF assms(1,3,4,2)] by (simp add: bound_def)
  have "0 \<le> bound"
  proof -
    have "0 < MaxHeapTuplesPerPage pg" using assms(1) by (simp add: server_storage_ok_def)
    then have "0 \<le> pages * MaxHeapTuplesPerPage pg" using b by simp
    then show ?thesis unfolding bound_def by (subst of_int_0_le_iff)
  qed
  moreover from physical_bound_range [OF assms(1) e] this have "bound \<le> 2 ^ 47" by simp
  ultimately show ?thesis
    using assms(5) by (auto simp: clamp_estimated_rows_def e split: if_split_asm)
qed

lemma planned_rows:
  assumes "pg_circuit_analyze_plannedstmt pg (Some s) = Inr q"
  shows "qi_estimated_rows q = - 1
   \<or> (\<exists>rows. clamp_estimated_rows pg (planned_relation_oid s) rows = Inr (qi_estimated_rows q))"
  using assms
  by (auto simp: pg_circuit_analyze_plannedstmt_def rbind_eq_Inr split: if_split_asm
      dest: fill_target_fields(5))

end
