(* ===== verification/Pgc_Utility_Analysis.thy ===== *)
theory Pgc_Utility_Analysis
  imports Pgc_Risk_Engine Pgc_Relations Pgc_World
begin

text \<open>
  \<open>src/utility_analysis.c\<close>: classification of utility statements. Name lookup and option
  parsing belong to the server and can raise.
\<close>

definition init_utility_qinfo :: PgCircuitQueryInfo where
  "init_utility_qinfo =
     zero_qinfo\<lparr>qi_kind := PGC_QKIND_OTHER, qi_relation_oid := InvalidOid,
                qi_estimated_rows := - 1, qi_relation_size := - 1, qi_has_where := False,
                qi_is_write := False, qi_concurrent := False, qi_rewrite_likely := False,
                qi_lock_class := PGC_LOCK_NONE\<rparr>"

definition fill_relation_from_rangevar ::
    "pg_server \<Rightarrow> RangeVar option \<Rightarrow> PgCircuitQueryInfo \<Rightarrow> report + PgCircuitQueryInfo" where
  "fill_relation_from_rangevar pg rv qinfo =
     (case rv of
        None \<Rightarrow> Inr qinfo
      | Some v \<Rightarrow>
          (let qinfo = qinfo\<lparr>qi_relation_name := strlcpy (relname v) NAMEDATALEN\<rparr>
           in rbind (RangeVarGetRelid pg v) (\<lambda>rid.
                let qinfo = qinfo\<lparr>qi_relation_oid := rid\<rparr>
                in if OidIsValid rid
                   then rbind (pg_circuit_relation_qualname pg rid (NAMEDATALEN * 2 + 2)) (\<lambda>qualname.
                        rbind (pg_circuit_relation_size pg rid) (\<lambda>bytes.
                        rbind (pg_circuit_relation_estimated_tuples pg rid) (\<lambda>rows.
                          Inr (qinfo\<lparr>qi_relation_qualname := qualname, qi_relation_size := bytes,
                                     qi_estimated_rows := rows\<rparr>))))
                   else Inr qinfo)))"

fun def_list_has_bool :: "pg_server \<Rightarrow> DefElem list \<Rightarrow> string \<Rightarrow> report + bool" where
  "def_list_has_bool pg [] name = Inr False"
| "def_list_has_bool pg (opt # opts) name =
     (if defname opt = name then defGetBoolean pg opt else def_list_has_bool pg opts name)"


section \<open>ALTER TABLE\<close>

definition alter_step ::
    "AlterTableType \<Rightarrow> PgCircuitLockClass \<times> bool \<times> string \<Rightarrow> PgCircuitLockClass \<times> bool \<times> string" where
  "alter_step cmd acc =
     (case acc of (worst, rewrite, detail) \<Rightarrow>
       (case cmd of
          AT_AddColumn \<Rightarrow>
            (if worst < PGC_LOCK_MEDIUM then PGC_LOCK_MEDIUM else worst, rewrite, ''ADD COLUMN'')
        | AT_DropColumn \<Rightarrow> (PGC_LOCK_HIGH, True, ''DROP COLUMN'')
        | AT_AlterColumnType \<Rightarrow> (PGC_LOCK_HIGH, True, ''ALTER COLUMN TYPE'')
        | AT_SetNotNull \<Rightarrow> (PGC_LOCK_HIGH, rewrite, ''SET NOT NULL'')
        | AT_DropNotNull \<Rightarrow>
            (if worst < PGC_LOCK_MEDIUM then PGC_LOCK_MEDIUM else worst, rewrite, ''DROP NOT NULL'')
        | AT_AddConstraint \<Rightarrow> (PGC_LOCK_HIGH, rewrite, ''ADD CONSTRAINT'')
        | AT_DropConstraint \<Rightarrow> (PGC_LOCK_HIGH, rewrite, ''DROP CONSTRAINT'')
        | AT_SetTableSpace \<Rightarrow> (PGC_LOCK_HIGH, True, ''storage rewrite ALTER'')
        | AT_SetLogged \<Rightarrow> (PGC_LOCK_HIGH, True, ''storage rewrite ALTER'')
        | AT_SetUnLogged \<Rightarrow> (PGC_LOCK_HIGH, True, ''storage rewrite ALTER'')
        | AT_Other _ \<Rightarrow>
            (if worst < PGC_LOCK_LOW then PGC_LOCK_LOW else worst, rewrite, ''ALTER TABLE (other)'')))"

definition classify_alter_table ::
    "pg_server \<Rightarrow> RangeVar option \<Rightarrow> AlterTableType list \<Rightarrow> PgCircuitQueryInfo
     \<Rightarrow> report + PgCircuitQueryInfo" where
  "classify_alter_table pg relation cmds qinfo =
     (let qinfo = qinfo\<lparr>qi_is_write := True, qi_kind := PGC_QKIND_ALTER_TABLE\<rparr>
      in rbind (fill_relation_from_rangevar pg relation qinfo) (\<lambda>qinfo.
           case fold alter_step cmds (PGC_LOCK_LOW, False, ''ALTER TABLE'') of
             (worst, rewrite, detail) \<Rightarrow>
               Inr (qinfo\<lparr>qi_lock_class := worst, qi_rewrite_likely := rewrite,
                          qi_ddl_detail := strlcpy detail 128\<rparr>)))"


section \<open>Utility statements\<close>

definition risky_ddl ::
    "PgCircuitQueryKind \<Rightarrow> PgCircuitLockClass \<Rightarrow> string \<Rightarrow> PgCircuitQueryInfo \<Rightarrow> PgCircuitQueryInfo" where
  "risky_ddl kind lock_class detail qinfo =
     qinfo\<lparr>qi_is_write := True, qi_kind := kind, qi_lock_class := lock_class,
           qi_ddl_detail := strlcpy detail 128\<rparr>"

definition analyze_drop ::
    "pg_server \<Rightarrow> ObjectType \<Rightarrow> string list list \<Rightarrow> bool \<Rightarrow> report + PgCircuitQueryInfo" where
  "analyze_drop pg remove_type names missing =
     (if remove_type = OBJECT_TABLE
      then (let qinfo = risky_ddl PGC_QKIND_DROP_TABLE PGC_LOCK_HIGH ''DROP TABLE'' init_utility_qinfo
            in case names of
                 [] \<Rightarrow> Inr qinfo
               | objname # _ \<Rightarrow>
                   rbind (makeRangeVarFromNameList pg objname) (\<lambda>rv.
                   rbind (fill_relation_from_rangevar pg (Some rv) qinfo) (\<lambda>qinfo.
                     Inr (if missing \<and> \<not> OidIsValid (qi_relation_oid qinfo)
                          then init_utility_qinfo else qinfo))))
      else Inr init_utility_qinfo)"

definition analyze_reindex ::
    "pg_server \<Rightarrow> DefElem list \<Rightarrow> RangeVar option \<Rightarrow> report + PgCircuitQueryInfo" where
  "analyze_reindex pg params relation =
     rbind (def_list_has_bool pg params ''concurrently'') (\<lambda>concurrent.
       fill_relation_from_rangevar pg relation
         ((risky_ddl PGC_QKIND_REINDEX (if concurrent then PGC_LOCK_LOW else PGC_LOCK_HIGH)
             (if concurrent then ''REINDEX CONCURRENTLY'' else ''REINDEX'') init_utility_qinfo)
          \<lparr>qi_concurrent := concurrent\<rparr>))"

definition analyze_vacuum ::
    "pg_server \<Rightarrow> bool \<Rightarrow> DefElem list \<Rightarrow> RangeVar option list \<Rightarrow> report + PgCircuitQueryInfo" where
  "analyze_vacuum pg vacuumcmd options rels =
     (if \<not> vacuumcmd then Inr init_utility_qinfo
      else rbind (def_list_has_bool pg options ''full'') (\<lambda>is_full.
        if \<not> is_full then Inr init_utility_qinfo
        else (let qinfo = (risky_ddl PGC_QKIND_VACUUM_FULL PGC_LOCK_HIGH ''VACUUM FULL''
                             init_utility_qinfo)\<lparr>qi_rewrite_likely := True\<rparr>
              in case rels of
                   [] \<Rightarrow> Inr qinfo
                 | rel # _ \<Rightarrow> fill_relation_from_rangevar pg rel qinfo)))"

definition pg_circuit_analyze_utility ::
    "pg_server \<Rightarrow> Node option \<Rightarrow> report + PgCircuitQueryInfo" where
  "pg_circuit_analyze_utility pg parsetree =
     (case parsetree of
        None \<Rightarrow> Inr init_utility_qinfo
      | Some node \<Rightarrow>
          (if AmAutoVacuumWorkerProcess pg then Inr init_utility_qinfo
           else
           (case node of
              TruncateStmt relations \<Rightarrow>
                fill_relation_from_rangevar pg
                  (case relations of [] \<Rightarrow> None | rv # _ \<Rightarrow> Some rv)
                  (risky_ddl PGC_QKIND_TRUNCATE PGC_LOCK_HIGH ''TRUNCATE'' init_utility_qinfo)
            | DropStmt remove_type names missing \<Rightarrow> analyze_drop pg remove_type names missing
            | DropdbStmt dbname \<Rightarrow>
                (let qinfo = risky_ddl PGC_QKIND_DROP_DATABASE PGC_LOCK_HIGH ''DROP DATABASE''
                               init_utility_qinfo
                 in Inr (case dbname of
                           Some d \<Rightarrow> qinfo\<lparr>qi_relation_name := strlcpy d NAMEDATALEN\<rparr>
                         | None \<Rightarrow> qinfo))
            | AlterTableStmt relation cmds \<Rightarrow>
                classify_alter_table pg relation cmds init_utility_qinfo
            | RenameStmt rename_type relation \<Rightarrow>
                (if rename_type = OBJECT_TABLE \<or> rename_type = OBJECT_COLUMN
                 then fill_relation_from_rangevar pg relation
                        (risky_ddl PGC_QKIND_ALTER_TABLE PGC_LOCK_HIGH
                           (if rename_type = OBJECT_COLUMN then ''RENAME COLUMN'' else ''RENAME TABLE'')
                           init_utility_qinfo)
                 else Inr init_utility_qinfo)
            | IndexStmt relation concurrent \<Rightarrow>
                rbind (fill_relation_from_rangevar pg relation
                         (init_utility_qinfo\<lparr>qi_is_write := True, qi_concurrent := concurrent\<rparr>))
                  (\<lambda>qinfo. Inr (if concurrent
                     then risky_ddl PGC_QKIND_CREATE_INDEX_CONCURRENTLY PGC_LOCK_LOW
                            ''CREATE INDEX CONCURRENTLY'' qinfo
                     else risky_ddl PGC_QKIND_CREATE_INDEX PGC_LOCK_MEDIUM ''CREATE INDEX'' qinfo))
            | ReindexStmt params relation \<Rightarrow> analyze_reindex pg params relation
            | VacuumStmt vacuumcmd options rels \<Rightarrow> analyze_vacuum pg vacuumcmd options rels
            | ClusterStmt relation \<Rightarrow>
                fill_relation_from_rangevar pg relation
                  ((risky_ddl PGC_QKIND_CLUSTER PGC_LOCK_HIGH ''CLUSTER'' init_utility_qinfo)
                   \<lparr>qi_rewrite_likely := True\<rparr>)
            | OtherStmt \<Rightarrow> Inr init_utility_qinfo)))"


section \<open>Facts about the analysis\<close>

lemma init_utility_fields [simp]:
  "qi_kind init_utility_qinfo = PGC_QKIND_OTHER"
  "qi_lock_class init_utility_qinfo = PGC_LOCK_NONE"
  "qi_estimated_rows init_utility_qinfo = - 1"
  by (simp_all add: init_utility_qinfo_def zero_qinfo_def)

lemma risky_ddl_fields [simp]:
  "qi_kind (risky_ddl k l d q) = k"
  "qi_lock_class (risky_ddl k l d q) = l"
  by (simp_all add: risky_ddl_def)

text \<open>Looking the relation up never changes the classification.\<close>

lemma fill_relation_keeps:
  assumes "fill_relation_from_rangevar pg rv q = Inr q'"
  shows "qi_kind q' = qi_kind q" and "qi_lock_class q' = qi_lock_class q"
    and "qi_concurrent q' = qi_concurrent q" and "qi_rewrite_likely q' = qi_rewrite_likely q"
    and "qi_ddl_detail q' = qi_ddl_detail q" and "qi_is_write q' = qi_is_write q"
  using assms
  by (auto simp: fill_relation_from_rangevar_def rbind_eq_Inr Let_def split: option.splits if_splits)

lemma def_list_has_bool_named:
  "def_list_has_bool pg opts name = Inr True \<Longrightarrow> \<exists>opt \<in> set opts. defname opt = name"
  by (induction opts) (auto split: if_splits)

text \<open>The lock class a subcommand asks for; the loop keeps the strongest.\<close>

definition alter_lock_class :: "AlterTableType \<Rightarrow> PgCircuitLockClass" where
  "alter_lock_class cmd =
     (case cmd of
        AT_AddColumn \<Rightarrow> PGC_LOCK_MEDIUM | AT_DropNotNull \<Rightarrow> PGC_LOCK_MEDIUM
      | AT_Other _ \<Rightarrow> PGC_LOCK_LOW | _ \<Rightarrow> PGC_LOCK_HIGH)"

definition alter_rewrites :: "AlterTableType \<Rightarrow> bool" where
  "alter_rewrites cmd \<longleftrightarrow>
     cmd \<in> {AT_DropColumn, AT_AlterColumnType, AT_SetTableSpace, AT_SetLogged, AT_SetUnLogged}"

lemma alter_step_worst:
  "PGC_LOCK_LOW \<le> l \<Longrightarrow> fst (alter_step cmd (l, r, d)) = max l (alter_lock_class cmd)"
  by (cases cmd; cases l)
    (simp_all add: alter_step_def alter_lock_class_def max_def PgCircuitLockClass_order)

lemma alter_step_rewrite: "fst (snd (alter_step cmd (l, r, d))) = (r \<or> alter_rewrites cmd)"
  by (cases cmd) (simp_all add: alter_step_def alter_rewrites_def)

lemma alter_fold:
  assumes "PGC_LOCK_LOW \<le> l"
  shows "fst (fold alter_step cmds (l, r, d)) = Max (insert l (alter_lock_class ` set cmds))
     \<and> fst (snd (fold alter_step cmds (l, r, d))) = (r \<or> (\<exists>c \<in> set cmds. alter_rewrites c))"
  using assms
proof (induction cmds arbitrary: l r d)
  case Nil
  then show ?case by simp
next
  case (Cons c cs)
  obtain l' r' d' where s: "alter_step c (l, r, d) = (l', r', d')" by (metis prod.exhaust)
  have lr: "l' = max l (alter_lock_class c)" "r' = (r \<or> alter_rewrites c)"
    using alter_step_worst [OF Cons.prems, of c r d] alter_step_rewrite [of c l r d] by (simp_all add: s)
  have "PGC_LOCK_LOW \<le> l'" using Cons.prems by (simp add: lr le_max_iff_disj)
  from Cons.IH [OF this, of r' d']
  have IH: "fst (fold alter_step cs (l', r', d')) = Max (insert l' (alter_lock_class ` set cs))"
    "fst (snd (fold alter_step cs (l', r', d'))) = (r' \<or> (\<exists>c \<in> set cs. alter_rewrites c))" by auto
  have "Max (insert l' (alter_lock_class ` set cs))
      = Max (insert l (alter_lock_class ` set (c # cs)))"
    unfolding lr by (cases "cs = []") (simp_all add: max.assoc)
  with IH show ?case by (auto simp: s lr)
qed

end
