(* ===== verification/Pgc_Hooks.thy ===== *)
theory Pgc_Hooks
  imports Pgc_Runtime Pgc_Circuit_Breaker Pgc_Event_Fill Pgc_Query_Analysis Pgc_Utility_Analysis
begin

text \<open>
  \<open>src/hooks.c\<close>: the server hooks. A risky statement is analysed, assessed, recorded and
  decided before the next hook of the chain (or the server's own routine) runs it; an internal
  error is caught and turned into the fail-open or fail-closed report.
\<close>

section \<open>Evaluating a statement\<close>

definition should_skip_check :: "pg_server \<Rightarrow> config \<Rightarrow> bool" where
  "should_skip_check pg cfg =
     (if \<not> pg_circuit_enabled cfg then True
      else if IsParallelWorker pg then True
      else False)"

definition debug_message ::
    "PgCircuitQueryInfo \<Rightarrow> PgCircuitRuntimeState \<Rightarrow> PgCircuitRiskAssessment \<Rightarrow> string" where
  "debug_message qinfo runtime assessment =
     ''pg_circuit decision='' @ pg_circuit_decision_name (PgCircuitDecision_code (as_decision assessment))
     @ '' score='' @ show_int (as_score assessment)
     @ '' mode='' @ pg_circuit_safety_mode_name (PgCircuitSafetyMode_code (rs_mode runtime))
     @ '' pressure='' @ show_int (rs_pressure_score runtime)
     @ '' kind='' @ show_int (PgCircuitQueryKind_code (qi_kind qinfo))
     @ '' rel='' @ (if qi_relation_qualname qinfo \<noteq> '''' then qi_relation_qualname qinfo
                    else qi_relation_name qinfo)
     @ '' rows='' @ decimal_0 (qi_estimated_rows qinfo)
     @ '' size='' @ show_int (qi_relation_size qinfo) @ newline
     @ pg_circuit_format_findings assessment"

definition debug_log_decision ::
    "config \<Rightarrow> PgCircuitQueryInfo \<Rightarrow> PgCircuitRuntimeState \<Rightarrow> PgCircuitRiskAssessment \<Rightarrow> unit action" where
  "debug_log_decision cfg qinfo runtime assessment =
     (if \<not> pg_circuit_debug cfg then ret ()
      else ereport (elog DEBUG1 (debug_message qinfo runtime assessment)))"

definition fail_closed_report :: "string \<Rightarrow> report" where
  "fail_closed_report msg =
     \<lparr>elevel = ERROR, sqlerrcode = ERRCODE_INTERNAL_ERROR,
      errmsg = ''PG Circuit internal error (fail_closed): '' @ msg,
      errdetail = None,
      errhint = Some ''set pg_circuit.fail_closed=off to fail open, or fix the underlying fault''\<rparr>"

definition fail_open_report :: "string \<Rightarrow> report" where
  "fail_open_report msg =
     \<lparr>elevel = WARNING, sqlerrcode = ERRCODE_WARNING,
      errmsg = ''PG Circuit internal error (fail_open): '' @ msg,
      errdetail = None,
      errhint = Some ''statement allowed; check logs and extension health''\<rparr>"

definition handle_internal_failure :: "config \<Rightarrow> report \<Rightarrow> unit action" where
  "handle_internal_failure cfg edata =
     ebind (if PgCircuitMode_of (pg_circuit_mode cfg) = Some PGC_MODE_ENFORCE
               \<and> pg_circuit_fail_closed cfg
            then ereport (fail_closed_report (errmsg edata)) else ret ())
       (\<lambda>_. ereport (fail_open_report (errmsg edata)))"

definition evaluate_body :: "pg_server \<Rightarrow> config \<Rightarrow> PgCircuitQueryInfo \<Rightarrow> unit action" where
  "evaluate_body pg cfg qinfo =
     ebind (if pg_circuit_fault_is (pg_strcaseeq pg) cfg ''runtime''
            then ereport (elog ERROR ''injected runtime-state failure'') else ret ()) (\<lambda>_.
     ebind (lift_shared (pg_circuit_collect_runtime_state pg cfg)) (\<lambda>runtime.
       let assessment = pg_circuit_assess_query cfg qinfo runtime;
           policy = pg_circuit_policy_evaluate qinfo runtime assessment;
           event = pg_circuit_fill_risk_event pg qinfo runtime assessment (Some policy)
       in ebind (lift_shared
                   (pg_circuit_persist_risk_event pg cfg event qinfo assessment (Some policy))) (\<lambda>_.
          ebind (debug_log_decision cfg qinfo runtime assessment) (\<lambda>_.
          ebind (pg_circuit_apply_decision_ex pg cfg assessment runtime qinfo (Some policy)) (\<lambda>_.
            let assessment = pg_circuit_free_assessment assessment in ret ())))))"

definition evaluate_catch :: "config \<Rightarrow> report \<Rightarrow> unit action" where
  "evaluate_catch cfg edata =
     ebind (if sqlerrcode edata = ERRCODE_INSUFFICIENT_PRIVILEGE then throw edata else ret ())
       (\<lambda>_. handle_internal_failure cfg edata)"

definition evaluate_and_apply :: "pg_server \<Rightarrow> config \<Rightarrow> PgCircuitQueryInfo \<Rightarrow> unit action" where
  "evaluate_and_apply pg cfg qinfo =
     (if qi_kind qinfo = PGC_QKIND_OTHER then ret ()
      else pg_try (evaluate_body pg cfg qinfo) (evaluate_catch cfg))"


section \<open>The hook chain\<close>

text \<open>
  A hook variable holds this extension's routine, another one's, or nothing; \<open>call\<close> runs the
  routine of a saved variable, or the server's standard routine for \<open>None\<close>.
\<close>

datatype hook = PgCircuitHook | ForeignHook nat

record hook_slots =
  planner_hook :: "hook option"
  ProcessUtility_hook :: "hook option"
  ExecutorStart_hook :: "hook option"
  ExecutorEnd_hook :: "hook option"
  prev_planner_hook :: "hook option"
  prev_ProcessUtility_hook :: "hook option"
  prev_ExecutorStart_hook :: "hook option"
  prev_ExecutorEnd_hook :: "hook option"

definition pg_circuit_planner :: "hook_slots \<Rightarrow> (hook option \<Rightarrow> 'r action) \<Rightarrow> 'r action" where
  "pg_circuit_planner slots call = call (prev_planner_hook slots)"

definition options_has_full :: "DefElem list \<Rightarrow> bool" where
  "options_has_full options = list_ex (\<lambda>opt. defname opt = ''full'') options"

definition utility_may_be_risky :: "Node option \<Rightarrow> bool" where
  "utility_may_be_risky parsetree =
     (case parsetree of
        None \<Rightarrow> False
      | Some node \<Rightarrow>
          (case node of
             TruncateStmt _ \<Rightarrow> True
           | DropdbStmt _ \<Rightarrow> True
           | AlterTableStmt _ _ \<Rightarrow> True
           | IndexStmt _ _ \<Rightarrow> True
           | ReindexStmt _ _ \<Rightarrow> True
           | ClusterStmt _ \<Rightarrow> True
           | RenameStmt rename_type _ \<Rightarrow> rename_type = OBJECT_TABLE \<or> rename_type = OBJECT_COLUMN
           | DropStmt remove_type _ _ \<Rightarrow> remove_type = OBJECT_TABLE
           | VacuumStmt vacuumcmd options _ \<Rightarrow>
               (if \<not> vacuumcmd then False else options_has_full options)
           | OtherStmt \<Rightarrow> False))"

definition utility_check :: "pg_server \<Rightarrow> config \<Rightarrow> Node option \<Rightarrow> unit action" where
  "utility_check pg cfg parsetree =
     (if \<not> should_skip_check pg cfg \<and> utility_may_be_risky parsetree
      then ebind (lift_result (pg_circuit_analyze_utility pg parsetree)) (evaluate_and_apply pg cfg)
      else ret ())"

definition pg_circuit_process_utility ::
    "pg_server \<Rightarrow> config \<Rightarrow> hook_slots \<Rightarrow> Node option \<Rightarrow> (hook option \<Rightarrow> 'r action) \<Rightarrow> 'r action" where
  "pg_circuit_process_utility pg cfg slots parsetree call =
     ebind (utility_check pg cfg parsetree) (\<lambda>_. call (prev_ProcessUtility_hook slots))"

text \<open>
  \<open>queryDesc\<close> is NULL, or holds a possibly NULL planned statement; \<open>explain_only\<close> is the flag
  bit \<open>EXEC_FLAG_EXPLAIN_ONLY\<close>.
\<close>

definition executor_check ::
    "pg_server \<Rightarrow> config \<Rightarrow> PlannedStmt option option \<Rightarrow> bool \<Rightarrow> unit action" where
  "executor_check pg cfg queryDesc explain_only =
     (if \<not> should_skip_check pg cfg
         \<and> (case queryDesc of
              Some (Some s) \<Rightarrow> ps_commandType s = CMD_DELETE \<or> ps_commandType s = CMD_UPDATE
            | _ \<Rightarrow> False)
         \<and> \<not> explain_only
      then ebind (lift_result (pg_circuit_analyze_plannedstmt pg
                                 (case queryDesc of Some stmt \<Rightarrow> stmt | None \<Rightarrow> None)))
             (evaluate_and_apply pg cfg)
      else ret ())"

definition pg_circuit_executor_start ::
    "pg_server \<Rightarrow> config \<Rightarrow> hook_slots \<Rightarrow> PlannedStmt option option \<Rightarrow> bool
     \<Rightarrow> (hook option \<Rightarrow> 'r action) \<Rightarrow> 'r action" where
  "pg_circuit_executor_start pg cfg slots queryDesc explain_only call =
     ebind (executor_check pg cfg queryDesc explain_only) (\<lambda>_. call (prev_ExecutorStart_hook slots))"

definition pg_circuit_executor_end :: "hook_slots \<Rightarrow> (hook option \<Rightarrow> 'r action) \<Rightarrow> 'r action" where
  "pg_circuit_executor_end slots call = call (prev_ExecutorEnd_hook slots)"

definition pg_circuit_install_hooks :: "hook_slots \<Rightarrow> hook_slots" where
  "pg_circuit_install_hooks s =
     (let s = s\<lparr>prev_planner_hook := planner_hook s\<rparr>;
          s = s\<lparr>planner_hook := Some PgCircuitHook\<rparr>;
          s = s\<lparr>prev_ProcessUtility_hook := ProcessUtility_hook s\<rparr>;
          s = s\<lparr>ProcessUtility_hook := Some PgCircuitHook\<rparr>;
          s = s\<lparr>prev_ExecutorStart_hook := ExecutorStart_hook s\<rparr>;
          s = s\<lparr>ExecutorStart_hook := Some PgCircuitHook\<rparr>;
          s = s\<lparr>prev_ExecutorEnd_hook := ExecutorEnd_hook s\<rparr>
      in s\<lparr>ExecutorEnd_hook := Some PgCircuitHook\<rparr>)"

definition pg_circuit_uninstall_hooks :: "hook_slots \<Rightarrow> hook_slots" where
  "pg_circuit_uninstall_hooks s =
     (let s = (if planner_hook s = Some PgCircuitHook
               then s\<lparr>planner_hook := prev_planner_hook s\<rparr> else s);
          s = (if ProcessUtility_hook s = Some PgCircuitHook
               then s\<lparr>ProcessUtility_hook := prev_ProcessUtility_hook s\<rparr> else s);
          s = (if ExecutorStart_hook s = Some PgCircuitHook
               then s\<lparr>ExecutorStart_hook := prev_ExecutorStart_hook s\<rparr> else s)
      in if ExecutorEnd_hook s = Some PgCircuitHook
         then s\<lparr>ExecutorEnd_hook := prev_ExecutorEnd_hook s\<rparr> else s)"


section \<open>The contract of a hook\<close>

text \<open>
  A hook first checks and then passes the statement on, exactly once, to the routine it
  replaced. If the check raises, the statement never reaches that routine.
\<close>

locale chained_hook =
  fixes run :: "(hook option \<Rightarrow> 'r action) \<Rightarrow> 'r action" and check :: "unit action"
    and prev :: "hook option"
  assumes run_check: "run call = ebind check (\<lambda>_. call prev)"
begin

lemma check_raises: "check w = (Inl e, w') \<Longrightarrow> run call w = (Inl e, w')"
  by (simp add: run_check ebind_def)

lemma check_passes: "check w = (Inr (), w') \<Longrightarrow> run call w = call prev w'"
  by (simp add: run_check ebind_def)

lemma passes_or_raises:
  assumes "\<And>e w1. check w = (Inl e, w1) \<Longrightarrow> P e"
  shows "(\<exists>w1. \<forall>call. run call w = call prev w1)
     \<or> (\<exists>e w1. (\<forall>call. run call w = (Inl e, w1)) \<and> P e)"
proof (cases "check w")
  case (Pair r w1)
  with assms show ?thesis by (cases r) (auto simp: run_check ebind_def)
qed

end

interpretation planner: chained_hook "pg_circuit_planner slots" "ret ()" "prev_planner_hook slots"
  for slots
  by unfold_locales (simp add: pg_circuit_planner_def action_simps)

interpretation utility: chained_hook "pg_circuit_process_utility pg cfg slots node"
    "utility_check pg cfg node" "prev_ProcessUtility_hook slots"
  for pg cfg slots node
  by unfold_locales (simp add: pg_circuit_process_utility_def)

interpretation executor_start: chained_hook "pg_circuit_executor_start pg cfg slots qd eo"
    "executor_check pg cfg qd eo" "prev_ExecutorStart_hook slots"
  for pg cfg slots qd eo
  by unfold_locales (simp add: pg_circuit_executor_start_def)

interpretation executor_end: chained_hook "pg_circuit_executor_end slots" "ret ()"
    "prev_ExecutorEnd_hook slots"
  for slots
  by unfold_locales (simp add: pg_circuit_executor_end_def action_simps)


section \<open>Running an evaluation\<close>

definition debug_lines ::
    "config \<Rightarrow> PgCircuitQueryInfo \<Rightarrow> PgCircuitRuntimeState \<Rightarrow> PgCircuitRiskAssessment \<Rightarrow> report list" where
  "debug_lines cfg q r a = (if pg_circuit_debug cfg then [elog DEBUG1 (debug_message q r a)] else [])"

lemma debug_log_run:
  "debug_log_decision cfg q r a w = (Inr (), w\<lparr>w_log := w_log w @ debug_lines cfg q r a\<rparr>)"
  by (simp add: debug_log_decision_def debug_lines_def ret_def ereport_def elog_def)

definition recorded ::
    "pg_server \<Rightarrow> config \<Rightarrow> PgCircuitQueryInfo \<Rightarrow> PgCircuitRuntimeState
     \<Rightarrow> PgCircuitSharedState option \<Rightarrow> (report + unit) \<times> PgCircuitSharedState option" where
  "recorded pg cfg q runtime shared =
     (let a = pg_circuit_assess_query cfg q runtime;
          p = pg_circuit_policy_evaluate q runtime a
      in pg_circuit_persist_risk_event pg cfg (pg_circuit_fill_risk_event pg q runtime a (Some p))
           q a (Some p) shared)"

lemma recorded_raises:
  "recorded pg cfg q runtime sh = (Inl e, sh') \<Longrightarrow>
   event_names pg (MyDatabaseId pg) (CurrentUserId pg) = Inl e \<and> sh' = sh"
  by (simp add: recorded_def pg_circuit_persist_risk_event_def pg_circuit_fill_risk_event_def Let_def
      split: sum.splits prod.splits)

lemma recorded_returns:
  "event_names pg (MyDatabaseId pg) (CurrentUserId pg) = Inr names \<Longrightarrow>
   recorded pg cfg q runtime sh = (Inr (), snd (recorded pg cfg q runtime sh))"
  using recorded_raises [of pg cfg q runtime sh]
  by (cases "recorded pg cfg q runtime sh"; cases "fst (recorded pg cfg q runtime sh)") auto

definition runtime_fault :: "pg_server \<Rightarrow> config \<Rightarrow> bool" where
  "runtime_fault pg cfg = pg_circuit_fault_is (pg_strcaseeq pg) cfg ''runtime''"

lemma evaluate_body_fault:
  "runtime_fault pg cfg \<Longrightarrow>
   evaluate_body pg cfg q w = (Inl (elog ERROR ''injected runtime-state failure''), w)"
  by (simp add: evaluate_body_def runtime_fault_def ebind_def ereport_def elog_def)

lemma evaluate_body_error:
  assumes "\<not> runtime_fault pg cfg"
    and "pg_circuit_collect_runtime_state pg cfg (w_shared w) = (Inl e, sh)"
  shows "evaluate_body pg cfg q w = (Inl e, w\<lparr>w_shared := sh\<rparr>)"
  using assms by (simp add: evaluate_body_def runtime_fault_def ebind_def ret_def lift_shared_def)

lemma evaluate_body_unrecorded:
  assumes "\<not> runtime_fault pg cfg"
    and "pg_circuit_collect_runtime_state pg cfg (w_shared w) = (Inr runtime, sh)"
    and "recorded pg cfg q runtime sh = (Inl e, sh')"
  shows "evaluate_body pg cfg q w = (Inl e, w\<lparr>w_shared := sh'\<rparr>)"
  using assms
  by (simp add: evaluate_body_def runtime_fault_def action_simps Let_def)
    (simp add: ebind_def lift_shared_def recorded_def Let_def)

lemma evaluate_body_run:
  assumes "\<not> runtime_fault pg cfg"
    and "pg_circuit_collect_runtime_state pg cfg (w_shared w) = (Inr runtime, sh)"
    and "recorded pg cfg q runtime sh = (Inr (), sh')"
  shows "evaluate_body pg cfg q w =
     (let a = pg_circuit_assess_query cfg q runtime
      in pg_circuit_apply_decision_ex pg cfg a runtime q
           (Some (pg_circuit_policy_evaluate q runtime a))
           (w\<lparr>w_shared := sh', w_log := w_log w @ debug_lines cfg q runtime a\<rparr>))"
proof -
  have unit: "ebind m (\<lambda>_. ret ()) = m" for m :: "unit action"
    by (auto simp: ebind_def ret_def fun_eq_iff split: prod.split sum.split)
  show ?thesis
    using assms
    by (simp add: evaluate_body_def runtime_fault_def action_simps Let_def unit)
      (simp add: ebind_def lift_shared_def debug_log_run recorded_def Let_def)
qed

lemma evaluate_catch_run:
  "evaluate_catch cfg e w =
     (if sqlerrcode e = ERRCODE_INSUFFICIENT_PRIVILEGE then (Inl e, w)
      else if PgCircuitMode_of (pg_circuit_mode cfg) = Some PGC_MODE_ENFORCE
              \<and> pg_circuit_fail_closed cfg
      then (Inl (fail_closed_report (errmsg e)), w)
      else (Inr (), w\<lparr>w_log := w_log w @ [fail_open_report (errmsg e)]\<rparr>))"
  by (simp add: evaluate_catch_def handle_internal_failure_def ebind_def throw_def ret_def
      ereport_def fail_closed_report_def fail_open_report_def)

lemma evaluate_other: "qi_kind q = PGC_QKIND_OTHER \<Longrightarrow> evaluate_and_apply pg cfg q = ret ()"
  by (simp add: evaluate_and_apply_def)

lemma evaluate_raised:
  assumes "qi_kind q \<noteq> PGC_QKIND_OTHER" and "evaluate_body pg cfg q w = (Inl e, w')"
  shows "evaluate_and_apply pg cfg q w = evaluate_catch cfg e w'"
  using assms by (simp add: evaluate_and_apply_def pg_try_def)

lemma evaluate_returned:
  assumes "qi_kind q \<noteq> PGC_QKIND_OTHER" and "evaluate_body pg cfg q w = (Inr u, w')"
  shows "evaluate_and_apply pg cfg q w = (Inr u, w')"
  using assms by (simp add: evaluate_and_apply_def pg_try_def)

text \<open>
  The four outcomes of the protected part: a fault, a failed collector, a failed name lookup of
  the event, a decision.
\<close>

lemma evaluate_body_cases:
  obtains (fault) "runtime_fault pg cfg"
      "evaluate_body pg cfg q w = (Inl (elog ERROR ''injected runtime-state failure''), w)"
    | (error) e sh where "\<not> runtime_fault pg cfg"
      "pg_circuit_collect_runtime_state pg cfg (w_shared w) = (Inl e, sh)"
      "evaluate_body pg cfg q w = (Inl e, w\<lparr>w_shared := sh\<rparr>)"
    | (unrecorded) runtime sh e sh' where "\<not> runtime_fault pg cfg"
      "pg_circuit_collect_runtime_state pg cfg (w_shared w) = (Inr runtime, sh)"
      "recorded pg cfg q runtime sh = (Inl e, sh')"
      "evaluate_body pg cfg q w = (Inl e, w\<lparr>w_shared := sh'\<rparr>)"
    | (decided) runtime sh sh' where "\<not> runtime_fault pg cfg"
      "pg_circuit_collect_runtime_state pg cfg (w_shared w) = (Inr runtime, sh)"
      "recorded pg cfg q runtime sh = (Inr (), sh')"
      "evaluate_body pg cfg q w =
         pg_circuit_apply_decision_ex pg cfg (pg_circuit_assess_query cfg q runtime) runtime q
           (Some (pg_circuit_policy_evaluate q runtime (pg_circuit_assess_query cfg q runtime)))
           (w\<lparr>w_shared := sh',
              w_log := w_log w @ debug_lines cfg q runtime (pg_circuit_assess_query cfg q runtime)\<rparr>)"
proof (cases "runtime_fault pg cfg")
  case True
  then show ?thesis by (intro fault evaluate_body_fault)
next
  case False
  obtain r sh where c: "pg_circuit_collect_runtime_state pg cfg (w_shared w) = (r, sh)" by fastforce
  show ?thesis
  proof (cases r)
    case (Inl e)
    with False c show ?thesis by (intro error [of e sh] evaluate_body_error) simp_all
  next
    case (Inr runtime)
    then have c': "pg_circuit_collect_runtime_state pg cfg (w_shared w) = (Inr runtime, sh)"
      using c by simp
    obtain rr sh' where rec: "recorded pg cfg q runtime sh = (rr, sh')" by fastforce
    show ?thesis
    proof (cases rr)
      case (Inl e)
      with rec have "recorded pg cfg q runtime sh = (Inl e, sh')" by simp
      from unrecorded [OF False c' this] evaluate_body_unrecorded [OF False c' this] show ?thesis .
    next
      case (Inr u)
      with rec have "recorded pg cfg q runtime sh = (Inr (), sh')" by simp
      from decided [OF False c' this] evaluate_body_run [OF False c' this] show ?thesis
        by (simp add: Let_def)
    qed
  qed
qed

text \<open>With the collectors and the name lookups returning, the decision is what happens.\<close>

lemma evaluate_decides:
  assumes "qi_kind q \<noteq> PGC_QKIND_OTHER" and "\<not> runtime_fault pg cfg"
    and "pg_circuit_collect_runtime_state pg cfg (w_shared w) = (Inr runtime, sh)"
    and "event_names pg (MyDatabaseId pg) (CurrentUserId pg) = Inr names"
    and "a = pg_circuit_assess_query cfg q runtime"
    and "detail = format_decision_detail pg cfg a runtime q (Some (pg_circuit_policy_evaluate q runtime a))"
    and "w1 = w\<lparr>w_shared := snd (recorded pg cfg q runtime sh),
                w_log := w_log w @ debug_lines cfg q runtime a\<rparr>"
  shows "evaluate_and_apply pg cfg q w =
     (case as_decision a of
        PGC_DECISION_ALLOW \<Rightarrow> (Inr (), w1)
      | PGC_DECISION_WARN \<Rightarrow>
          (Inr (), w1\<lparr>w_log := w_log w1 @ [warn_report (decision_rule a) detail]\<rparr>)
      | PGC_DECISION_BLOCK \<Rightarrow> (Inl (block_report (decision_rule a) detail), w1))"
proof -
  have b: "evaluate_body pg cfg q w =
     (case as_decision a of
        PGC_DECISION_ALLOW \<Rightarrow> (Inr (), w1)
      | PGC_DECISION_WARN \<Rightarrow>
          (Inr (), w1\<lparr>w_log := w_log w1 @ [warn_report (decision_rule a) detail]\<rparr>)
      | PGC_DECISION_BLOCK \<Rightarrow> (Inl (block_report (decision_rule a) detail), w1))"
    using evaluate_body_run [OF assms(2,3) recorded_returns [OF assms(4)]]
    by (simp only: Let_def apply_decision_run flip: assms(5-7))
  show ?thesis
  proof (cases "as_decision a")
    case PGC_DECISION_BLOCK
    with b have "evaluate_body pg cfg q w = (Inl (block_report (decision_rule a) detail), w1)" by simp
    from evaluate_raised [OF assms(1) this] PGC_DECISION_BLOCK show ?thesis
      by (simp add: evaluate_catch_run block_report_def)
  qed (use b evaluate_returned [OF assms(1)] in simp_all)
qed

lemma evaluate_blocks:
  assumes "PgCircuitMode_of (pg_circuit_mode cfg) = Some PGC_MODE_ENFORCE"
    and "pg_circuit_fail_closed cfg" and "qi_kind q \<noteq> PGC_QKIND_OTHER"
    and "pg_circuit_risk_block_threshold cfg \<le> base_score q"
  shows "\<exists>e w'. evaluate_and_apply pg cfg q w = (Inl e, w')"
proof -
  have d: "as_decision (pg_circuit_assess_query cfg q runtime) = PGC_DECISION_BLOCK" for runtime
    using assms(1,4) by (simp add: assess_decision mode_decision_def)
  have "\<exists>e w'. evaluate_body pg cfg q w = (Inl e, w')"
    by (cases rule: evaluate_body_cases [of pg cfg q w])
      (simp_all add: apply_decision_run d Let_def)
  then obtain e w' where "evaluate_body pg cfg q w = (Inl e, w')" by blast
  from evaluate_raised [OF assms(3) this] assms(1,2) show ?thesis
    by (simp add: evaluate_catch_run)
qed

lemma evaluate_fails_open:
  assumes "PgCircuitMode_of (pg_circuit_mode cfg) \<noteq> Some PGC_MODE_ENFORCE"
    and "evaluate_and_apply pg cfg q w = (Inl e, w')"
  shows "sqlerrcode e = ERRCODE_INSUFFICIENT_PRIVILEGE
     \<and> (fst (pg_circuit_collect_runtime_state pg cfg (w_shared w)) = Inl e
        \<or> event_names pg (MyDatabaseId pg) (CurrentUserId pg) = Inl e)"
proof -
  have k: "qi_kind q \<noteq> PGC_QKIND_OTHER"
    using assms(2) by (auto simp: evaluate_and_apply_def ret_def)
  have d: "as_decision (pg_circuit_assess_query cfg q runtime) \<noteq> PGC_DECISION_BLOCK" for runtime
    using assms(1) by (auto simp: assess_decision mode_decision_def split: option.split PgCircuitMode.split)
  show ?thesis
  proof (cases rule: evaluate_body_cases [of pg cfg q w])
    case fault
    with evaluate_raised [OF k fault(2)] assms show ?thesis
      by (simp add: evaluate_catch_run elog_def)
  next
    case (error e0 sh)
    with evaluate_raised [OF k error(3)] assms show ?thesis
      by (simp add: evaluate_catch_run split: if_splits)
  next
    case (unrecorded runtime sh e0 sh')
    with evaluate_raised [OF k unrecorded(4)] assms recorded_raises [OF unrecorded(3)] show ?thesis
      by (simp add: evaluate_catch_run split: if_splits)
  next
    case (decided runtime sh sh')
    have "\<exists>u w1. evaluate_body pg cfg q w = (Inr u, w1)"
      using d [of runtime]
      by (cases "as_decision (pg_circuit_assess_query cfg q runtime)")
        (simp_all add: decided(4) apply_decision_run Let_def)
    then obtain u w1 where "evaluate_body pg cfg q w = (Inr u, w1)" by blast
    from evaluate_returned [OF k this] assms(2) show ?thesis by simp
  qed
qed


section \<open>The recorded event\<close>

definition statement_slot ::
    "pg_server \<Rightarrow> config \<Rightarrow> PgCircuitQueryInfo \<Rightarrow> PgCircuitRuntimeState \<Rightarrow> string \<times> string
     \<Rightarrow> PgCircuitSharedState \<Rightarrow> PgCircuitSharedEvent" where
  "statement_slot pg cfg q runtime names st =
     (let a = pg_circuit_assess_query cfg q runtime
      in fill_slot (pg_circuit_fill_risk_event pg q runtime a
                      (Some (pg_circuit_policy_evaluate q runtime a)))
           (wrap64 (ss_next_event_id st + 1)) (wrap64 (ss_next_decision_id st + 1))
           (Some (build_rule_ids a PGC_RULE_IDS_MAX)) (Some (event_relation_name q))
           (Some (fst names)) (Some (snd names))
           (fingerprint_op pg (qi_kind q) (Some (event_relation_name q))))"

lemma fill_event_fields [simp]:
  "re_decision (pg_circuit_fill_risk_event pg q r a p) = as_decision a"
  "re_operation (pg_circuit_fill_risk_event pg q r a p) = qi_kind q"
  "re_database_oid (pg_circuit_fill_risk_event pg q r a p) = MyDatabaseId pg"
  "re_user_oid (pg_circuit_fill_risk_event pg q r a p) = CurrentUserId pg"
  by (simp_all add: pg_circuit_fill_risk_event_def)

lemma recorded_stored:
  assumes "ring_ok st" and "\<not> pg_circuit_fault_is (pg_strcaseeq pg) cfg ''event_full''"
    and "as_decision (pg_circuit_assess_query cfg q runtime) \<noteq> PGC_DECISION_ALLOW"
    and "event_names pg (MyDatabaseId pg) (CurrentUserId pg) = Inr names"
  shows "recorded pg cfg q runtime (Some st) =
     (Inr (), Some (ring_store (statement_slot pg cfg q runtime names st)
       (st\<lparr>ss_next_event_id := wrap64 (ss_next_event_id st + 1),
           ss_next_decision_id := wrap64 (ss_next_decision_id st + 1)\<rparr>)))"
proof -
  define a where "a = pg_circuit_assess_query cfg q runtime"
  define p where "p = pg_circuit_policy_evaluate q runtime a"
  define ev where "ev = pg_circuit_fill_risk_event pg q runtime a (Some p)"
  have "event_stored pg cfg ev (Some p)"
    using assms(2,3) by (simp add: event_stored_def ev_def a_def)
  note stored = event_record_stored [OF assms(1) this]
  have ids: "re_database_oid ev = MyDatabaseId pg" "re_user_oid ev = CurrentUserId pg"
    "re_operation ev = qi_kind q" by (simp_all add: ev_def)
  obtain db usr where names: "names = (db, usr)" by fastforce
  have "recorded pg cfg q runtime (Some st) = (Inr (), pg_circuit_event_record pg cfg (Some ev)
      (Some (build_rule_ids a PGC_RULE_IDS_MAX)) (Some (event_relation_name q)) (Some db) (Some usr)
      (Some p) (Some st))"
    by (simp add: recorded_def pg_circuit_persist_risk_event_def Let_def assms(4) names ids
        flip: a_def p_def ev_def)
  then show ?thesis
    unfolding stored
    by (simp add: statement_slot_def Let_def ids names flip: a_def p_def ev_def)
qed

lemma recorded_dropped:
  assumes "as_decision (pg_circuit_assess_query cfg q runtime) = PGC_DECISION_ALLOW"
  shows "snd (recorded pg cfg q runtime shared) = shared"
proof -
  have "\<not> event_stored pg cfg (pg_circuit_fill_risk_event pg q runtime
        (pg_circuit_assess_query cfg q runtime) p) (Some (pg_circuit_policy_evaluate q runtime a))" for p a
    by (simp add: event_stored_def assms)
  from event_record_dropped [OF this] show ?thesis
    by (simp add: recorded_def pg_circuit_persist_risk_event_def Let_def split: sum.split prod.split)
qed

lemma assess_rule_list:
  "build_rule_ids (pg_circuit_assess_query cfg q runtime) PGC_RULE_IDS_MAX = rule_of_kind (qi_kind q)"
proof (cases "qi_kind q = PGC_QKIND_OTHER")
  case True
  then have "as_findings (pg_circuit_assess_query cfg q runtime) = []"
    using assess_rule_ids [of cfg q runtime] by simp
  with True show ?thesis
    by (simp add: build_rule_ids_def assess_primary_rule rule_of_kind_def)
next
  case False
  then have "rule_of_kind (qi_kind q) \<noteq> ''''" "length (rule_of_kind (qi_kind q)) + 1 < PGC_RULE_IDS_MAX"
    by (simp_all add: rule_of_kind_def PGC_RULE_IDS_MAX_def split: PgCircuitQueryKind.split)
  with build_rule_ids_single [of _ "rule_of_kind (qi_kind q)"] assess_rule_ids [of cfg q runtime] False
  show ?thesis by simp
qed

lemma statement_slot_fields:
  "se_decision (statement_slot pg cfg q runtime names st)
     = PgCircuitDecision_code (as_decision (pg_circuit_assess_query cfg q runtime))"
  "se_operation (statement_slot pg cfg q runtime names st) = PgCircuitQueryKind_code (qi_kind q)"
  "se_risk_score (statement_slot pg cfg q runtime names st) = base_score q"
  "se_rule_ids (statement_slot pg cfg q runtime names st) = rule_of_kind (qi_kind q)"
  "se_event_id (statement_slot pg cfg q runtime names st) = wrap64 (ss_next_event_id st + 1)"
  "se_relation_oid (statement_slot pg cfg q runtime names st) = qi_relation_oid q"
proof -
  have "length (rule_of_kind k) < PGC_RULE_IDS_MAX" for k
    by (simp add: rule_of_kind_def PGC_RULE_IDS_MAX_def split: PgCircuitQueryKind.split)
  then show "se_rule_ids (statement_slot pg cfg q runtime names st) = rule_of_kind (qi_kind q)"
    by (simp add: statement_slot_def fill_slot_def assess_rule_list strlcpy_id Let_def)
qed (simp_all add: statement_slot_def fill_slot_def Let_def decision_enum.stored_code
      qkind_enum.stored_code pg_circuit_fill_risk_event_def assess_score)

end
