(* ===== verification/Pgc_Sql_Api.thy ===== *)
theory Pgc_Sql_Api
  imports Pgc_Hooks
begin

text \<open>
  \<open>src/pg_circuit.c\<close> and the registration half of \<open>src/shmem.c\<close>: loading the module and the
  SQL-callable functions. A function returns a row of datums; \<open>row_type\<close> says whether the
  caller expects a composite result.
\<close>

section \<open>Loading the module\<close>

datatype shmem_request = RequestAddinShmemSpace nat | RequestNamedLWLockTranche string nat

record module_state =
  ms_gucs :: "guc_call list"
  shmem_request_hook :: "shmem_hook option"
  prev_shmem_request_hook :: "shmem_hook option"
  shmem_startup_hook :: "shmem_hook option"
  prev_shmem_startup_hook :: "shmem_hook option"
  ms_hooks :: hook_slots

definition pg_circuit_shmem_request ::
    "nat \<Rightarrow> nat \<Rightarrow> config \<Rightarrow> module_state \<Rightarrow> (shmem_hook \<Rightarrow> shmem_request list) \<Rightarrow> shmem_request list" where
  "pg_circuit_shmem_request hdr evsz cfg m call =
     (case prev_shmem_request_hook m of Some h \<Rightarrow> call h | None \<Rightarrow> [])
     @ [RequestAddinShmemSpace (pg_circuit_shared_memsize hdr evsz cfg),
        RequestNamedLWLockTranche ''pg_circuit'' 1]"

definition pg_circuit_shmem_register :: "module_state \<Rightarrow> module_state" where
  "pg_circuit_shmem_register m =
     (let m = m\<lparr>prev_shmem_request_hook := shmem_request_hook m\<rparr>;
          m = m\<lparr>shmem_request_hook := Some PgCircuitShmemHook\<rparr>;
          m = m\<lparr>prev_shmem_startup_hook := shmem_startup_hook m\<rparr>
      in m\<lparr>shmem_startup_hook := Some PgCircuitShmemHook\<rparr>)"

definition PG_init :: "bool \<Rightarrow> module_state \<Rightarrow> module_state" where
  "PG_init fault m =
     (let m = m\<lparr>ms_gucs := ms_gucs m @ pg_circuit_register_gucs fault\<rparr>;
          m = pg_circuit_shmem_register m
      in m\<lparr>ms_hooks := pg_circuit_install_hooks (ms_hooks m)\<rparr>)"

definition PG_fini :: "module_state \<Rightarrow> module_state" where
  "PG_fini m = m\<lparr>ms_hooks := pg_circuit_uninstall_hooks (ms_hooks m)\<rparr>"


section \<open>Rows\<close>

datatype datum = D_text string | D_int int | D_bool bool | D_float double | D_null

definition text_or_null :: "string \<Rightarrow> datum" where
  "text_or_null s = (if s \<noteq> '''' then D_text s else D_null)"

definition row_type_error :: report where
  "row_type_error = elog ERROR ''return type must be a row type''"

definition pg_circuit_version :: datum where
  "pg_circuit_version = D_text PG_CIRCUIT_VERSION"

definition status_row :: "pg_server \<Rightarrow> config \<Rightarrow> PgCircuitRuntimeState \<Rightarrow> datum list" where
  "status_row pg cfg runtime =
     [D_text PG_CIRCUIT_VERSION,
      D_text (snprintf 32 (show_int (PG_VERSION_NUM pg))),
      D_bool (pg_circuit_enabled cfg),
      D_text (pg_circuit_mode_name (pg_circuit_mode cfg)),
      D_text (pg_circuit_runtime_cfg_name (pg_circuit_runtime_mode cfg)),
      D_text (pg_circuit_safety_mode_name (PgCircuitSafetyMode_code (rs_mode runtime))),
      D_int (pg_circuit_risk_warn_threshold cfg),
      D_int (pg_circuit_risk_block_threshold cfg)]"

definition pg_circuit_status :: "pg_server \<Rightarrow> config \<Rightarrow> bool \<Rightarrow> datum list action" where
  "pg_circuit_status pg cfg row_type =
     (if \<not> row_type then throw row_type_error
      else ebind (lift_shared (pg_circuit_collect_runtime_state pg cfg))
             (\<lambda>runtime. ret (status_row pg cfg runtime)))"

definition lag_datum :: "double \<Rightarrow> datum" where
  "lag_datum lag = (if lag < 0 then D_null else D_float lag)"

definition runtime_row :: "PgCircuitRuntimeState \<Rightarrow> datum list" where
  "runtime_row r =
     [D_text (pg_circuit_safety_mode_name (PgCircuitSafetyMode_code (rs_mode r))),
      D_int (rs_pressure_score r),
      D_int (rs_active_transactions r),
      D_int (rs_long_transactions r),
      D_int (rs_idle_in_transaction r),
      D_int (rs_blocked_sessions r),
      D_int (rs_blocking_sessions r),
      D_float (rs_max_replication_lag_seconds r),
      D_text (pg_circuit_wal_pressure_name (rs_wal_pressure_level r)),
      D_float (rs_wal_bytes_per_sec r),
      D_int (rs_active_connections r),
      D_int (rs_connection_pressure_score r),
      D_float (rs_oldest_transaction_age_seconds r),
      D_int (rs_max_lock_chain_depth r),
      D_int (rs_max_lock_descendants r),
      D_int (rs_replica_count r),
      D_text (pg_circuit_replication_health_name (PgCircuitReplicationHealth_code (rs_replication_health r))),
      lag_datum (rs_max_write_lag_seconds r),
      lag_datum (rs_max_flush_lag_seconds r),
      lag_datum (rs_max_replay_lag_seconds r),
      D_int (rs_pressure_tx r),
      D_text (pg_circuit_format_pressure_contributors r)]"

definition pg_circuit_runtime_state :: "pg_server \<Rightarrow> config \<Rightarrow> bool \<Rightarrow> datum list action" where
  "pg_circuit_runtime_state pg cfg row_type =
     (if \<not> row_type then throw row_type_error
      else ebind (lift_shared (pg_circuit_collect_runtime_state pg cfg))
             (\<lambda>runtime. ret (runtime_row runtime)))"


section \<open>Explaining a risk\<close>

definition invalid_parameter :: "string \<Rightarrow> string \<Rightarrow> report" where
  "invalid_parameter what given =
     \<lparr>elevel = ERROR, sqlerrcode = ERRCODE_INVALID_PARAMETER_VALUE,
      errmsg = ''unknown pg_circuit '' @ what @ '' '' @ [CHR 0x22] @ given @ [CHR 0x22],
      errdetail = None, errhint = None\<rparr>"

definition synthetic_qinfo :: "PgCircuitQueryKind \<Rightarrow> double \<Rightarrow> int \<Rightarrow> PgCircuitQueryInfo" where
  "synthetic_qinfo kind rows bytes =
     zero_qinfo\<lparr>qi_kind := kind, qi_estimated_rows := rows, qi_relation_size := bytes,
                qi_is_write := True, qi_relation_name := strlcpy ''synthetic'' NAMEDATALEN\<rparr>"

definition explain_qinfo :: "PgCircuitQueryKind \<Rightarrow> double \<Rightarrow> int \<Rightarrow> PgCircuitQueryInfo" where
  "explain_qinfo kind rows bytes =
     (let q = synthetic_qinfo kind rows bytes
      in case kind of
           PGC_QKIND_ALTER_TABLE \<Rightarrow>
             q\<lparr>qi_lock_class := PGC_LOCK_HIGH, qi_rewrite_likely := True,
               qi_ddl_detail := strlcpy ''ALTER COLUMN TYPE'' 128\<rparr>
         | PGC_QKIND_CREATE_INDEX \<Rightarrow> q\<lparr>qi_lock_class := PGC_LOCK_MEDIUM\<rparr>
         | PGC_QKIND_CREATE_INDEX_CONCURRENTLY \<Rightarrow>
             q\<lparr>qi_concurrent := True, qi_lock_class := PGC_LOCK_LOW\<rparr>
         | PGC_QKIND_REINDEX \<Rightarrow> q\<lparr>qi_lock_class := PGC_LOCK_HIGH\<rparr>
         | PGC_QKIND_VACUUM_FULL \<Rightarrow>
             q\<lparr>qi_lock_class := PGC_LOCK_HIGH, qi_rewrite_likely := True\<rparr>
         | PGC_QKIND_CLUSTER \<Rightarrow>
             q\<lparr>qi_lock_class := PGC_LOCK_HIGH, qi_rewrite_likely := True\<rparr>
         | _ \<Rightarrow> q)"

definition explain_ex_qinfo :: "PgCircuitQueryKind \<Rightarrow> double \<Rightarrow> int \<Rightarrow> PgCircuitQueryInfo" where
  "explain_ex_qinfo kind rows bytes =
     (let q = synthetic_qinfo kind rows bytes
      in if kind = PGC_QKIND_ALTER_TABLE \<or> kind = PGC_QKIND_VACUUM_FULL
            \<or> kind = PGC_QKIND_CLUSTER \<or> kind = PGC_QKIND_REINDEX
         then q\<lparr>qi_lock_class := PGC_LOCK_HIGH, qi_rewrite_likely := (kind \<noteq> PGC_QKIND_REINDEX),
                qi_ddl_detail := strlcpy ''synthetic ddl'' 128\<rparr>
         else if kind = PGC_QKIND_CREATE_INDEX then q\<lparr>qi_lock_class := PGC_LOCK_MEDIUM\<rparr>
         else q)"

definition assessment_row :: "PgCircuitRiskAssessment \<Rightarrow> datum list" where
  "assessment_row a =
     [D_int (as_score a),
      D_text (pg_circuit_decision_name (PgCircuitDecision_code (as_decision a))),
      D_text (pg_circuit_risk_level_name (PgCircuitRiskLevel_code (as_level a))),
      D_text (pg_circuit_format_findings a)]"

definition pg_circuit_explain_risk ::
    "pg_server \<Rightarrow> config \<Rightarrow> bool \<Rightarrow> string \<Rightarrow> double \<Rightarrow> int \<Rightarrow> string \<Rightarrow> double \<Rightarrow> report + datum list" where
  "pg_circuit_explain_risk pg cfg row_type op estimated_rows relation_size mode_name lag =
     (if \<not> row_type then Inl row_type_error
      else (case pg_circuit_parse_query_kind (pg_strcaseeq pg) (Some op) of
              None \<Rightarrow> Inl (invalid_parameter ''operation'' op)
            | Some kind \<Rightarrow>
                (case pg_circuit_parse_safety_mode (pg_strcaseeq pg) (Some mode_name) of
                   None \<Rightarrow> Inl (invalid_parameter ''runtime_mode'' mode_name)
                 | Some mode \<Rightarrow>
                     Inr (assessment_row
                       (pg_circuit_assess_query cfg (explain_qinfo kind estimated_rows relation_size)
                          (zero_runtime\<lparr>rs_mode := mode, rs_max_replication_lag_seconds := lag,
                                        rs_pressure_score := 0\<rparr>))))))"

definition pg_circuit_explain_risk_ex ::
    "pg_server \<Rightarrow> config \<Rightarrow> bool \<Rightarrow> string \<Rightarrow> double \<Rightarrow> int \<Rightarrow> string \<Rightarrow> double \<Rightarrow> int \<Rightarrow> int \<Rightarrow> double
     \<Rightarrow> report + datum list" where
  "pg_circuit_explain_risk_ex pg cfg row_type op estimated_rows relation_size mode_name lag
       blocked blocking max_wait =
     (if \<not> row_type then Inl row_type_error
      else (case pg_circuit_parse_query_kind (pg_strcaseeq pg) (Some op) of
              None \<Rightarrow> Inl (invalid_parameter ''operation'' op)
            | Some kind \<Rightarrow>
                (case pg_circuit_parse_safety_mode (pg_strcaseeq pg) (Some mode_name) of
                   None \<Rightarrow> Inl (invalid_parameter ''runtime_mode'' mode_name)
                 | Some mode \<Rightarrow>
                     Inr (assessment_row
                       (pg_circuit_assess_query cfg (explain_ex_qinfo kind estimated_rows relation_size)
                          (zero_runtime\<lparr>rs_mode := mode, rs_max_replication_lag_seconds := lag,
                                        rs_blocked_sessions := blocked, rs_blocking_sessions := blocking,
                                        rs_max_lock_wait_seconds := max_wait\<rparr>))))))"


section \<open>Lock and event views\<close>

definition blocker_database :: "pg_server \<Rightarrow> PgCircuitBlockerEdge \<Rightarrow> report + datum" where
  "blocker_database pg edge =
     (if OidIsValid (be_database_oid edge)
      then rbind (get_database_name pg (be_database_oid edge)) (\<lambda>name.
             Inr (case name of
                    Some n \<Rightarrow> D_text (strlcpy n NAMEDATALEN)
                  | None \<Rightarrow> D_null))
      else Inr D_null)"

definition blocker_row :: "pg_server \<Rightarrow> PgCircuitBlockerEdge \<Rightarrow> report + datum list" where
  "blocker_row pg edge =
     rbind (blocker_database pg edge) (\<lambda>database.
       Inr [D_int (be_blocked_pid edge),
            D_int (be_blocking_pid edge),
            D_float (be_blocked_for_seconds edge),
            D_float (be_blocking_transaction_age_seconds edge),
            database,
            text_or_null (be_relation_name edge),
            D_text (if be_lock_mode edge \<noteq> '''' then be_lock_mode edge else be_lock_type edge)])"

text \<open>The rows of one call after the other; the first that raises ends the query.\<close>

fun blocker_rows :: "pg_server \<Rightarrow> PgCircuitBlockerEdge list \<Rightarrow> report + datum list list" where
  "blocker_rows pg [] = Inr []"
| "blocker_rows pg (edge # edges) =
     rbind (blocker_row pg edge) (\<lambda>row. rbind (blocker_rows pg edges) (\<lambda>rows. Inr (row # rows)))"

definition pg_circuit_blockers :: "pg_server \<Rightarrow> bool \<Rightarrow> report + datum list list" where
  "pg_circuit_blockers pg row_type =
     (if \<not> row_type then Inl row_type_error
      else rbind (pg_circuit_build_blocker_graph pg) (\<lambda>graph. blocker_rows pg (bg_edges graph)))"

definition lock_summary_row :: "PgCircuitBlockerGraph \<Rightarrow> datum list" where
  "lock_summary_row graph =
     [D_int (bg_blocked_sessions graph),
      D_int (bg_blocking_sessions graph),
      D_float (bg_max_blocked_for_seconds graph),
      D_bool (bg_has_cycle graph),
      D_int (bg_max_chain_depth graph),
      D_int (bg_max_descendant_count graph)]"

definition pg_circuit_lock_summary :: "pg_server \<Rightarrow> bool \<Rightarrow> report + datum list" where
  "pg_circuit_lock_summary pg row_type =
     (if \<not> row_type then Inl row_type_error
      else rbind (pg_circuit_build_blocker_graph pg) (\<lambda>graph. Inr (lock_summary_row graph)))"

definition event_row :: "PgCircuitSharedEvent \<Rightarrow> datum list" where
  "event_row ev =
     [D_int (se_timestamp ev),
      D_int (se_backend_pid ev),
      text_or_null (se_database_name ev),
      text_or_null (se_user_name ev),
      D_text (pg_circuit_query_kind_name (se_operation ev)),
      text_or_null (se_relation_name ev),
      D_int (se_risk_score ev),
      D_text (pg_circuit_risk_level_name
                (PgCircuitRiskLevel_code (pg_circuit_score_to_level (se_risk_score ev)))),
      D_text (pg_circuit_safety_mode_name (se_runtime_mode ev)),
      D_text (pg_circuit_decision_name (se_decision ev)),
      text_or_null (se_rule_ids ev),
      D_int (se_event_id ev),
      D_int (se_decision_id ev),
      text_or_null (se_fingerprint ev),
      D_text (pg_circuit_decision_name (se_base_decision ev))]"

text \<open>The outer option is the termination of the index loop in the snapshot.\<close>

definition pg_circuit_events ::
    "config \<Rightarrow> bool \<Rightarrow> PgCircuitSharedState option \<Rightarrow> (report + datum list list) option" where
  "pg_circuit_events cfg row_type shared =
     (if \<not> row_type then Some (Inl row_type_error)
      else map_option (\<lambda>snapshot. Inr (map event_row snapshot))
             (pg_circuit_event_snapshot shared True (event_capacity cfg)))"

end
