(* ===== verification/Pgc_Signal_Props.thy ===== *)
theory Pgc_Signal_Props
  imports Pgc_Sql_Api
begin

text \<open>
  The properties of the runtime signals: \<open>src/transactions.c\<close>, \<open>locks.c\<close>, \<open>replication.c\<close>,
  \<open>wal.c\<close> and the scoring of \<open>runtime_state.c\<close>.
\<close>

lemma example_collect:
  "\<exists>r sh'. pg_circuit_collect_runtime_state example_server (default_config False) sh = (Inr r, sh')"
  by (rule collect_runtime_returns)
    (simp_all add: example_server_def pg_circuit_fault_is_def default_config_def)

text \<open>C11: whatever the server reports and whatever mode is configured, a collected runtime state
  has effective mode NORMAL and a pressure between 0 and 100, and the status functions print
  \<open>NORMAL\<close>.\<close>

theorem effective_mode_normal:
  assumes "fst (pg_circuit_collect_runtime_state pg cfg shared) = Inr r"
  shows "rs_mode r = PGC_SAFETY_NORMAL \<and> 0 \<le> rs_pressure_score r \<and> rs_pressure_score r \<le> 100
     \<and> runtime_row r ! 0 = D_text ''NORMAL'' \<and> status_row pg cfg r ! 5 = D_text ''NORMAL''"
  using collect_runtime_computed [OF assms] collect_runtime_mode [OF assms] combine5_range
    compute_pressure_fields(2)
  by (auto simp: runtime_row_def status_row_def pg_circuit_safety_mode_name_def
      PgCircuitSafetyMode_of_def)

theorem effective_mode_normal_witness:
  "\<exists>r. fst (pg_circuit_collect_runtime_state example_server (default_config False) None) = Inr r
     \<and> rs_mode r = PGC_SAFETY_NORMAL"
proof -
  obtain r where r: "fst (pg_circuit_collect_runtime_state example_server (default_config False) None) = Inr r"
    using example_collect [of None] by fastforce
  with effective_mode_normal [OF r] show ?thesis by blast
qed

text \<open>C10: the pressure score is the sum of the five displayed factors, capped at 100, and no
  factor is negative; for every backend count a server can have (\<open>MAX_BACKENDS\<close> is below
  \<open>2 ^ 18\<close>) no intermediate 32-bit sum wraps.\<close>

theorem pressure_is_capped_sum:
  assumes "rs_long_transactions s \<le> 2 ^ 18" and "rs_idle_in_transaction s \<le> 2 ^ 18"
    and "0 \<le> rs_active_connections s" and "rs_active_connections s \<le> 2 ^ 18"
    and "is_int32 (rs_max_connections s)"
    and "0 \<le> rs_reserved_connections s" and "is_int32 (rs_reserved_connections s)"
  shows "let r = pg_circuit_compute_pressure_and_mode cfg s in
     rs_pressure_score r = min 100 (rs_pressure_tx r + rs_pressure_locks r
       + rs_pressure_replication r + rs_pressure_wal r + rs_pressure_connections r)
     \<and> 0 \<le> rs_pressure_tx r \<and> 0 \<le> rs_pressure_locks r \<and> 0 \<le> rs_pressure_replication r
     \<and> 0 \<le> rs_pressure_wal r \<and> 0 \<le> rs_pressure_connections r"
proof -
  define tx where "tx = pg_circuit_pressure_score_transactions_ex (rs_long_transactions s)
      (rs_idle_in_transaction s) (rs_oldest_transaction_age_seconds s)
      (pg_circuit_long_transaction_seconds cfg)"
  define lk where "lk = pg_circuit_pressure_score_locks_ex (rs_blocked_sessions s)
      (rs_blocking_sessions s) (rs_max_lock_chain_depth s) (rs_max_lock_descendants s)
      (rs_max_lock_wait_seconds s)"
  define rp where "rp = pg_circuit_pressure_score_replication (rs_max_replication_lag_seconds s)
      (pg_circuit_effective_lag_warn_seconds cfg) (pg_circuit_effective_lag_critical_seconds cfg)"
  define wl where "wl = pg_circuit_pressure_score_wal cfg (rs_wal_bytes_per_sec s)"
  define cn where "cn = pg_circuit_pressure_score_connections (rs_active_connections s)
      (rs_max_connections s) (rs_reserved_connections s) (rs_idle_in_transaction s)
      (rs_active_query_backends s)"
  have tx: "0 \<le> tx" "tx \<le> 2 ^ 27"
    using assms(1,2) tx_age_tier_range [of "pg_circuit_long_transaction_seconds cfg"
        "rs_oldest_transaction_age_seconds s"]
    by (simp_all add: tx_def transactions_ex_sum)
  have lk: "0 \<le> lk" "lk \<le> 2 ^ 27"
    using locks_ex_range [of "rs_blocked_sessions s" "rs_blocking_sessions s"
        "rs_max_lock_chain_depth s" "rs_max_lock_descendants s" "rs_max_lock_wait_seconds s"]
    by (simp_all add: lk_def)
  have rp: "0 \<le> rp" "rp \<le> 2 ^ 27"
    using replication_score_cases [of "rs_max_replication_lag_seconds s"
        "pg_circuit_effective_lag_warn_seconds cfg" "pg_circuit_effective_lag_critical_seconds cfg"]
    by (auto simp: rp_def)
  have wl: "0 \<le> wl" "wl \<le> 2 ^ 27"
    using wal_score_cases [of cfg "rs_wal_bytes_per_sec s"] by (auto simp: wl_def)
  have cn: "0 \<le> cn" "cn \<le> 2 ^ 27"
    using connections_range [of "rs_active_connections s" "rs_max_connections s"
        "rs_reserved_connections s" "rs_idle_in_transaction s" "rs_active_query_backends s"] assms(3-7)
    by (simp_all add: cn_def)
  have r: "let r = pg_circuit_compute_pressure_and_mode cfg s in
     rs_pressure_tx r = tx \<and> rs_pressure_locks r = lk \<and> rs_pressure_replication r = rp
     \<and> rs_pressure_wal r = wl \<and> rs_pressure_connections r = cn
     \<and> rs_pressure_score r = pg_circuit_pressure_score_combine5 tx lk rp wl cn"
    by (simp add: pg_circuit_compute_pressure_and_mode_def tx_def lk_def rp_def wl_def cn_def Let_def)
  then show ?thesis
    using combine5_sum [OF tx lk rp wl cn] tx lk rp wl cn by (simp add: Let_def)
qed

theorem pressure_is_capped_sum_witness:
  "rs_pressure_score (pg_circuit_compute_pressure_and_mode (default_config False)
     (zero_runtime\<lparr>rs_long_transactions := 2, rs_idle_in_transaction := 1\<rparr>)) \<le> 100
   \<and> 0 \<le> rs_pressure_tx (pg_circuit_compute_pressure_and_mode (default_config False)
     (zero_runtime\<lparr>rs_long_transactions := 2, rs_idle_in_transaction := 1\<rparr>))"
  using pressure_is_capped_sum [of "zero_runtime\<lparr>rs_long_transactions := 2, rs_idle_in_transaction := 1\<rparr>"
      "default_config False"]
  by (simp add: zero_runtime_def Let_def)

text \<open>C30: the lock factor never falls when any of its inputs grows, and stays between 0 and 113.\<close>

theorem lock_score_monotone:
  assumes "blocked \<le> blocked'" and "blocking \<le> blocking'" and "depth \<le> depth'"
    and "desc \<le> desc'" and "wait \<le> wait'"
  shows "0 \<le> pg_circuit_pressure_score_locks_ex blocked blocking depth desc wait
     \<and> pg_circuit_pressure_score_locks_ex blocked blocking depth desc wait
         \<le> pg_circuit_pressure_score_locks_ex blocked' blocking' depth' desc' wait'
     \<and> pg_circuit_pressure_score_locks_ex blocked' blocking' depth' desc' wait' \<le> 113"
  using lock_tier_mono(1) [OF assms(1)] lock_tier_mono(2) [OF assms(2)] lock_tier_mono(4) [OF assms(3)]
    lock_tier_mono(3) [OF assms(4)] lock_tier_mono(5) [OF assms(5)]
    locks_ex_range(1) [of blocked blocking depth desc wait]
    locks_ex_range(2) [of blocked' blocking' depth' desc' wait']
  by (simp add: locks_ex_tiers)

theorem lock_score_monotone_witness:
  "pg_circuit_pressure_score_locks_ex 4 1 1 1 2 \<le> pg_circuit_pressure_score_locks_ex 5 2 3 9 40"
  using lock_score_monotone [of 4 5 1 2 1 3 1 9 2 40] by simp

text \<open>C31: the floating-point tiers of the connection factor equal integer comparisons: 95, 85 and
  70 percent of the usable slots are hit exactly, so rounding never moves a tier, and the factor
  is at most 46.\<close>

theorem connection_score_exact:
  assumes "0 \<le> used" and "is_int32 used" and "0 < maxc" and "is_int32 maxc"
    and "0 \<le> reserved" and "is_int32 reserved"
  shows "pg_circuit_pressure_score_connections used maxc reserved idle active =
     connection_tier used (usable_connections maxc reserved) + 2 * max 0 (min idle 8)
     + (if active > 0 \<and> active \<ge> usable_connections maxc reserved div 2 then 5 else 0)
   \<and> pg_circuit_pressure_score_connections used maxc reserved idle active \<le> 46"
  using connections_closed [OF assms] connections_range(2) [OF assms(1,2,4-6)] by simp

theorem connection_score_exact_witness:
  "pg_circuit_pressure_score_connections 95 103 3 2 50 = 34"
  using connection_score_exact [of 95 103 3 2 50]
  by (simp add: connection_tier_def usable_connections_def)

text \<open>C22: the transaction collector counts exactly the client backends other than its own session
  that are connected, running, idle, in a transaction, idle in one, or in one for at least the
  configured limit, and its two ages are those of the oldest transaction and of the oldest one
  whose session idles in it.\<close>

theorem transaction_signals_count:
  assumes "config_ok cfg" and "length (local_beentries pg) < 2 ^ 18"
  shows "let r = pg_circuit_collect_transaction_signals pg cfg s; clients = client_backends pg in
     rs_active_connections r = int (length clients)
     \<and> rs_active_transactions r = count_if in_transaction clients
     \<and> rs_idle_in_transaction r = count_if tx_idle_in clients
     \<and> rs_long_transactions r =
         count_if (\<lambda>b. in_transaction b
           \<and> pg_circuit_long_transaction_seconds cfg * 1000000 \<le> tx_age_us (now_transactions pg) b) clients
     \<and> rs_active_query_backends r = count_if (\<lambda>b. st_state b = STATE_RUNNING) clients
     \<and> rs_idle_connections r = count_if (\<lambda>b. st_state b = STATE_IDLE) clients
     \<and> rs_oldest_transaction_age_seconds r
         = Max (insert 0 (tx_age_sec (now_transactions pg) ` set (filter in_transaction clients)))
     \<and> rs_oldest_idle_in_transaction_age_seconds r
         = Max (insert 0 (tx_age_sec (now_transactions pg) ` set (filter tx_idle_in clients)))"
proof -
  define limit where "limit = pg_circuit_long_transaction_seconds cfg * 1000000"
  have lim: "wrap64 (pg_circuit_long_transaction_seconds cfg * USECS_PER_SEC) = limit"
    using assms(1) by (simp add: config_ok_iff limit_def USECS_PER_SEC_def wrap64_id)
  have r: "pg_circuit_collect_transaction_signals pg cfg s =
      fold (scan_clients (now_transactions pg) limit) (client_backends pg) (tx_reset pg s)"
    by (simp add: pg_circuit_collect_transaction_signals_def Let_def scan_over_clients
        client_backends_def lim)
  have "length (List.map_filter id xs) \<le> length xs" for xs :: "Backend option list"
    by (induction xs) (simp_all add: List.map_filter_simps split: option.split)
  from le_trans [OF length_filter_le this] have "length (client_backends pg) \<le> length (local_beentries pg)"
    by (simp add: client_backends_def)
  then have n: "int (length (client_backends pg)) < 2 ^ 31" using assms(2) by simp
  note [simp] = scan_counter [OF scan_clients_counts(2)] scan_counter [OF scan_clients_counts(3)]
    scan_counter [OF scan_clients_counts(4)] scan_counter [OF scan_clients_counts(5)]
    scan_counter [OF scan_clients_counts(6)]
  have c: "rs_active_connections (scan_clients now limit b s)
      = (if True then c_add (rs_active_connections s) 1 else rs_active_connections s)" for now b s
    by (simp add: scan_clients_counts(1))
  have "count_if (\<lambda>_. True) bs = int (length bs)" for bs :: "Backend list" by (simp add: count_if_def)
  then show ?thesis
    using n scan_counter [OF c, of "tx_reset pg s" "client_backends pg" "now_transactions pg"]
    by (simp add: r Let_def scan_ages tx_reset_def flip: limit_def)
qed

theorem transaction_signals_count_witness:
  "rs_active_connections (pg_circuit_collect_transaction_signals example_server (default_config False) zero_runtime) = 1
   \<and> rs_idle_in_transaction (pg_circuit_collect_transaction_signals example_server (default_config False) zero_runtime) = 1"
proof -
  have "length (local_beentries example_server) < 2 ^ 18" by (simp add: example_server_def)
  from transaction_signals_count [OF default_config_ok [of False] this, of zero_runtime] show ?thesis
    by (simp only: Let_def)
      (simp add: client_backends_def example_server_def example_backend_def
        List.map_filter_simps count_if_def tx_idle_in_def in_transaction_def)
qed

lemma collect_replication_scan:
  assumes "pg_circuit_collect_replication_signals pg cfg s = Inr r"
  obtains (idle) "r = replication_reset s" and "connected_senders pg = []"
  | (scanned) walsnds l where "l = fold (walsnd_step (now_replication pg))
        (map walsnds [0..<max_wal_senders pg]) lag_scan_init"
      and "r = replication_fill cfg l (replication_reset s)"
      and "connected_senders pg = filter (\<lambda>w. ws_pid w \<noteq> 0) (map walsnds [0..<max_wal_senders pg])"
  using assms
  by (auto simp: pg_circuit_collect_replication_signals_def connected_senders_def Let_def
      split: if_splits option.splits)

text \<open>C20: each lag is the largest that a connected WAL sender reports, -1 if none reports one; the
  reply lag is the age of the oldest reply; and the effective lag, which is scored, is the largest
  of the four.\<close>

theorem replication_lag_is_max:
  assumes "pg_circuit_collect_replication_signals pg cfg s = Inr r"
  shows "rs_max_write_lag_seconds r
       = Max (insert (- 1) ((\<lambda>w. lag_offset_to_seconds (writeLag w)) ` set (connected_senders pg)))
     \<and> rs_max_flush_lag_seconds r
       = Max (insert (- 1) ((\<lambda>w. lag_offset_to_seconds (flushLag w)) ` set (connected_senders pg)))
     \<and> rs_max_replay_lag_seconds r
       = Max (insert (- 1) ((\<lambda>w. lag_offset_to_seconds (applyLag w)) ` set (connected_senders pg)))
     \<and> rs_max_reply_lag_seconds r
       = Max (insert 0 (reply_age (now_replication pg) ` set (connected_senders pg)))
     \<and> rs_max_replication_lag_seconds r
       = max (max (max (rs_max_write_lag_seconds r) (rs_max_flush_lag_seconds r))
                  (rs_max_replay_lag_seconds r)) (rs_max_reply_lag_seconds r)"
  using assms
proof (cases rule: collect_replication_scan)
  case idle
  then show ?thesis by (simp add: replication_reset_def)
next
  case (scanned walsnds l)
  have "lag_scan_ok l" using lag_scan_fold_ok [OF lag_scan_init_ok] by (simp add: scanned(1))
  note e = effective_lag_max [OF this]
  have i: "ls_write lag_scan_init = - 1" "ls_flush lag_scan_init = - 1" "ls_replay lag_scan_init = - 1"
    "ls_reply lag_scan_init = 0" by (simp_all add: lag_scan_init_def)
  have m: "ls_write l = Max (insert (- 1) ((\<lambda>w. lag_offset_to_seconds (writeLag w)) ` set (connected_senders pg)))"
    "ls_flush l = Max (insert (- 1) ((\<lambda>w. lag_offset_to_seconds (flushLag w)) ` set (connected_senders pg)))"
    "ls_replay l = Max (insert (- 1) ((\<lambda>w. lag_offset_to_seconds (applyLag w)) ` set (connected_senders pg)))"
    "ls_reply l = Max (insert 0 (reply_age (now_replication pg) ` set (connected_senders pg)))"
    unfolding scanned(1,3) by (simp_all only: lag_scan_maxima [OF lag_scan_init_ok] i)
  have r: "rs_max_write_lag_seconds r = ls_write l" "rs_max_flush_lag_seconds r = ls_flush l"
    "rs_max_replay_lag_seconds r = ls_replay l" "rs_max_reply_lag_seconds r = ls_reply l"
    "rs_max_replication_lag_seconds r = effective_lag l"
    by (simp_all add: scanned(2) replication_fill_def Let_def)
  show ?thesis unfolding r e by (intro conjI m refl)
qed

theorem replication_lag_is_max_witness:
  "\<exists>r. pg_circuit_collect_replication_signals example_server (default_config False) zero_runtime = Inr r
     \<and> rs_max_replay_lag_seconds r = lag_offset_to_seconds 2000000"
proof -
  obtain r where r: "pg_circuit_collect_replication_signals example_server (default_config False) zero_runtime = Inr r"
    by (auto simp: pg_circuit_collect_replication_signals_def example_server_def Let_def
        pg_circuit_fault_is_def default_config_def)
  have "connected_senders example_server = [example_walsnd]"
    by (simp add: connected_senders_def example_server_def example_walsnd_def)
  with replication_lag_is_max [OF r] lag_value_offset [of 2000000] r show ?thesis
    by (auto simp: example_walsnd_def lag_value_def)
qed

text \<open>C32: the replica count is the number of connected WAL senders, and the replication health
  shown and the replication pressure scored agree: severe scores 35, lagging 18, healthy 0, and
  health \<open>none\<close> means that no sender is connected.\<close>

theorem replication_health_agrees:
  assumes "pg_circuit_collect_replication_signals pg cfg s = Inr r"
    and "max_wal_senders pg < 2 ^ 18"
  shows "rs_replica_count r = int (length (connected_senders pg))
     \<and> (rs_replication_health r = PGC_REPL_NONE \<longleftrightarrow> connected_senders pg = [])
     \<and> (connected_senders pg \<noteq> [] \<longrightarrow>
         pg_circuit_pressure_score_replication (rs_max_replication_lag_seconds r)
           (pg_circuit_effective_lag_warn_seconds cfg) (pg_circuit_effective_lag_critical_seconds cfg)
         = (case rs_replication_health r of PGC_REPL_SEVERE \<Rightarrow> 35 | PGC_REPL_LAGGING \<Rightarrow> 18 | _ \<Rightarrow> 0))"
  using assms(1)
proof (cases rule: collect_replication_scan)
  case idle
  then show ?thesis by (simp add: replication_reset_def)
next
  case (scanned walsnds l)
  have "ls_replicas l = int (length (connected_senders pg))"
    unfolding scanned(1,3) using assms(2) by (subst lag_scan_replicas) (simp_all add: lag_scan_init_def)
  then have r: "rs_replica_count r = int (length (connected_senders pg))"
    "rs_replication_health r = replication_health_of (rs_replica_count r)
        (pg_circuit_effective_lag_warn_seconds cfg) (pg_circuit_effective_lag_critical_seconds cfg)
        (rs_max_replication_lag_seconds r)"
    by (simp_all add: scanned(2) replication_fill_def Let_def)
  have "replication_health_of n w c lag = PGC_REPL_NONE \<longleftrightarrow> n \<le> 0" for n w c lag
    by (simp add: replication_health_of_def)
  then show ?thesis
    unfolding r(2) using r(1) by (simp add: health_score)
qed

theorem replication_health_agrees_witness:
  "\<exists>r. pg_circuit_collect_replication_signals example_server (default_config False) zero_runtime = Inr r
     \<and> rs_replica_count r = 1 \<and> rs_replication_health r \<noteq> PGC_REPL_NONE"
proof -
  obtain r where r: "pg_circuit_collect_replication_signals example_server (default_config False) zero_runtime = Inr r"
    by (auto simp: pg_circuit_collect_replication_signals_def example_server_def Let_def
        pg_circuit_fault_is_def default_config_def)
  have "max_wal_senders example_server < 2 ^ 18" by (simp add: example_server_def)
  moreover have "connected_senders example_server = [example_walsnd]"
    by (simp add: connected_senders_def example_server_def example_walsnd_def)
  ultimately show ?thesis using replication_health_agrees [OF r] r by auto
qed

definition contributor_header :: "PgCircuitRuntimeState \<Rightarrow> string" where
  "contributor_header s =
     ''effective_mode: '' @ pg_circuit_safety_mode_name (PgCircuitSafetyMode_code (rs_mode s)) @ newline
     @ ''note: Community effective mode is always NORMAL; pressure is display-only'' @ newline
     @ ''pressure_score: '' @ show_int (rs_pressure_score s) @ newline @ ''contributors:'' @ newline"

text \<open>C29: after its header the contributor report lists exactly the factors above zero, largest first; equal ones
  keep their order.\<close>

theorem contributors_sorted:
  "\<exists>ps. pg_circuit_format_pressure_contributors s
       = contributor_header s @ concat (map contributor_line ps)
     \<and> mset ps = mset (filter (\<lambda>p. 0 < snd p) (pressure_parts s))
     \<and> sorted_wrt (\<lambda>p q. snd q \<le> snd p) ps
     \<and> filter (\<lambda>p. snd p = c) ps = filter (\<lambda>p. snd p = c) (filter (\<lambda>p. 0 < snd p) (pressure_parts s))"
proof -
  define ps where "ps = filter (\<lambda>p. 0 < snd p) (insertion_sort (pressure_parts s))"
  have "concat (map (\<lambda>p. if snd p \<le> 0 then '''' else contributor_line p) qs)
      = concat (map contributor_line (filter (\<lambda>p. 0 < snd p) qs))" for qs
    by (induction qs) auto
  then have "pg_circuit_format_pressure_contributors s
      = contributor_header s @ concat (map contributor_line ps)"
    unfolding pg_circuit_format_pressure_contributors_def contributor_header_def ps_def
    by (simp only: append_assoc)
  moreover have "mset ps = mset (filter (\<lambda>p. 0 < snd p) (pressure_parts s))"
    by (simp add: ps_def insertion_sort_laws(1))
  moreover have "sorted_wrt (\<lambda>p q. snd q \<le> snd p) ps"
    unfolding ps_def by (rule sorted_wrt_filter) (rule insertion_sort_laws(2))
  moreover have "filter (\<lambda>p. snd p = c) ps
      = filter (\<lambda>p. snd p = c) (filter (\<lambda>p. 0 < snd p) (pressure_parts s))"
  proof -
    have "filter P (filter Q xs) = filter Q (filter P xs)" for P Q and xs :: "(string \<times> int) list"
      by (simp add: conj_commute)
    then show ?thesis
      unfolding ps_def by (metis insertion_sort_laws(3))
  qed
  ultimately show ?thesis by blast
qed

end
