(* ===== verification/Pgc_Shmem_Props.thy ===== *)
theory Pgc_Shmem_Props
  imports Pgc_Wal Pgc_Sql_Api
begin

text \<open>
  The properties of the shared state (\<open>src/shmem.c\<close>, \<open>src/wal.c\<close> and the view
  \<open>pg_circuit_events\<close>): the ring as a bounded, numbered history, and the WAL rate cache.
\<close>

definition example_event :: PgCircuitRiskEvent where
  "example_event =
     \<lparr>re_timestamp = 9000000, re_backend_pid = 400, re_database_oid = 5, re_user_oid = 10,
      re_primary_rule = ''PGC003'', re_risk_score = 90, re_decision = PGC_DECISION_WARN,
      re_base_decision = PGC_DECISION_WARN, re_runtime_mode = PGC_SAFETY_NORMAL,
      re_relation_oid = 16384, re_operation = PGC_QKIND_TRUNCATE\<rparr>"

definition example_shared :: PgCircuitSharedState where
  "example_shared = shmem_fresh 64 512 (default_config False)"

lemma example_shared_ok: "ring_ok example_shared"
  unfolding example_shared_def by (rule shmem_fresh_ok) simp

lemma example_event_stored: "event_stored example_server (default_config False) example_event None"
  by (simp add: event_stored_def example_event_def pg_circuit_fault_is_def default_config_def)

lemma example_reach:
  "\<exists>st. shmem_reach (default_config False) 1 st"
proof -
  have "shmem_reach (default_config False) 0 example_shared"
    unfolding example_shared_def by (rule shmem_reach.start) simp
  from shmem_reach.stored [OF this example_event_stored
      event_record_stored [OF example_shared_ok example_event_stored, of None None None None]]
  show ?thesis by auto
qed

text \<open>C8: in every state that any sequence of recorded events and WAL samples of any backends can
  reach, the ring is well formed, its capacity is the one configured at start-up, and its
  retained events, newest first, carry the consecutive ids \<open>n, n - 1, \<dots>\<close> of the \<open>n\<close> events
  stored so far: none is lost before it is overwritten, none is duplicated or reordered.\<close>

theorem shared_history_consecutive:
  assumes "shmem_reach cfg0 n st" and "n < 2 ^ 63"
  shows "ring_ok st \<and> ss_capacity st = event_capacity cfg0
     \<and> map se_event_id (ring_history st)
         = map (\<lambda>i. int (n - i)) [0..<min n (nat (event_capacity cfg0))]"
  using shmem_reach_ring [OF assms(1)] shmem_reach_ids [OF assms]
  by (simp add: ids_ok_def ring_capacity_def)

theorem shared_history_consecutive_witness:
  "\<exists>st. shmem_reach (default_config False) 1 st \<and> map se_event_id (ring_history st) = [1]"
proof -
  obtain st where st: "shmem_reach (default_config False) 1 st" using example_reach ..
  have "map se_event_id (ring_history st) = [1]"
    using shared_history_consecutive [OF st]
    by (simp add: event_capacity_def default_config_def)
  with st show ?thesis by (intro exI conjI)
qed

text \<open>C9: recording refines the bounded history of a well-formed ring: an event that warns or blocks,
  or whose policy asks for an audit record, becomes the newest entry and the oldest drops out of a
  full ring, unless the injected fault \<open>event_full\<close> suppresses it; any other event leaves the
  shared state as it was.\<close>

theorem event_record_refines:
  assumes "ring_ok st"
  shows "\<exists>st'. pg_circuit_event_record pg cfg (Some ev) rids rel db usr policy (Some st) = Some st'
     \<and> ring_ok st' \<and> ring_capacity st' = ring_capacity st
     \<and> (if event_stored pg cfg ev policy
        then ring_history st' = take (ring_capacity st)
               (fill_slot ev (wrap64 (ss_next_event_id st + 1)) (wrap64 (ss_next_decision_id st + 1))
                  rids rel db usr (fingerprint_op pg (re_operation ev) rel) # ring_history st)
        else st' = st)"
proof (cases "event_stored pg cfg ev policy")
  case True
  then show ?thesis
    using assms by (simp add: event_record_stored [OF assms True] ring.inv_push ring.hist_push)
next
  case False
  then show ?thesis using assms by (simp add: event_record_dropped)
qed

theorem event_record_refines_witness:
  "\<exists>st'. pg_circuit_event_record example_server (default_config False) (Some example_event)
       None None None None None (Some example_shared) = Some st'
     \<and> length (ring_history st') = 1"
proof -
  have "ring_history example_shared = []" "ring_capacity example_shared = 256"
    by (simp_all add: example_shared_def)
      (simp add: ring_capacity_def shmem_fresh_def event_capacity_def default_config_def)
  with event_record_refines [OF example_shared_ok, of example_server "default_config False"
      example_event None None None None None] example_event_stored
  show ?thesis by auto
qed

text \<open>C25: every string an event slot receives fits its fixed \<open>char\<close> array, whatever the
  lengths of the rule list and of the relation, database and user names.\<close>

theorem slot_strings_fit:
  "length (se_primary_rule (fill_slot ev i d rids rel db usr fp)) < 16
   \<and> length (se_rule_ids (fill_slot ev i d rids rel db usr fp)) < PGC_RULE_IDS_MAX
   \<and> length (se_relation_name (fill_slot ev i d rids rel db usr fp)) < NAMEDATALEN
   \<and> length (se_database_name (fill_slot ev i d rids rel db usr fp)) < NAMEDATALEN
   \<and> length (se_user_name (fill_slot ev i d rids rel db usr fp)) < NAMEDATALEN
   \<and> length (se_fingerprint (fill_slot ev i d rids rel db usr fp)) < 33"
proof -
  have "0 < PGC_RULE_IDS_MAX" "0 < NAMEDATALEN" by (simp_all add: PGC_RULE_IDS_MAX_def NAMEDATALEN_def)
  then show ?thesis by (simp add: fill_slot_def length_strlcpy split: option.split)
qed

text \<open>C23: the events view returns within its loops, and lists the whole retained history, newest
  event first, one row each.\<close>

theorem events_view_newest_first:
  assumes "ring_ok st" and "ss_capacity st = event_capacity cfg"
  shows "pg_circuit_events cfg True (Some st) = Some (Inr (map event_row (ring_history st)))"
proof -
  have "length (ring_history st) \<le> nat (event_capacity cfg)"
    using ring_history_bounded [OF assms(1)] assms(2) by (simp add: ring_capacity_def)
  moreover have "0 < event_capacity cfg" using event_capacity_pos [of cfg] by simp
  ultimately show ?thesis
    by (simp add: pg_circuit_events_def snapshot_history [OF assms(1)])
qed

theorem events_view_newest_first_witness:
  "pg_circuit_events (default_config False) True (Some example_shared) = Some (Inr [])"
proof -
  have "ss_capacity example_shared = event_capacity (default_config False)"
    by (simp add: example_shared_def shmem_fresh_def)
  from events_view_newest_first [OF example_shared_ok this] show ?thesis
    by (simp add: example_shared_def)
qed

text \<open>C21: after any WAL samples by sessions with valid settings the sampler is coherent: the rate
  it reports is never negative and the level it reports is the class of that rate under the
  thresholds of one of the sessions, of the sampling session itself whenever the cache changes,
  and so of every session if all use the same thresholds, where the level also agrees with the
  pressure score; a valid sample is replaced only when at least a second has passed since it was
  taken.\<close>

theorem wal_sample_coherent:
  assumes "\<forall>c \<in> insert cfg (fst ` set samples). config_ok c"
    and "st = run_wal_samples samples (shmem_fresh hdr evsz cfg0)"
    and "pg_circuit_wal_sample_update cfg bytes now (Some st) = ((bps, level), Some st')"
  shows "0 \<le> bps \<and> (\<exists>c \<in> insert cfg (fst ` set samples). level = wal_classify c bps)
     \<and> (st' \<noteq> st \<longrightarrow> level = wal_classify cfg bps)
     \<and> ((\<forall>c \<in> fst ` set samples.
            pg_circuit_wal_pressure_high_bps c = pg_circuit_wal_pressure_high_bps cfg
            \<and> pg_circuit_wal_pressure_elevated_bps c = pg_circuit_wal_pressure_elevated_bps cfg) \<longrightarrow>
         level = wal_classify cfg bps
         \<and> pg_circuit_pressure_score_wal cfg bps = (if level = 3 then 30 else if level = 2 then 15 else 0))
     \<and> (st' = st \<or> \<not> wal_valid (ss_wal st) \<or> 1000000 \<le> wrap64 (now - wal_sample_time (ss_wal st)))"
proof -
  define C where "C = insert cfg (fst ` set samples)"
  have C: "\<forall>c \<in> C. config_ok c" "cfg \<in> C" "config_ok cfg" using assms(1) by (auto simp: C_def)
  have "wal_cache_ok C st"
    unfolding assms(2) by (rule run_wal_samples_ok [OF C(1) fresh_wal_cache_ok [OF C(2,3)]])
      (auto simp: C_def)
  note u = wal_update_ok [OF C(1,2) this assms(3)]
  have t: "st' = st \<or> \<not> wal_valid (ss_wal st) \<or> 1000000 \<le> wrap64 (now - wal_sample_time (ss_wal st))"
    using assms(3) by (auto simp: pg_circuit_wal_sample_update_def Let_def split: if_splits)
  have s: "level = wal_classify cfg bps"
    if "\<forall>c \<in> fst ` set samples.
            pg_circuit_wal_pressure_high_bps c = pg_circuit_wal_pressure_high_bps cfg
            \<and> pg_circuit_wal_pressure_elevated_bps c = pg_circuit_wal_pressure_elevated_bps cfg"
  proof -
    obtain c where c: "c \<in> C" "level = wal_classify c bps" using u(3) by blast
    then have "wal_classify c bps = wal_classify cfg bps"
      using that by (intro wal_classify_same) (auto simp: C_def)
    with c(2) show ?thesis by simp
  qed
  from u(2,3,4) t s show ?thesis unfolding C_def [symmetric] by (simp add: wal_level_score)
qed

theorem wal_sample_coherent_witness:
  "\<exists>bps level st'. pg_circuit_wal_sample_update (default_config False) 7 9000000
       (Some (run_wal_samples [(default_config False, 5, 1000000)] (shmem_fresh 64 512 (default_config False))))
       = ((bps, level), Some st') \<and> 0 \<le> bps \<and> level = wal_classify (default_config False) bps"
proof -
  define st where "st = run_wal_samples [(default_config False, 5, 1000000)] (shmem_fresh 64 512 (default_config False))"
  obtain bps level st' where u: "pg_circuit_wal_sample_update (default_config False) 7 9000000 (Some st)
      = ((bps, level), Some st')"
    using wal_update_Some by (metis prod.collapse)
  have "\<forall>c \<in> insert (default_config False) (fst ` set [(default_config False, 5 :: int, 1000000 :: timestamp)]).
      config_ok c"
    by (simp add: default_config_ok)
  from wal_sample_coherent [OF this st_def u] u show ?thesis unfolding st_def by auto
qed

text \<open>C27: a backend that attaches to a segment with another magic number or layout version,
  after the start-up hook of any other module has run, disables the history: one LOG line is
  written, no event is recorded, the WAL rate reads 0 and the events view is empty.\<close>

theorem foreign_segment_disabled:
  assumes "call_prev_startup prev call existing = (Some st, before)"
    and "ss_magic st \<noteq> PG_CIRCUIT_SHMEM_MAGIC \<or> ss_version st \<noteq> PG_CIRCUIT_SHMEM_VERSION"
  shows "\<exists>msg. pg_circuit_shmem_startup hdr evsz cfg prev call existing = (None, before @ [elog LOG msg])
     \<and> (let sh = fst (pg_circuit_shmem_startup hdr evsz cfg prev call existing)
        in pg_circuit_event_record pg cfg ev rids rel db usr policy sh = None
           \<and> pg_circuit_wal_cache_read sh = (0, 0)
           \<and> pg_circuit_events cfg True sh = Some (Inr []))"
  using assms
  by (auto simp: pg_circuit_shmem_startup_def pg_circuit_wal_cache_read_def pg_circuit_events_def
      pg_circuit_event_snapshot_def)

theorem foreign_segment_disabled_witness:
  "fst (pg_circuit_shmem_startup 64 512 (default_config False) None (\<lambda>h s. (s, []))
     (Some (example_shared\<lparr>ss_version := 1\<rparr>))) = None"
proof -
  have p: "call_prev_startup None (\<lambda>h s. (s, [])) (Some (example_shared\<lparr>ss_version := 1\<rparr>))
      = (Some (example_shared\<lparr>ss_version := 1\<rparr>), [])"
    by (simp add: call_prev_startup_def)
  have "ss_magic (example_shared\<lparr>ss_version := 1\<rparr>) \<noteq> PG_CIRCUIT_SHMEM_MAGIC
      \<or> ss_version (example_shared\<lparr>ss_version := 1\<rparr>) \<noteq> PG_CIRCUIT_SHMEM_VERSION"
    by (simp add: PG_CIRCUIT_SHMEM_VERSION_def)
  from foreign_segment_disabled [OF p this, of 64 512 "default_config False" example_server None]
  show ?thesis by auto
qed

text \<open>C28: the event ring of a fresh segment lies inside the memory the module asked the server
  for: header and slots together are no longer than the requested addin space.\<close>

theorem ring_fits_request:
  assumes "0 < evsz"
  shows "\<exists>space. RequestAddinShmemSpace space \<in> set (pg_circuit_shmem_request hdr evsz cfg m call)
     \<and> hdr + length (ss_events (shmem_fresh hdr evsz cfg)) * evsz \<le> space
     \<and> int (length (ss_events (shmem_fresh hdr evsz cfg))) = ss_capacity (shmem_fresh hdr evsz cfg)"
proof (intro exI conjI)
  show "RequestAddinShmemSpace (pg_circuit_shared_memsize hdr evsz cfg)
      \<in> set (pg_circuit_shmem_request hdr evsz cfg m call)"
    by (simp add: pg_circuit_shmem_request_def)
  show "hdr + length (ss_events (shmem_fresh hdr evsz cfg)) * evsz
      \<le> pg_circuit_shared_memsize hdr evsz cfg"
    by (simp add: shmem_fresh_def pg_circuit_shared_memsize_def)
  show "int (length (ss_events (shmem_fresh hdr evsz cfg))) = ss_capacity (shmem_fresh hdr evsz cfg)"
    using shmem_fresh_ok [OF assms, of hdr cfg] by (simp add: ring_ok_def)
qed

theorem ring_fits_request_witness:
  "int (length (ss_events (shmem_fresh 64 512 (default_config True)))) = 256"
proof -
  have "(0 :: nat) < 512" by simp
  from ring_fits_request [OF this, of 64 "default_config True"] show ?thesis
    by (auto simp: shmem_fresh_def event_capacity_def default_config_def)
qed


text \<open>C35: the rule list of an event is safe and faithful: whatever the findings, the copying loop
  stays inside its buffer; it writes the first \<open>k\<close> non-empty rule ids of the findings in order,
  separated by commas and never half an id. It stops short of an id exactly if the list with it
  would leave no byte to spare besides the terminating zero, so a list that just fills the buffer
  loses its last id; with no id written it falls back to the primary rule.\<close>

theorem rule_list_joined:
  assumes "0 < buflen"
  shows "length (build_rule_ids a buflen) < buflen
     \<and> (\<exists>k \<le> length (nonempty_ids (as_findings a)).
          build_rule_ids a buflen =
            (if k = 0 then strlcpy (as_primary_rule a) buflen
             else comma_join (take k (nonempty_ids (as_findings a))))
          \<and> (k = length (nonempty_ids (as_findings a))
             \<or> buflen \<le> length (comma_join (take (Suc k) (nonempty_ids (as_findings a)))) + 1)
          \<and> (k = 0 \<or> length (comma_join (take k (nonempty_ids (as_findings a)))) + 1 < buflen))"
proof -
  define ids where "ids = nonempty_ids (as_findings a)"
  obtain k where k: "k \<le> length ids" "rule_ids_loop buflen (as_findings a) (comma_join []) = comma_join ([] @ take k ids)"
    "k = length ids \<or> buflen \<le> length (comma_join ([] @ take (Suc k) ids)) + 1"
    "k = 0 \<or> length (comma_join ([] @ take k ids)) + 1 < buflen"
    using rule_ids_prefix [where pre = "[]" and buflen = buflen and fs = "as_findings a"]
    unfolding ids_def by auto
  have ne: "\<forall>x \<in> set (take k ids). x \<noteq> ''''"
    by (auto simp: ids_def nonempty_ids_def dest: in_set_takeD)
  have t: "take k ids = [] \<longleftrightarrow> k = 0" using k(1) by auto
  have "build_rule_ids a buflen = (if k = 0 then strlcpy (as_primary_rule a) buflen
      else comma_join (take k ids))"
    using k(2) comma_join_empty [OF ne] t by (simp add: build_rule_ids_def Let_def strlcpy_def)
  with k build_rule_ids_length [OF assms, of a] show ?thesis
    unfolding ids_def [symmetric] by (intro conjI exI [of _ k]) simp_all
qed

theorem rule_list_joined_witness:
  "build_rule_ids (pg_circuit_init_assessment\<lparr>as_findings :=
       [make_finding ''PGC001'' 95 '''' 0 None 0 0, make_finding ''PGC012'' 60 '''' 0 None 0 0]\<rparr>) PGC_RULE_IDS_MAX
     = ''PGC001,PGC012''"
proof -
  define a where "a = pg_circuit_init_assessment\<lparr>as_findings :=
      [make_finding ''PGC001'' 95 '''' 0 None 0 0, make_finding ''PGC012'' 60 '''' 0 None 0 0]\<rparr>"
  have ids: "nonempty_ids (as_findings a) = [''PGC001'', ''PGC012'']"
    by (simp add: a_def nonempty_ids_def make_finding_def strlcpy_def)
  have b: "0 < PGC_RULE_IDS_MAX" by (simp add: PGC_RULE_IDS_MAX_def)
  obtain k where k: "k \<le> Suc (Suc 0)" "build_rule_ids a PGC_RULE_IDS_MAX =
      (if k = 0 then strlcpy (as_primary_rule a) PGC_RULE_IDS_MAX
       else comma_join (take k [''PGC001'', ''PGC012'']))"
    "k = Suc (Suc 0) \<or> PGC_RULE_IDS_MAX \<le> length (comma_join (take (Suc k) [''PGC001'', ''PGC012''])) + 1"
    using conjunct2 [OF rule_list_joined [OF b, of a]] unfolding ids
    by (elim exE conjE, intro that) simp_all
  from k(1,3) have "k = Suc (Suc 0)"
    by (cases k; cases "k - 1") (simp_all add: PGC_RULE_IDS_MAX_def)
  with k(2) show ?thesis unfolding a_def [symmetric] by simp
qed

end
