(* ===== verification/Pgc_Risk_Props.thy ===== *)
theory Pgc_Risk_Props
  imports Pgc_Sql_Api
begin

text \<open>
  The properties of the risk decision: \<open>src/risk_engine.c\<close>, \<open>query_analysis.c\<close>,
  \<open>utility_analysis.c\<close>, the report text of \<open>circuit_breaker.c\<close> and the explain functions.
\<close>

section \<open>Scores and decisions\<close>

text \<open>C13: an assessment is explained by its findings: the score is the sum of their contributions
  and lies between 0 and 100, the level is the level of the score, the primary rule is the rule of
  the finding, and a statement that no rule covers scores 0 without a finding.\<close>

theorem assessment_explained:
  "let a = pg_circuit_assess_query cfg qinfo runtime in
     as_score a = sum_list (map fi_score_contribution (as_findings a))
     \<and> as_score a = base_score qinfo \<and> 0 \<le> as_score a \<and> as_score a \<le> 100
     \<and> as_level a = pg_circuit_score_to_level (as_score a)
     \<and> as_primary_rule a = rule_of_kind (qi_kind qinfo)
     \<and> map fi_rule_id (as_findings a)
         = (if qi_kind qinfo = PGC_QKIND_OTHER then [] else [as_primary_rule a])"
proof -
  have "base_score qinfo = 0" if "qi_kind qinfo = PGC_QKIND_OTHER"
    using that by (simp add: base_score_zero_iff)
  then show ?thesis
    by (simp add: Let_def assess_score assess_contributions assess_rule_ids assess_level
        assess_primary_rule base_score_range)
qed

text \<open>C12: the decision table of all modes: BLOCK exactly in enforce mode at or above the block
  threshold, WARN exactly at or above the warn threshold in warn mode, or in enforce mode below
  the block threshold, and ALLOW otherwise.\<close>

theorem decision_table:
  "let a = pg_circuit_assess_query cfg qinfo runtime in
     (as_decision a = PGC_DECISION_BLOCK \<longleftrightarrow>
        pg_circuit_mode cfg = PgCircuitMode_code PGC_MODE_ENFORCE
        \<and> pg_circuit_risk_block_threshold cfg \<le> as_score a)
     \<and> (as_decision a = PGC_DECISION_WARN \<longleftrightarrow>
        pg_circuit_risk_warn_threshold cfg \<le> as_score a
        \<and> (pg_circuit_mode cfg = PgCircuitMode_code PGC_MODE_WARN
           \<or> pg_circuit_mode cfg = PgCircuitMode_code PGC_MODE_ENFORCE
             \<and> as_score a < pg_circuit_risk_block_threshold cfg))"
  by (auto simp: Let_def assess_decision assess_score mode_decision_def PgCircuitMode_of_def
      split: option.splits)

text \<open>C26: a stricter mode (observe, warn, enforce) or a higher score never gives a weaker
  decision, all else equal.\<close>

theorem decision_monotone:
  assumes "PgCircuitMode_of (pg_circuit_mode cfg') = Some m'"
    and "PgCircuitMode_of (pg_circuit_mode cfg) = Some m"
    and "PgCircuitMode_code m \<le> PgCircuitMode_code m'"
    and "pg_circuit_risk_warn_threshold cfg' = pg_circuit_risk_warn_threshold cfg"
    and "pg_circuit_risk_block_threshold cfg' = pg_circuit_risk_block_threshold cfg"
    and "base_score q \<le> base_score q'"
  shows "as_decision (pg_circuit_assess_query cfg q r) \<le> as_decision (pg_circuit_assess_query cfg' q' r')"
  using assms
  by (cases m; cases m') (auto simp: assess_decision mode_decision_def enum_simps)

theorem decision_monotone_witness:
  "as_decision (pg_circuit_assess_query (default_config False)
      (explain_qinfo PGC_QKIND_REINDEX 0 0) zero_runtime)
   \<le> as_decision (pg_circuit_assess_query (default_config False\<lparr>pg_circuit_mode := 2\<rparr>)
      (explain_qinfo PGC_QKIND_TRUNCATE 0 0) zero_runtime)"
  by (rule decision_monotone [where m = PGC_MODE_WARN and m' = PGC_MODE_ENFORCE])
    (simp_all add: default_config_def PgCircuitMode_of_def base_score_def explain_qinfo_def
      synthetic_qinfo_def zero_qinfo_def Let_def)

text \<open>C37: parsing undoes printing: every operation name the events view shows is accepted by the
  explain functions and stands for the same operation, in any spelling of case. The comparison
  of names is the documented one of \<open>pg_strcasecmp\<close>: equality after folding case.\<close>

theorem query_kind_roundtrip:
  assumes fold: "\<And>a b. strcaseeq a b \<longleftrightarrow> lower a = lower b"
    and lower: "\<And>k. lower (pg_circuit_query_kind_name (PgCircuitQueryKind_code k))
                     = pg_circuit_query_kind_name (PgCircuitQueryKind_code k)"
    and given: "lower name = pg_circuit_query_kind_name (PgCircuitQueryKind_code kind)"
  shows "pg_circuit_parse_query_kind strcaseeq (Some name) = Some kind"
proof -
  have names: "lower ''delete_no_where'' = ''delete_no_where''"
    "lower ''update_no_where'' = ''update_no_where''" "lower ''truncate'' = ''truncate''"
    "lower ''drop_table'' = ''drop_table''" "lower ''drop_database'' = ''drop_database''"
    "lower ''alter_table'' = ''alter_table''" "lower ''create_index'' = ''create_index''"
    "lower ''create_index_concurrently'' = ''create_index_concurrently''"
    "lower ''reindex'' = ''reindex''" "lower ''vacuum_full'' = ''vacuum_full''"
    "lower ''cluster'' = ''cluster''" "lower ''other'' = ''other''"
    using lower [of PGC_QKIND_DELETE_NO_WHERE] lower [of PGC_QKIND_UPDATE_NO_WHERE]
      lower [of PGC_QKIND_TRUNCATE] lower [of PGC_QKIND_DROP_TABLE] lower [of PGC_QKIND_DROP_DATABASE]
      lower [of PGC_QKIND_ALTER_TABLE] lower [of PGC_QKIND_CREATE_INDEX]
      lower [of PGC_QKIND_CREATE_INDEX_CONCURRENTLY] lower [of PGC_QKIND_REINDEX]
      lower [of PGC_QKIND_VACUUM_FULL] lower [of PGC_QKIND_CLUSTER] lower [of PGC_QKIND_OTHER]
    by (simp_all add: pg_circuit_query_kind_name_def qkind_enum.decode_code
        del: PgCircuitQueryKind_code.simps)
  have n: "lower name = (case kind of
        PGC_QKIND_DELETE_NO_WHERE \<Rightarrow> ''delete_no_where''
      | PGC_QKIND_UPDATE_NO_WHERE \<Rightarrow> ''update_no_where''
      | PGC_QKIND_TRUNCATE \<Rightarrow> ''truncate''
      | PGC_QKIND_DROP_TABLE \<Rightarrow> ''drop_table''
      | PGC_QKIND_DROP_DATABASE \<Rightarrow> ''drop_database''
      | PGC_QKIND_ALTER_TABLE \<Rightarrow> ''alter_table''
      | PGC_QKIND_CREATE_INDEX \<Rightarrow> ''create_index''
      | PGC_QKIND_CREATE_INDEX_CONCURRENTLY \<Rightarrow> ''create_index_concurrently''
      | PGC_QKIND_REINDEX \<Rightarrow> ''reindex''
      | PGC_QKIND_VACUUM_FULL \<Rightarrow> ''vacuum_full''
      | PGC_QKIND_CLUSTER \<Rightarrow> ''cluster''
      | PGC_QKIND_OTHER \<Rightarrow> ''other'')"
    using given by (simp add: pg_circuit_query_kind_name_def qkind_enum.decode_code)
  show ?thesis
    by (cases kind) (simp_all add: pg_circuit_parse_query_kind_def fold names n)
qed

theorem query_kind_roundtrip_witness:
  "pg_circuit_parse_query_kind (pg_strcaseeq example_server) (Some ''vacuum_full'')
     = Some PGC_QKIND_VACUUM_FULL"
proof (rule query_kind_roundtrip [where lower = id])
  show "pg_strcaseeq example_server a b \<longleftrightarrow> id a = id b" for a b by (simp add: example_server_def)
  show "id ''vacuum_full'' = pg_circuit_query_kind_name (PgCircuitQueryKind_code PGC_QKIND_VACUUM_FULL)"
    by (simp add: pg_circuit_query_kind_name_def PgCircuitQueryKind_of_def)
qed simp

text \<open>C33: the two explain functions agree: on every input they raise the same error or return the
  same score, decision and level; lock pressure and lag never change a Community score.\<close>

theorem explain_functions_agree:
  "case (pg_circuit_explain_risk pg cfg ok op rows bytes mode lag,
         pg_circuit_explain_risk_ex pg cfg ok op rows bytes mode lag' blocked blocking wait) of
     (Inl e, Inl e') \<Rightarrow> e = e'
   | (Inr row, Inr row') \<Rightarrow> length row = 4 \<and> take 3 row = take 3 row' \<and> length row' = 4
   | _ \<Rightarrow> False"
proof -
  have b: "base_score (explain_qinfo kind rows bytes) = base_score (explain_ex_qinfo kind rows bytes)" for kind
    by (cases kind) (simp_all add: base_score_def explain_qinfo_def explain_ex_qinfo_def
        synthetic_qinfo_def zero_qinfo_def Let_def)
  show ?thesis
    by (auto simp: pg_circuit_explain_risk_def pg_circuit_explain_risk_ex_def assessment_row_def
        assess_score assess_decision assess_level b split: option.split)
qed


section \<open>Statement analysis\<close>

definition example_delete :: PlannedStmt where
  "example_delete =
     \<lparr>ps_commandType = CMD_DELETE,
      planTree = Some (Plan T_ModifyTable 0 (Some (Plan T_SeqScan 12 None False)) False),
      ps_rtable = [\<lparr>rtekind = RTE_RELATION, relid = 16384\<rparr>], resultRelations = [1]\<rparr>"

lemma example_storage_ok: "server_storage_ok example_server"
  by (simp add: server_storage_ok_def example_server_def)

lemma example_delete_target: "planned_relation_oid example_delete = 16384"
  by (simp add: planned_relation_oid_def example_delete_def rt_fetch_def)

lemma example_delete_no_where: "\<not> planned_has_where example_delete"
  by (simp add: planned_has_where_def example_delete_def)

lemma example_delete_analysis:
  "\<exists>q. pg_circuit_analyze_plannedstmt example_server (Some example_delete) = Inr q
     \<and> 0 \<le> qi_estimated_rows q"
proof -
  have o: "try_relation_open example_server (planned_relation_oid example_delete)
      = Inr (Some \<lparr>reltuples = 10000000, rd_nblocks = Inr 100000\<rparr>)"
    by (simp add: example_delete_target) (simp add: example_server_def)
  have v: "OidIsValid (planned_relation_oid example_delete)" by (simp add: example_delete_target)
  have mx: "MaxHeapTuplesPerPage example_server = 291" by (simp add: example_server_def)
  have b: "pg_circuit_relation_physical_tuple_bound example_server 16384 = Inr 29100000"
    using physical_bound_eq [OF example_storage_ok o _ v, of 100000]
    by (simp add: mx example_delete_target)
  obtain n m z t where
    "pg_circuit_relation_name example_server 16384 NAMEDATALEN = Inr n"
    "pg_circuit_relation_qualname example_server 16384 (NAMEDATALEN * 2 + 2) = Inr m"
    "pg_circuit_relation_size example_server 16384 = Inr z"
    "pg_circuit_relation_estimated_tuples example_server 16384 = Inr t" "t = 10000000"
    by (simp add: pg_circuit_relation_name_def pg_circuit_relation_qualname_def Let_def
        pg_circuit_relation_size_def pg_circuit_relation_estimated_tuples_def example_server_def)
  then show ?thesis
    using b example_delete_no_where
    by (simp add: pg_circuit_analyze_plannedstmt_def example_delete_target fill_target_def
        target_rows_def clamp_estimated_rows_def)
      (simp add: example_delete_def)
qed

text \<open>C19: whenever the analysis of a planned statement in the executor hook returns, the statement
  is classified as an unqualified DELETE or UPDATE exactly if it is a DELETE or an UPDATE whose
  plan is a ModifyTable directly over a sequential scan without filter; every other statement,
  with a filter, with another plan or with another command, gets the kind OTHER.\<close>

theorem dml_classified:
  assumes "pg_circuit_analyze_plannedstmt pg (Some s) = Inr q"
  shows "qi_kind q =
     (if \<exists>plan sub. planTree s = Some plan \<and> plan_tag plan = T_ModifyTable
           \<and> lefttree plan = Some sub \<and> plan_tag sub = T_SeqScan \<and> \<not> plan_has_qual sub
      then (case ps_commandType s of
              CMD_DELETE \<Rightarrow> PGC_QKIND_DELETE_NO_WHERE
            | CMD_UPDATE \<Rightarrow> PGC_QKIND_UPDATE_NO_WHERE
            | _ \<Rightarrow> PGC_QKIND_OTHER)
      else PGC_QKIND_OTHER)"
proof -
  have w: "\<not> planned_has_where s \<longleftrightarrow> (\<exists>plan sub. planTree s = Some plan \<and> plan_tag plan = T_ModifyTable
        \<and> lefttree plan = Some sub \<and> plan_tag sub = T_SeqScan \<and> \<not> plan_has_qual sub)"
    by (auto simp: planned_has_where_def split: option.splits)
  show ?thesis
    unfolding w [symmetric] analyze_planned_kind [OF assms] by (simp split: CmdType.split)
qed

theorem dml_classified_witness:
  "\<exists>q. pg_circuit_analyze_plannedstmt example_server (Some example_delete) = Inr q
     \<and> qi_kind q = PGC_QKIND_DELETE_NO_WHERE"
proof -
  obtain q where q: "pg_circuit_analyze_plannedstmt example_server (Some example_delete) = Inr q"
    using example_delete_analysis by blast
  from dml_classified [OF q] q show ?thesis by (simp add: example_delete_def)
qed

text \<open>C38: when the analysis of a DELETE or UPDATE on a relation that can be opened and sized returns,
  on a server whose page and tuple counts are in PostgreSQL's ranges, its row estimate is at most \<open>2 ^ 47\<close>, so the conversion of an estimate of at least 0 to \<open>uint64\<close> in the
  report, which tests for that, is always defined and gives the truncated estimate.\<close>

theorem dml_estimate_converts:
  assumes "server_storage_ok pg" and "stmt = Some s"
    and "OidIsValid (planned_relation_oid s)"
    and "try_relation_open pg (planned_relation_oid s) = Inr (Some rel)"
    and "rd_nblocks rel = Inr pages"
    and "pg_circuit_analyze_plannedstmt pg stmt = Inr q"
    and "0 \<le> qi_estimated_rows q"
  shows "qi_estimated_rows q \<le> 2 ^ 47
     \<and> u64_of_double pg (qi_estimated_rows q) = nat \<lfloor>qi_estimated_rows q\<rfloor>"
proof -
  have "qi_estimated_rows q \<le> 2 ^ 47"
    using planned_rows [of pg s q] clamp_rows_bounded [OF assms(1,3,4,5)] assms(2,6) by auto
  then show ?thesis using assms(7) by (simp add: u64_of_double_def)
qed

theorem dml_estimate_converts_witness:
  "\<exists>q. pg_circuit_analyze_plannedstmt example_server (Some example_delete) = Inr q
     \<and> qi_estimated_rows q \<le> 2 ^ 47"
proof -
  have o: "try_relation_open example_server (planned_relation_oid example_delete)
      = Inr (Some \<lparr>reltuples = 10000000, rd_nblocks = Inr 100000\<rparr>)"
    by (simp add: example_delete_target) (simp add: example_server_def)
  have v: "OidIsValid (planned_relation_oid example_delete)" by (simp add: example_delete_target)
  obtain q where q: "pg_circuit_analyze_plannedstmt example_server (Some example_delete) = Inr q"
    "0 \<le> qi_estimated_rows q"
    using example_delete_analysis by blast
  from dml_estimate_converts [OF example_storage_ok refl v o _ q] q(1) show ?thesis by auto
qed

text \<open>C34: an ALTER TABLE takes the strongest lock class of its subcommands (at least LOW), whatever
  their order, and is marked as a rewrite exactly if some subcommand rewrites the table.\<close>

theorem alter_table_strongest:
  assumes "pg_circuit_analyze_utility pg (Some (AlterTableStmt rel cmds)) = Inr q"
    and "\<not> AmAutoVacuumWorkerProcess pg"
  shows "qi_kind q = PGC_QKIND_ALTER_TABLE
     \<and> qi_lock_class q = Max (insert PGC_LOCK_LOW (alter_lock_class ` set cmds))
     \<and> (qi_rewrite_likely q \<longleftrightarrow> (\<exists>c \<in> set cmds. alter_rewrites c))"
proof -
  obtain l r d where f: "fold alter_step cmds (PGC_LOCK_LOW, False, ''ALTER TABLE'') = (l, r, d)"
    by (metis prod.exhaust)
  from alter_fold [of PGC_LOCK_LOW cmds False "''ALTER TABLE''"] f
  have lr: "l = Max (insert PGC_LOCK_LOW (alter_lock_class ` set cmds))"
    "r \<longleftrightarrow> (\<exists>c \<in> set cmds. alter_rewrites c)" by auto
  have "classify_alter_table pg rel cmds init_utility_qinfo = Inr q"
    using assms by (simp add: pg_circuit_analyze_utility_def)
  then obtain q0 where q0: "fill_relation_from_rangevar pg rel
        (init_utility_qinfo\<lparr>qi_is_write := True, qi_kind := PGC_QKIND_ALTER_TABLE\<rparr>) = Inr q0"
    and q: "q = q0\<lparr>qi_lock_class := l, qi_rewrite_likely := r, qi_ddl_detail := strlcpy d 128\<rparr>"
    by (auto simp: classify_alter_table_def Let_def rbind_eq_Inr f)
  have "qi_kind q0 = PGC_QKIND_ALTER_TABLE" using fill_relation_keeps(1) [OF q0] by simp
  then show ?thesis by (simp add: q lr)
qed

theorem alter_table_strongest_witness:
  "\<exists>q. pg_circuit_analyze_utility example_server
         (Some (AlterTableStmt None [AT_DropColumn, AT_AddColumn])) = Inr q
     \<and> qi_lock_class q = PGC_LOCK_HIGH \<and> qi_rewrite_likely q"
proof -
  have "\<exists>q. pg_circuit_analyze_utility example_server
         (Some (AlterTableStmt None [AT_DropColumn, AT_AddColumn])) = Inr q"
    by (simp add: pg_circuit_analyze_utility_def classify_alter_table_def
        fill_relation_from_rangevar_def Let_def example_server_def split: prod.split)
  then obtain q where q: "pg_circuit_analyze_utility example_server
         (Some (AlterTableStmt None [AT_DropColumn, AT_AddColumn])) = Inr q" ..
  have "\<not> AmAutoVacuumWorkerProcess example_server" by (simp add: example_server_def)
  from alter_table_strongest [OF q this] q show ?thesis
    by (simp add: alter_lock_class_def alter_rewrites_def max_def PgCircuitLockClass_order)
qed

text \<open>C18: \<open>DROP TABLE IF EXISTS\<close> looks at its first name only: if that one does not exist, the
  statement is left unclassified and unchecked, whatever existing tables follow in the list.\<close>

theorem drop_if_exists_first_only:
  assumes "makeRangeVarFromNameList pg name = Inr rv" and "RangeVarGetRelid pg rv = Inr InvalidOid"
  shows "pg_circuit_analyze_utility pg (Some (DropStmt OBJECT_TABLE (name # names) True))
       = Inr init_utility_qinfo
     \<and> evaluate_and_apply pg cfg init_utility_qinfo = ret ()"
  using assms
  by (simp add: pg_circuit_analyze_utility_def analyze_drop_def fill_relation_from_rangevar_def
      Let_def InvalidOid_def evaluate_other)

theorem drop_if_exists_first_only_witness:
  "pg_circuit_analyze_utility example_server
     (Some (DropStmt OBJECT_TABLE [[''missing''], [''orders'']] True)) = Inr init_utility_qinfo
   \<and> RangeVarGetRelid example_server \<lparr>catalogname = None, schemaname = None, relname = ''orders''\<rparr> = Inr 16384"
proof -
  have "makeRangeVarFromNameList example_server [''missing'']
      = Inr \<lparr>catalogname = None, schemaname = None, relname = ''missing''\<rparr>"
    "RangeVarGetRelid example_server \<lparr>catalogname = None, schemaname = None, relname = ''missing''\<rparr>
      = Inr InvalidOid"
    by (simp_all add: example_server_def InvalidOid_def)
  from drop_if_exists_first_only [OF this, of "[[''orders'']]"] show ?thesis
    by (simp add: example_server_def)
qed

lemma filter_complete:
  assumes "pg_circuit_analyze_utility pg parsetree = Inr q" and "qi_kind q \<noteq> PGC_QKIND_OTHER"
  shows "utility_may_be_risky parsetree"
proof -
  obtain node where p: "parsetree = Some node"
    using assms by (cases parsetree) (auto simp: pg_circuit_analyze_utility_def)
  have "\<not> AmAutoVacuumWorkerProcess pg"
    using assms by (auto simp: pg_circuit_analyze_utility_def p)
  then show ?thesis
    using assms def_list_has_bool_named [of pg _ "''full''"]
    by (cases node)
      (auto simp: p pg_circuit_analyze_utility_def utility_may_be_risky_def analyze_drop_def
        analyze_vacuum_def options_has_full_def list_ex_iff rbind_eq_Inr split: if_splits)
qed

text \<open>C17: the cheap filter of the utility hook never hides a risky statement: whatever the full
  analysis classifies, the filter lets through to it.\<close>

theorem utility_filter_complete:
  assumes "pg_circuit_analyze_utility pg parsetree = Inr q" and "qi_kind q \<noteq> PGC_QKIND_OTHER"
  shows "utility_may_be_risky parsetree"
  by (rule filter_complete [OF assms])

theorem utility_filter_complete_witness:
  "utility_may_be_risky (Some (TruncateStmt []))"
proof (rule utility_filter_complete)
  show "pg_circuit_analyze_utility example_server (Some (TruncateStmt []))
      = Inr (risky_ddl PGC_QKIND_TRUNCATE PGC_LOCK_HIGH ''TRUNCATE'' init_utility_qinfo)"
    by (simp add: pg_circuit_analyze_utility_def example_server_def fill_relation_from_rangevar_def)
qed simp


section \<open>Report text\<close>

text \<open>C36: the thousands separators of a report lose nothing and stay in their buffer: for every
  64-bit value the appended text is its decimal digits with a comma at each fourth place from the
  right and nowhere else, and is at most 26 characters long (the buffer holds 48).\<close>

theorem grouped_number_readable:
  assumes "n < 2 ^ 64"
  shows "\<exists>s. append_grouped_u64 buf n = buf @ s
     \<and> read_nat (filter (\<lambda>c. c \<noteq> CHR '','') s) = n \<and> length s \<le> 26
     \<and> (\<forall>i < length s. rev s ! i = CHR '','' \<longleftrightarrow> i mod 4 = 3)"
proof -
  define ds where "ds = rev (show_nat n)"
  define g where "g = group_digits 0 ds"
  have c: "CHR '','' \<notin> set ds" using show_nat_no_comma by (simp add: ds_def)
  have "length (show_nat n) \<le> 20" by (rule length_show_nat) (use assms in simp_all)
  then have len: "length g \<le> 26"
    using length_group_digits [of 0 ds] by (simp add: g_def ds_def written_def)
  have f: "filter (\<lambda>c. c \<noteq> CHR '','') (rev g) = show_nat n"
    using group_digits_filter [OF c, of 0] by (simp add: g_def ds_def flip: rev_filter)
  have "append_grouped_u64 buf n = buf @ rev g"
    using append_grouped_eq [OF assms] by (simp add: g_def ds_def)
  moreover have "\<forall>i < length (rev g). rev (rev g) ! i = CHR '','' \<longleftrightarrow> i mod 4 = 3"
    using group_digits_commas [OF c, of _ 0] by (simp add: g_def)
  ultimately show ?thesis
    using len f by (intro exI [of _ "rev g"]) simp
qed

theorem grouped_number_readable_witness:
  "\<exists>s. append_grouped_u64 [] 48192211 = s \<and> read_nat (filter (\<lambda>c. c \<noteq> CHR '','') s) = 48192211"
  using grouped_number_readable [of 48192211 "[]"] by auto

end
