(* ===== verification/Pgc_Hook_Props.thy ===== *)
theory Pgc_Hook_Props
  imports Pgc_Signal_Props Pgc_Shmem_Props Pgc_Risk_Props
begin

text \<open>
  The properties of \<open>src/hooks.c\<close>: what is stopped, what is let through, and what is recorded.
  They quantify over the server: every failure of a catalog, lock-manager or statistics call is
  a value of the parameter \<open>pg\<close>, and \<open>call\<close> is any next routine of the hook chain.
\<close>

definition enforce_config :: config where
  "enforce_config =
     (default_config False)\<lparr>pg_circuit_mode := PgCircuitMode_code PGC_MODE_ENFORCE,
                            pg_circuit_fail_closed := True\<rparr>"

definition example_world :: world where
  "example_world = \<lparr>w_shared = Some example_shared, w_log = []\<rparr>"

definition no_hooks :: hook_slots where
  "no_hooks =
     \<lparr>planner_hook = None, ProcessUtility_hook = None, ExecutorStart_hook = None,
      ExecutorEnd_hook = None, prev_planner_hook = None, prev_ProcessUtility_hook = None,
      prev_ExecutorStart_hook = None, prev_ExecutorEnd_hook = None\<rparr>"

section \<open>Stopping a statement\<close>

text \<open>C1: in enforce mode with \<open>fail_closed\<close> and with checking on (the extension enabled, not in a
  parallel worker), a utility statement that the filter selects is stopped with an error for every
  server, if its analysis either raises or gives a kind other than OTHER that scores at or above
  the block threshold: no failure of the analysis, of a collector or of a name lookup and no
  injected fault lets it reach the next hook or the server's own routine.\<close>

theorem enforce_stops_utility:
  assumes "PgCircuitMode_of (pg_circuit_mode cfg) = Some PGC_MODE_ENFORCE"
    and "pg_circuit_fail_closed cfg" and "\<not> should_skip_check pg cfg"
    and "utility_may_be_risky parsetree"
    and "\<And>q. pg_circuit_analyze_utility pg parsetree = Inr q \<Longrightarrow>
           qi_kind q \<noteq> PGC_QKIND_OTHER \<and> pg_circuit_risk_block_threshold cfg \<le> base_score q"
  shows "\<exists>e w'. \<forall>call. pg_circuit_process_utility pg cfg slots parsetree call w = (Inl e, w')"
proof -
  have "\<exists>e w'. utility_check pg cfg parsetree w = (Inl e, w')"
  proof (cases "pg_circuit_analyze_utility pg parsetree")
    case (Inl e)
    with assms(3,4) show ?thesis by (simp add: utility_check_def ebind_def lift_result_def)
  next
    case (Inr q)
    from evaluate_blocks [OF assms(1,2)] assms(5) [OF this]
    have "\<exists>e w'. evaluate_and_apply pg cfg q w = (Inl e, w')" by blast
    with assms(3,4) Inr show ?thesis by (simp add: utility_check_def ebind_def lift_result_def)
  qed
  then show ?thesis using utility.check_raises by blast
qed

theorem enforce_stops_utility_witness:
  "\<exists>e w'. \<forall>call. pg_circuit_process_utility example_server enforce_config no_hooks
     (Some (TruncateStmt [\<lparr>catalogname = None, schemaname = None, relname = ''orders''\<rparr>]))
     (call :: hook option \<Rightarrow> unit action) example_world = (Inl e, w')"
proof (rule enforce_stops_utility)
  fix q
  assume a: "pg_circuit_analyze_utility example_server
     (Some (TruncateStmt [\<lparr>catalogname = None, schemaname = None, relname = ''orders''\<rparr>])) = Inr q"
  have "\<not> AmAutoVacuumWorkerProcess example_server" by (simp add: example_server_def)
  with a have "fill_relation_from_rangevar example_server
       (Some \<lparr>catalogname = None, schemaname = None, relname = ''orders''\<rparr>)
       (risky_ddl PGC_QKIND_TRUNCATE PGC_LOCK_HIGH ''TRUNCATE'' init_utility_qinfo) = Inr q"
    by (simp add: pg_circuit_analyze_utility_def)
  from fill_relation_keeps(1) [OF this]
  show "qi_kind q \<noteq> PGC_QKIND_OTHER \<and> pg_circuit_risk_block_threshold enforce_config \<le> base_score q"
    by (simp add: base_score_def enforce_config_def default_config_def)
qed (simp_all add: enforce_config_def default_config_def PgCircuitMode_of_def should_skip_check_def
      utility_may_be_risky_def example_server_def)

text \<open>C14: in enforce mode with \<open>fail_closed\<close>, a block threshold of at most 95 and checking on (the
  extension enabled, not in a parallel worker), a DELETE or UPDATE that is really executed (not an
  EXPLAIN without ANALYZE) and planned as a ModifyTable over an unfiltered sequential scan is
  stopped before the executor starts, for every table and whatever the server's calls return or
  raise.\<close>

theorem enforce_stops_unqualified_dml:
  assumes "PgCircuitMode_of (pg_circuit_mode cfg) = Some PGC_MODE_ENFORCE"
    and "pg_circuit_fail_closed cfg" and "pg_circuit_risk_block_threshold cfg \<le> 95"
    and "\<not> should_skip_check pg cfg" and "\<not> explain_only"
    and "ps_commandType s = CMD_DELETE \<or> ps_commandType s = CMD_UPDATE" and "\<not> planned_has_where s"
  shows "\<exists>e w'. \<forall>call. pg_circuit_executor_start pg cfg slots (Some (Some s)) explain_only call w = (Inl e, w')"
proof -
  have run: "executor_check pg cfg (Some (Some s)) explain_only w =
      ebind (lift_result (pg_circuit_analyze_plannedstmt pg (Some s))) (evaluate_and_apply pg cfg) w"
    using assms(4-6) by (simp add: executor_check_def)
  have "\<exists>e w'. executor_check pg cfg (Some (Some s)) explain_only w = (Inl e, w')"
  proof (cases "pg_circuit_analyze_plannedstmt pg (Some s)")
    case (Inl e)
    then show ?thesis by (simp add: run ebind_def lift_result_def)
  next
    case (Inr q)
    have k: "qi_kind q = PGC_QKIND_DELETE_NO_WHERE \<or> qi_kind q = PGC_QKIND_UPDATE_NO_WHERE"
      using assms(6,7) by (auto simp: analyze_planned_kind [OF Inr])
    then have "base_score q = 95" by (auto simp: base_score_def)
    with evaluate_blocks [OF assms(1,2), of q pg w] assms(3) k Inr show ?thesis
      by (auto simp: run ebind_def lift_result_def)
  qed
  then show ?thesis using executor_start.check_raises by blast
qed

theorem enforce_stops_unqualified_dml_witness:
  "\<exists>e w'. \<forall>call. pg_circuit_executor_start example_server enforce_config no_hooks
     (Some (Some example_delete)) False (call :: hook option \<Rightarrow> unit action) example_world = (Inl e, w')"
  by (rule enforce_stops_unqualified_dml)
    (simp_all add: enforce_config_def default_config_def PgCircuitMode_of_def should_skip_check_def
      example_server_def example_delete_def planned_has_where_def)

text \<open>C15: with checking on, a utility statement that the analysis classifies is handled as decided
  from the mode, the thresholds and its score, provided that the collectors and the name lookups
  return and no fault is injected: a blocked one ends, whatever follows in the chain, with the
  block error; a warned one passes exactly to the saved previous hook with one WARNING more in
  the log; an allowed one passes to it with nothing but the debug line; in each case with the
  history as recorded before the decision is applied.\<close>

theorem utility_decision_applied:
  assumes "\<not> should_skip_check pg cfg"
    and "pg_circuit_analyze_utility pg parsetree = Inr q" and "qi_kind q \<noteq> PGC_QKIND_OTHER"
    and "\<not> runtime_fault pg cfg"
    and "pg_circuit_collect_runtime_state pg cfg (w_shared w) = (Inr runtime, sh)"
    and "event_names pg (MyDatabaseId pg) (CurrentUserId pg) = Inr names"
  shows "\<exists>w1 rule detail.
     w_log w1 = w_log w @ debug_lines cfg q runtime (pg_circuit_assess_query cfg q runtime)
     \<and> w_shared w1 = snd (recorded pg cfg q runtime sh)
     \<and> (case mode_decision cfg (pg_circuit_risk_warn_threshold cfg \<le> base_score q)
                (pg_circuit_risk_block_threshold cfg \<le> base_score q) of
          PGC_DECISION_ALLOW \<Rightarrow>
            \<forall>call :: hook option \<Rightarrow> 'r action.
                          pg_circuit_process_utility pg cfg slots parsetree call w
              = call (prev_ProcessUtility_hook slots) w1
        | PGC_DECISION_WARN \<Rightarrow>
            \<forall>call :: hook option \<Rightarrow> 'r action.
                          pg_circuit_process_utility pg cfg slots parsetree call w
              = call (prev_ProcessUtility_hook slots) (w1\<lparr>w_log := w_log w1 @ [warn_report rule detail]\<rparr>)
        | PGC_DECISION_BLOCK \<Rightarrow>
            \<forall>call :: hook option \<Rightarrow> 'r action.
                          pg_circuit_process_utility pg cfg slots parsetree call w
              = (Inl (block_report rule detail), w1))"
proof -
  define a where "a = pg_circuit_assess_query cfg q runtime"
  define detail where "detail = format_decision_detail pg cfg a runtime q
      (Some (pg_circuit_policy_evaluate q runtime a))"
  define w1 where "w1 = w\<lparr>w_shared := snd (recorded pg cfg q runtime sh),
      w_log := w_log w @ debug_lines cfg q runtime a\<rparr>"
  have d: "mode_decision cfg (pg_circuit_risk_warn_threshold cfg \<le> base_score q)
      (pg_circuit_risk_block_threshold cfg \<le> base_score q) = as_decision a"
    by (simp add: a_def assess_decision)
  have "utility_check pg cfg parsetree w = evaluate_and_apply pg cfg q w"
    using assms(1,2) filter_complete [OF assms(2,3)]
    by (simp add: utility_check_def ebind_def lift_result_def)
  note run = this [unfolded evaluate_decides [OF assms(3-6) a_def detail_def w1_def]]
  show ?thesis
    unfolding d
  proof (rule exI [of _ w1], rule exI [of _ "decision_rule a"], rule exI [of _ detail], intro conjI)
    show "case as_decision a of
          PGC_DECISION_ALLOW \<Rightarrow>
            \<forall>call :: hook option \<Rightarrow> 'r action.
                          pg_circuit_process_utility pg cfg slots parsetree call w
              = call (prev_ProcessUtility_hook slots) w1
        | PGC_DECISION_WARN \<Rightarrow>
            \<forall>call :: hook option \<Rightarrow> 'r action.
                          pg_circuit_process_utility pg cfg slots parsetree call w
              = call (prev_ProcessUtility_hook slots)
                  (w1\<lparr>w_log := w_log w1 @ [warn_report (decision_rule a) detail]\<rparr>)
        | PGC_DECISION_BLOCK \<Rightarrow>
            \<forall>call :: hook option \<Rightarrow> 'r action.
                          pg_circuit_process_utility pg cfg slots parsetree call w
              = (Inl (block_report (decision_rule a) detail), w1)"
      using run by (cases "as_decision a") (simp_all add: utility.check_passes utility.check_raises)
  qed (simp_all add: w1_def a_def)
qed

lemma example_event_names:
  "event_names example_server (MyDatabaseId example_server) (CurrentUserId example_server)
     = Inr (''app'', ''alice'')"
  by (simp add: event_names_def example_server_def strlcpy_def NAMEDATALEN_def)

theorem utility_decision_applied_witness:
  "\<exists>w1 rule detail. \<forall>call. pg_circuit_process_utility example_server (default_config False) no_hooks
     (Some (TruncateStmt [])) (call :: hook option \<Rightarrow> unit action) example_world
       = call None (w1\<lparr>w_log := w_log w1 @ [warn_report rule detail]\<rparr>)"
proof -
  define q where "q = risky_ddl PGC_QKIND_TRUNCATE PGC_LOCK_HIGH ''TRUNCATE'' init_utility_qinfo"
  obtain runtime sh where c: "pg_circuit_collect_runtime_state example_server (default_config False)
      (w_shared example_world) = (Inr runtime, sh)"
    using example_collect by blast
  have s: "\<not> should_skip_check example_server (default_config False)"
    by (simp add: should_skip_check_def default_config_def example_server_def)
  have q: "pg_circuit_analyze_utility example_server (Some (TruncateStmt [])) = Inr q"
    by (simp add: q_def pg_circuit_analyze_utility_def example_server_def fill_relation_from_rangevar_def)
  have k: "qi_kind q = PGC_QKIND_TRUNCATE" by (simp add: q_def)
  then have k': "qi_kind q \<noteq> PGC_QKIND_OTHER" by simp
  have f: "\<not> runtime_fault example_server (default_config False)"
    by (simp add: runtime_fault_def pg_circuit_fault_is_def default_config_def)
  have d: "mode_decision (default_config False)
      (pg_circuit_risk_warn_threshold (default_config False) \<le> base_score q)
      (pg_circuit_risk_block_threshold (default_config False) \<le> base_score q) = PGC_DECISION_WARN"
    by (simp add: base_score_def k mode_decision_def default_config_def PgCircuitMode_of_def)
  have p: "prev_ProcessUtility_hook no_hooks = None" by (simp add: no_hooks_def)
  from utility_decision_applied [OF s q k' f c example_event_names, of no_hooks, unfolded d p]
  show ?thesis by auto
qed


section \<open>Failing open\<close>

text \<open>A server call that an evaluation makes inside its \<open>PG_TRY\<close> raises the error \<open>e\<close>.\<close>

definition server_raises :: "pg_server \<Rightarrow> report \<Rightarrow> bool" where
  "server_raises pg e \<longleftrightarrow>
     GetLockStatusData pg = Inl e \<or> pgstat_fetch_stat_wal pg = Inl e
     \<or> (\<exists>r. get_rel_name pg r = Inl e)
     \<or> (\<exists>d. get_database_name pg d = Inl e) \<or> (\<exists>u. GetUserNameFromId pg u = Inl e)"

lemma evaluate_raises_outside_enforce:
  assumes "PgCircuitMode_of (pg_circuit_mode cfg) \<noteq> Some PGC_MODE_ENFORCE"
    and "evaluate_and_apply pg cfg q w = (Inl e, w')"
  shows "sqlerrcode e = ERRCODE_INSUFFICIENT_PRIVILEGE \<and> server_raises pg e"
proof -
  have "server_raises pg e"
    if "event_names pg (MyDatabaseId pg) (CurrentUserId pg) = Inl e"
    using that by (auto simp: event_names_def server_raises_def rbind_eq_Inl Let_def)
  with evaluate_fails_open [OF assms] collect_runtime_raises [of pg cfg "w_shared w" e]
  show ?thesis by (auto simp: server_raises_def)
qed

text \<open>A check is an analysis outside the \<open>PG_TRY\<close>, then an evaluation.\<close>

lemma check_outside_enforce:
  assumes "PgCircuitMode_of (pg_circuit_mode cfg) \<noteq> Some PGC_MODE_ENFORCE"
    and "ebind (lift_result analysis) (evaluate_and_apply pg cfg) w = (Inl e, w')"
  shows "analysis = Inl e \<or> sqlerrcode e = ERRCODE_INSUFFICIENT_PRIVILEGE \<and> server_raises pg e"
  using assms(2)
proof (cases rule: ebind_InlE)
  case 1
  then show ?thesis by (simp add: lift_result_def)
next
  case (2 q w1)
  from evaluate_raises_outside_enforce [OF assms(1) 2(2)] show ?thesis ..
qed

text \<open>C2: outside enforce mode both checking hooks fail open, with two exceptions. Whatever the
  server, the settings and the statement, the hook passes the statement to the saved previous hook,
  unless the analysis, which runs before the \<open>PG_TRY\<close> block, raised an error, or a lock-manager,
  statistics or name lookup call raised one with the code \<open>ERRCODE_INSUFFICIENT_PRIVILEGE\<close>,
  which is taken for a block and raised again: in both cases that error ends the statement.\<close>

theorem observe_and_warn_fail_open:
  assumes "PgCircuitMode_of (pg_circuit_mode cfg) \<noteq> Some PGC_MODE_ENFORCE"
  shows "((\<exists>w1. \<forall>call :: hook option \<Rightarrow> 'r action.
                pg_circuit_process_utility pg cfg slots parsetree call w
              = call (prev_ProcessUtility_hook slots) w1)
          \<or> (\<exists>e w1. (\<forall>call :: hook option \<Rightarrow> 'r action.
                        pg_circuit_process_utility pg cfg slots parsetree call w = (Inl e, w1))
               \<and> (pg_circuit_analyze_utility pg parsetree = Inl e
                  \<or> sqlerrcode e = ERRCODE_INSUFFICIENT_PRIVILEGE \<and> server_raises pg e)))
     \<and> ((\<exists>w1. \<forall>call :: hook option \<Rightarrow> 'r action.
                   pg_circuit_executor_start pg cfg slots queryDesc explain_only call w
              = call (prev_ExecutorStart_hook slots) w1)
          \<or> (\<exists>e w1. (\<forall>call :: hook option \<Rightarrow> 'r action.
                        pg_circuit_executor_start pg cfg slots queryDesc explain_only call w = (Inl e, w1))
               \<and> ((\<exists>s. queryDesc = Some (Some s) \<and> pg_circuit_analyze_plannedstmt pg (Some s) = Inl e)
                  \<or> sqlerrcode e = ERRCODE_INSUFFICIENT_PRIVILEGE \<and> server_raises pg e)))"
proof
  have "pg_circuit_analyze_utility pg parsetree = Inl e
      \<or> sqlerrcode e = ERRCODE_INSUFFICIENT_PRIVILEGE \<and> server_raises pg e"
    if "utility_check pg cfg parsetree w = (Inl e, w1)" for e w1
    using that check_outside_enforce [OF assms] by (auto simp: utility_check_def ret_def split: if_split_asm)
  then show "(\<exists>w1. \<forall>call :: hook option \<Rightarrow> 'r action.
                pg_circuit_process_utility pg cfg slots parsetree call w
              = call (prev_ProcessUtility_hook slots) w1)
          \<or> (\<exists>e w1. (\<forall>call :: hook option \<Rightarrow> 'r action.
                        pg_circuit_process_utility pg cfg slots parsetree call w = (Inl e, w1))
               \<and> (pg_circuit_analyze_utility pg parsetree = Inl e
                  \<or> sqlerrcode e = ERRCODE_INSUFFICIENT_PRIVILEGE \<and> server_raises pg e))"
    by (rule utility.passes_or_raises)
  have "(\<exists>s. queryDesc = Some (Some s) \<and> pg_circuit_analyze_plannedstmt pg (Some s) = Inl e)
      \<or> sqlerrcode e = ERRCODE_INSUFFICIENT_PRIVILEGE \<and> server_raises pg e"
    if "executor_check pg cfg queryDesc explain_only w = (Inl e, w1)" for e w1
    using that check_outside_enforce [OF assms]
    by (auto simp: executor_check_def ret_def split: if_split_asm option.splits)
  then show "(\<exists>w1. \<forall>call :: hook option \<Rightarrow> 'r action.
                pg_circuit_executor_start pg cfg slots queryDesc explain_only call w
              = call (prev_ExecutorStart_hook slots) w1)
          \<or> (\<exists>e w1. (\<forall>call :: hook option \<Rightarrow> 'r action.
                        pg_circuit_executor_start pg cfg slots queryDesc explain_only call w = (Inl e, w1))
               \<and> ((\<exists>s. queryDesc = Some (Some s) \<and> pg_circuit_analyze_plannedstmt pg (Some s) = Inl e)
                  \<or> sqlerrcode e = ERRCODE_INSUFFICIENT_PRIVILEGE \<and> server_raises pg e))"
    by (rule executor_start.passes_or_raises)
qed

theorem observe_and_warn_fail_open_witness:
  "\<exists>w1. \<forall>call. pg_circuit_process_utility
       (example_server\<lparr>GetLockStatusData := Inl (elog ERROR ''x'')\<rparr>) (default_config False) no_hooks
       (Some (TruncateStmt [])) (call :: hook option \<Rightarrow> unit action) example_world = call None w1"
proof -
  define pg where "pg = example_server\<lparr>GetLockStatusData := Inl (elog ERROR ''x'')\<rparr>"
  have m: "PgCircuitMode_of (pg_circuit_mode (default_config False)) \<noteq> Some PGC_MODE_ENFORCE"
    by (simp add: default_config_def PgCircuitMode_of_def)
  have u: "pg_circuit_analyze_utility pg (Some (TruncateStmt [])) \<noteq> Inl e" for e
    by (simp add: pg_circuit_analyze_utility_def fill_relation_from_rangevar_def pg_def example_server_def)
  have r: "\<not> (sqlerrcode e = ERRCODE_INSUFFICIENT_PRIVILEGE \<and> server_raises pg e)" for e
    by (auto simp: server_raises_def pg_def example_server_def elog_def)
  have p: "prev_ProcessUtility_hook no_hooks = None" by (simp add: no_hooks_def)
  from observe_and_warn_fail_open [OF m, of pg no_hooks "Some (TruncateStmt [])" example_world] u r
  show ?thesis unfolding p pg_def [symmetric] by blast
qed


section \<open>Recording\<close>

text \<open>C3: a classified statement that is warned about or blocked is recorded exactly once, as the
  newest entry of the history, also when the decision then raises its error, and the entry carries
  its kind, score, decision, rule and relation. This holds with a well-formed shared segment
  attached, without the injected faults \<open>runtime\<close> and \<open>event_full\<close>, and when the collectors and
  the lookups of the database and user name return.\<close>

theorem decision_recorded_once:
  assumes "\<not> runtime_fault pg cfg" and "qi_kind q \<noteq> PGC_QKIND_OTHER"
    and "\<not> pg_circuit_fault_is (pg_strcaseeq pg) cfg ''event_full''"
    and "w_shared w = Some st" and "ring_ok st"
    and "fst (pg_circuit_collect_runtime_state pg cfg (w_shared w)) = Inr runtime"
    and "event_names pg (MyDatabaseId pg) (CurrentUserId pg) = Inr names"
    and "as_decision (pg_circuit_assess_query cfg q runtime) \<noteq> PGC_DECISION_ALLOW"
  shows "\<exists>st' slot. w_shared (snd (evaluate_and_apply pg cfg q w)) = Some st' \<and> ring_ok st'
     \<and> ring_history st' = take (ring_capacity st) (slot # ring_history st)
     \<and> se_event_id slot = wrap64 (ss_next_event_id st + 1)
     \<and> se_decision slot = PgCircuitDecision_code (as_decision (pg_circuit_assess_query cfg q runtime))
     \<and> se_operation slot = PgCircuitQueryKind_code (qi_kind q)
     \<and> se_risk_score slot = base_score q \<and> se_rule_ids slot = rule_of_kind (qi_kind q)
     \<and> se_relation_oid slot = qi_relation_oid q"
proof -
  obtain v where sh: "pg_circuit_collect_runtime_state pg cfg (w_shared w) = (Inr runtime, Some (st\<lparr>ss_wal := v\<rparr>))"
    using collect_runtime_shared_Some [of pg cfg st] assms(4,6) by (metis prod.collapse)
  define slot where "slot = statement_slot pg cfg q runtime names (st\<lparr>ss_wal := v\<rparr>)"
  have ok: "ring_ok (st\<lparr>ss_wal := v\<rparr>)" using assms(5) by simp
  define st' where "st' = ring_store slot (st\<lparr>ss_wal := v, ss_next_event_id := wrap64 (ss_next_event_id st + 1),
      ss_next_decision_id := wrap64 (ss_next_decision_id st + 1)\<rparr>)"
  have rec: "snd (recorded pg cfg q runtime (Some (st\<lparr>ss_wal := v\<rparr>))) = Some st'"
    using recorded_stored [OF ok assms(3,8,7)] by (simp add: st'_def slot_def)
  have "w_shared (snd (evaluate_and_apply pg cfg q w)) = Some st'"
    unfolding evaluate_decides [OF assms(2,1) sh assms(7) refl refl refl]
    using rec by (simp split: PgCircuitDecision.split)
  moreover have "ring_ok st'" "ring_history st' = take (ring_capacity st) (slot # ring_history st)"
    using assms(5) by (simp_all add: st'_def ring.inv_push ring.hist_push)
  ultimately show ?thesis
    by (intro exI [of _ st'] exI [of _ slot]) (simp add: slot_def statement_slot_fields)
qed

theorem decision_recorded_once_witness:
  "\<exists>st' slot. w_shared (snd (evaluate_and_apply example_server (default_config False)
       (explain_qinfo PGC_QKIND_TRUNCATE 0 0) example_world)) = Some st'
     \<and> ring_history st' = [slot] \<and> se_risk_score slot = 90"
proof -
  obtain runtime sh where c: "pg_circuit_collect_runtime_state example_server (default_config False)
      (w_shared example_world) = (Inr runtime, sh)"
    using example_collect by blast
  have q: "qi_kind (explain_qinfo PGC_QKIND_TRUNCATE 0 0) = PGC_QKIND_TRUNCATE"
    by (simp add: explain_qinfo_def synthetic_qinfo_def)
  have s: "base_score (explain_qinfo PGC_QKIND_TRUNCATE 0 0) = 90" by (simp add: base_score_def q)
  have d: "as_decision (pg_circuit_assess_query (default_config False)
      (explain_qinfo PGC_QKIND_TRUNCATE 0 0) runtime) \<noteq> PGC_DECISION_ALLOW"
    by (simp add: assess_decision s mode_decision_def default_config_def PgCircuitMode_of_def)
  have f: "\<not> runtime_fault example_server (default_config False)"
    "\<not> pg_circuit_fault_is (pg_strcaseeq example_server) (default_config False) ''event_full''"
    by (simp_all add: runtime_fault_def pg_circuit_fault_is_def default_config_def)
  have h: "ring_history example_shared = []" "ring_capacity example_shared = 256"
    by (simp add: example_shared_def)
      (simp add: example_shared_def ring_capacity_def shmem_fresh_def event_capacity_def default_config_def)
  from decision_recorded_once [OF f(1) _ f(2) _ example_shared_ok _ example_event_names d, of example_world]
  show ?thesis using c by (auto simp: q s h example_world_def)
qed

text \<open>C16: a statement that is allowed leaves no trace: when the collectors and the name lookups
  return and no runtime fault is injected, the statement passes and the only changes to the world are the WAL sample of the shared
  segment, whose history, counters and other fields all stay as they were, and at most one line
  of level DEBUG1 in the log.\<close>

theorem allowed_leaves_no_trace:
  assumes "\<not> runtime_fault pg cfg"
    and "pg_circuit_collect_runtime_state pg cfg (w_shared w) = (Inr runtime, sh)"
    and "event_names pg (MyDatabaseId pg) (CurrentUserId pg) = Inr names"
    and "as_decision (pg_circuit_assess_query cfg q runtime) = PGC_DECISION_ALLOW"
  shows "\<exists>v lines. evaluate_and_apply pg cfg q w
       = (Inr (), w\<lparr>w_shared := map_option (\<lambda>st. st\<lparr>ss_wal := v\<rparr>) (w_shared w),
                    w_log := w_log w @ lines\<rparr>)
     \<and> (\<forall>l \<in> set lines. elevel l = DEBUG1) \<and> length lines \<le> 1"
proof (cases "qi_kind q = PGC_QKIND_OTHER")
  case True
  define v where "v = (case w_shared w of Some st \<Rightarrow> ss_wal st | None \<Rightarrow> zero_wal)"
  have "map_option (\<lambda>st. st\<lparr>ss_wal := v\<rparr>) (w_shared w) = w_shared w"
    by (simp add: v_def split: option.split)
  with True show ?thesis
    by (intro exI [of _ v] exI [of _ "[]"]) (simp add: evaluate_other ret_def)
next
  case False
  have "\<exists>v. sh = map_option (\<lambda>st. st\<lparr>ss_wal := v\<rparr>) (w_shared w)"
  proof (cases "w_shared w")
    case None
    then have "snd (pg_circuit_collect_runtime_state pg cfg None) = sh" using assms(2) by simp
    with None show ?thesis by simp
  next
    case (Some st)
    then show ?thesis using collect_runtime_shared_Some [of pg cfg st] assms(2) by auto
  qed
  then obtain v where v: "sh = map_option (\<lambda>st. st\<lparr>ss_wal := v\<rparr>) (w_shared w)" ..
  show ?thesis
    unfolding evaluate_decides [OF False assms(1,2,3) refl refl refl] recorded_dropped [OF assms(4)] v
    by (intro exI [of _ v]
        exI [of _ "debug_lines cfg q runtime (pg_circuit_assess_query cfg q runtime)"])
      (simp add: debug_lines_def elog_def assms(4))
qed

theorem allowed_leaves_no_trace_witness:
  "\<exists>sh'. w_shared (snd (evaluate_and_apply example_server (default_config False)
        (explain_qinfo PGC_QKIND_CREATE_INDEX_CONCURRENTLY 0 0) example_world)) = Some sh'
     \<and> ring_history sh' = []"
proof -
  obtain runtime sh where c: "pg_circuit_collect_runtime_state example_server (default_config False)
      (w_shared example_world) = (Inr runtime, sh)"
    using example_collect by blast
  have "base_score (explain_qinfo PGC_QKIND_CREATE_INDEX_CONCURRENTLY 0 0) = 15"
    by (simp add: base_score_def explain_qinfo_def synthetic_qinfo_def)
  then have d: "as_decision (pg_circuit_assess_query (default_config False)
      (explain_qinfo PGC_QKIND_CREATE_INDEX_CONCURRENTLY 0 0) runtime) = PGC_DECISION_ALLOW"
    by (simp add: assess_decision mode_decision_def default_config_def PgCircuitMode_of_def)
  have f: "\<not> runtime_fault example_server (default_config False)"
    by (simp add: runtime_fault_def pg_circuit_fault_is_def default_config_def)
  have "ring_history example_shared = []" by (simp add: example_shared_def)
  with allowed_leaves_no_trace [OF f c example_event_names d] show ?thesis
    by (auto simp: example_world_def)
qed


section \<open>Installing and removing the hooks\<close>

text \<open>C39: removing the hooks undoes installing them slot by slot: whatever the four hook variables
  hold by then, each one that still holds this extension's hook gets back the value it had before
  the installation, and each one that another module changed since is left alone.\<close>

theorem hooks_uninstall:
  "let s' = pg_circuit_uninstall_hooks ((pg_circuit_install_hooks s)
              \<lparr>planner_hook := p, ProcessUtility_hook := u, ExecutorStart_hook := x, ExecutorEnd_hook := e\<rparr>) in
     planner_hook s' = (if p = Some PgCircuitHook then planner_hook s else p)
     \<and> ProcessUtility_hook s' = (if u = Some PgCircuitHook then ProcessUtility_hook s else u)
     \<and> ExecutorStart_hook s' = (if x = Some PgCircuitHook then ExecutorStart_hook s else x)
     \<and> ExecutorEnd_hook s' = (if e = Some PgCircuitHook then ExecutorEnd_hook s else e)
     \<and> planner_hook (pg_circuit_install_hooks s) = Some PgCircuitHook
     \<and> ProcessUtility_hook (pg_circuit_install_hooks s) = Some PgCircuitHook
     \<and> ExecutorStart_hook (pg_circuit_install_hooks s) = Some PgCircuitHook
     \<and> ExecutorEnd_hook (pg_circuit_install_hooks s) = Some PgCircuitHook"
  by (simp add: pg_circuit_install_hooks_def pg_circuit_uninstall_hooks_def Let_def)

end
