(* ===== verification/Pgc_Blocker_Props.thy ===== *)
theory Pgc_Blocker_Props
  imports Pgc_Blocker_Build
begin

text \<open>The properties of \<open>src/blocker_graph.c\<close>, over the lemmas of the three blocker theories.\<close>

definition example_edge :: "int \<Rightarrow> int \<Rightarrow> PgCircuitBlockerEdge" where
  "example_edge blocked blocking =
     \<lparr>be_blocked_pid = blocked, be_blocking_pid = blocking, be_blocked_for_seconds = 0,
      be_blocking_transaction_age_seconds = 0, be_database_oid = 0, be_relation_oid = 0,
      be_relation_name = '''', be_lock_type = '''', be_lock_mode = ''''\<rparr>"

definition example_graph :: "(int \<times> int) list \<Rightarrow> PgCircuitBlockerGraph" where
  "example_graph pairs =
     pg_circuit_blocker_graph_init\<lparr>bg_edges := map (\<lambda>(a, b). example_edge a b) pairs\<rparr>"

text \<open>C5: as long as at most \<open>PGC_MAX_BLOCKER_PIDS\<close> (64) processes take part, the in-place
  Warshall closure reports a cycle exactly if some process waits for itself, directly or through
  others.\<close>

theorem cycle_detected_iff:
  assumes "card (graph_pids edges) \<le> PGC_MAX_BLOCKER_PIDS"
  shows "graph_has_cycle edges \<longleftrightarrow> (\<exists>p. (p, p) \<in> (waits_for edges)\<^sup>+)"
  using graph_has_cycle_sound graph_has_cycle_complete [OF _ assms] by blast

theorem cycle_detected_iff_witness:
  "graph_has_cycle [example_edge 2 1, example_edge 3 2, example_edge 1 3]
   \<and> (\<exists>p. (p, p) \<in> (waits_for [example_edge 2 1, example_edge 3 2, example_edge 1 3])\<^sup>+)"
proof -
  have c: "card (graph_pids [example_edge 2 1, example_edge 3 2, example_edge 1 3])
      \<le> PGC_MAX_BLOCKER_PIDS"
    by (simp add: example_edge_def PGC_MAX_BLOCKER_PIDS_def card_insert_if)
  have "graph_has_cycle [example_edge 2 1, example_edge 3 2, example_edge 1 3]" by code_simp
  with cycle_detected_iff [OF c] show ?thesis by blast
qed

text \<open>C24: a reported cycle is genuine for every number of processes: leaving processes out of a
  full table never invents one.\<close>

theorem cycle_report_genuine:
  assumes "graph_has_cycle edges"
  shows "\<exists>p. (p, p) \<in> (waits_for edges)\<^sup>+"
  by (rule graph_has_cycle_sound [OF assms])

theorem cycle_report_genuine_witness:
  "\<exists>p. (p, p) \<in> (waits_for [example_edge 5 6, example_edge 6 5])\<^sup>+"
proof (rule cycle_report_genuine)
  show "graph_has_cycle [example_edge 5 6, example_edge 6 5]" by code_simp
qed

text \<open>C7: with at most 64 processes, the descendant count is the largest number of processes that
  wait, directly or through others, for one root blocker, and the chain depth is the largest
  distance (fewest waits) of such a process from its root; both are 0 without a root blocker.\<close>

theorem chain_severity_correct:
  assumes "card (graph_pids (bg_edges g)) \<le> PGC_MAX_BLOCKER_PIDS"
  shows "bg_max_descendant_count (compute_chain_severity g)
       = Max (insert 0 ((\<lambda>r. int (card (dependants (bg_edges g) r))) ` blocker_roots (bg_edges g)))
     \<and> bg_max_chain_depth (compute_chain_severity g)
       = Max (insert 0 ((\<lambda>r. int (Max (insert 0 (wait_distance (bg_edges g) r
                                                   ` dependants (bg_edges g) r))))
                        ` blocker_roots (bg_edges g)))"
  using compute_chain_severity_spec [OF assms] by (simp_all add: graph_roots_severity_def)

theorem chain_severity_correct_witness:
  "Max (insert 0 ((\<lambda>r. int (card (dependants (bg_edges (example_graph [(2, 1), (3, 2), (4, 2)])) r)))
       ` blocker_roots (bg_edges (example_graph [(2, 1), (3, 2), (4, 2)])))) = 3"
proof -
  have c: "card (graph_pids (bg_edges (example_graph [(2, 1), (3, 2), (4, 2)]))) \<le> PGC_MAX_BLOCKER_PIDS"
    by (simp add: example_edge_def example_graph_def PGC_MAX_BLOCKER_PIDS_def card_insert_if)
  have "bg_max_descendant_count (compute_chain_severity (example_graph [(2, 1), (3, 2), (4, 2)])) = 3"
    by code_simp
  with chain_severity_correct [OF c] show ?thesis by simp
qed



end
