(* ===== verification/Spec2Isabelle.thy ===== *)
theory Spec2Isabelle
  imports Pgc_Hook_Props Pgc_Blocker_Props
begin

text \<open>
  A verification development for PG Circuit, a PostgreSQL extension that scores risky
  statements before they run and warns about or blocks them. It models the C sources of the
  extension, \<open>src/*.c\<close> and \<open>include/*.h\<close>.

  \<^bold>\<open>How the program works.\<close> Loading the module (\<open>_PG_init\<close>, \<open>pg_circuit.c\<close>) registers the
  configuration variables, the shared-memory hooks and four executor hooks. When a backend runs
  a utility statement or starts a DELETE or UPDATE, the hook (\<open>hooks.c\<close>) classifies it
  (\<open>utility_analysis.c\<close>, \<open>query_analysis.c\<close>) into a \<open>PgCircuitQueryInfo\<close>. Unless its kind is
  \<open>OTHER\<close>, \<open>evaluate_and_apply\<close> collects a \<open>PgCircuitRuntimeState\<close> of transactions, locks,
  replication and WAL (\<open>transactions.c\<close>, \<open>locks.c\<close> over \<open>blocker_graph.c\<close>, \<open>replication.c\<close>,
  \<open>wal.c\<close>), scores the pressure (\<open>runtime_state.c\<close>), assesses the statement (\<open>risk_engine.c\<close>),
  records the decision in a ring of events in shared memory (\<open>event.c\<close>, \<open>shmem.c\<close>) and applies it
  (\<open>circuit_breaker.c\<close>), which may raise an error. The SQL functions of \<open>pg_circuit.c\<close> show the
  state, the blocker graph, the history, and the assessment of a hypothetical statement.

  \<^bold>\<open>Theories and sources.\<close>
  \<^item> \<open>Pgc_Prelude\<close>: C integers, bounded string copies, decimal digits, the locale \<open>c_enum\<close>;
    \<open>Pgc_Double\<close>: IEEE double rounding as a function on the reals, the locale \<open>rounding\<close>.
  \<^item> \<open>Pgc_Types\<close>: the enumerations and constants of the headers. \<open>Pgc_Server\<close>: what the extension
    calls of PostgreSQL, as the record \<open>pg_server\<close>. \<open>Pgc_Config\<close>: \<open>config.c\<close>, \<open>fault.h\<close>.
    \<open>Pgc_Reporting\<close>: the names of \<open>reporting.c\<close> and the other files. \<open>Pgc_Relations\<close>:
    \<open>relations.c\<close>.
  \<^item> \<open>Pgc_Events\<close>, \<open>Pgc_Shmem\<close>: \<open>event.h\<close>, \<open>shmem.h\<close>, \<open>shmem.c\<close>; the locale \<open>bounded_history\<close>.
  \<^item> \<open>Pgc_Pressure\<close>: the factors and the report of \<open>runtime_state.c\<close>. \<open>Pgc_Transactions\<close>,
    \<open>Pgc_Replication\<close>, \<open>Pgc_Wal\<close>: the collectors of the same names.
  \<^item> \<open>Pgc_Blocker_Graph\<close>: \<open>blocker_graph.c\<close>; its correctness in \<open>Pgc_Blocker_Cycle\<close> (Warshall
    closure), \<open>Pgc_Blocker_Chain\<close> (breadth-first search) and \<open>Pgc_Blocker_Build\<close> (the lock scan).
    \<open>Pgc_Runtime\<close>: \<open>locks.c\<close> and the collection.
  \<^item> \<open>Pgc_Risk_Engine\<close>, \<open>Pgc_Policy\<close>, \<open>Pgc_Circuit_Breaker\<close>, \<open>Pgc_Event_Fill\<close>,
    \<open>Pgc_Query_Analysis\<close>, \<open>Pgc_Utility_Analysis\<close>: the C files of these names.
  \<^item> \<open>Pgc_World\<close>: the effects; \<open>Pgc_Hooks\<close>: \<open>hooks.c\<close>, the locale \<open>chained_hook\<close>;
    \<open>Pgc_Sql_Api\<close>: \<open>pg_circuit.c\<close>.
  \<^item> \<open>Pgc_Blocker_Props\<close>, \<open>Pgc_Shmem_Props\<close>, \<open>Pgc_Signal_Props\<close>, \<open>Pgc_Risk_Props\<close>,
    \<open>Pgc_Hook_Props\<close> and this theory: the properties \<open>C1\<close> to \<open>C39\<close>, each named in the text
    before its theorem, and witnesses at concrete inputs.

  \<^bold>\<open>Correspondence.\<close> A struct is a record with the prefix of its name on the fields, an enum a
  datatype with its codes, a \<open>char\<close> array the string before its terminating zero, written by
  \<open>strlcpy\<close> and \<open>snprintf\<close> with their truncation. A C integer is an \<open>int\<close> kept in range by
  \<open>wrap16\<close>, \<open>wrap32\<close> or \<open>wrap64\<close> where the code can leave it; the arithmetic of the scores is
  \<open>c_add\<close> and \<open>c_mul\<close>, which wrap as PostgreSQL's build flags make it. A \<open>double\<close> is the real
  number it denotes, rounded by \<open>dround\<close> after each operation; infinities and NaN are outside the
  model. A pointer that may be NULL is an option. Code that can raise returns \<open>Inl\<close> of the report
  or is an \<open>action\<close> on the \<open>world\<close>: the shared segment and the log of reports.
  The server is the parameter \<open>pg\<close>: each of its calls is a field, with \<open>Inl\<close> where it can raise,
  which is every access to a catalog, a relation, the lock manager or the WAL statistics;
  each site that reads the clock has its own field, as the times differ. The start-up hook of
  another module and the next routine of a hook chain are arguments of the hooks that call them.

  \<^bold>\<open>What is shown.\<close> \<open>chained_hook\<close> states the contract of a hook (check, then call the saved
  routine exactly once) and is interpreted on the four hooks. \<open>bounded_history\<close> states what a
  ring promises (the last \<open>capacity\<close> entries, newest first) and is interpreted on the event
  ring, which makes it a refinement of a list. \<open>shmem_reach\<close> is the step relation of the shared
  segment (startup, store, WAL sample), with its invariants by rule induction. The blocker graph
  is compared with the waits-for relation: the cycle test with its transitive closure, the
  severity with reachability and distance, and the scan with the list of all conflicting pairs.
  The scores are stated as sums of tiers, their combination as the capped sum, the assessment
  as the sum of its findings, and the decision as a table over mode and thresholds. The hook
  theorems combine these: what is stopped, what passes and with which exceptions, and what is
  recorded. \<open>run_wal_samples\<close> samples the shared WAL cache from sessions with their own thresholds.

  \<^bold>\<open>Bounds and termination.\<close> The graph keeps 256 edges and its tables 64 processes; the theorems
  about cycles and chains state the second bound as a hypothesis where a full table would lose
  edges; that a reported cycle is genuine needs no bound. The search queue never exceeds 64 entries,
  which is the measure of \<open>bfs_loop\<close>. The index loop of the snapshot returns because the capacity
  is positive; it is a partial function, and the view theorems show that its result exists.
  Events are numbered with 64-bit counters: consecutive ids hold below \<open>2 ^ 63\<close> events. The
  counts of backends are below \<open>2 ^ 18\<close>, the server's own limit, where a theorem needs it.

  \<^bold>\<open>Not modelled.\<close> Memory management (each \<open>palloc\<close> and \<open>pfree\<close>) has no counterpart, nor has an
  error for lack of memory; locks are the atomicity of one operation on the segment; two segments at once, PostgreSQL's assignment of
  configuration variables, its call protocol for SQL functions, \<open>compat.h\<close>, the install script
  and the command line client in Go are left out.
\<close>

section \<open>Statements and the shared history\<close>

text \<open>
  Statements of any backends, each with its own view of the server and its own configuration,
  evaluated one after the other on the shared state.
\<close>

definition run_statements :: "(pg_server \<times> config \<times> PgCircuitQueryInfo) list \<Rightarrow> world \<Rightarrow> world" where
  "run_statements stmts w = fold (\<lambda>(pg, cfg, q) w. snd (evaluate_and_apply pg cfg q w)) stmts w"

lemma collect_wal_reach:
  assumes "shmem_reach cfg0 n st"
  shows "\<exists>st'. snd (pg_circuit_collect_wal_signals pg cfg (Some st) s) = Some st' \<and> shmem_reach cfg0 n st'"
proof (cases "\<exists>bytes. pgstat_fetch_stat_wal pg = Inr (Some bytes)")
  case True
  then obtain bytes where b: "pgstat_fetch_stat_wal pg = Inr (Some bytes)" ..
  obtain r st' where u: "pg_circuit_wal_sample_update cfg bytes (now_wal pg) (Some st) = (r, Some st')"
    using wal_update_Some by (metis prod.collapse)
  have "snd (pg_circuit_collect_wal_signals pg cfg (Some st) s) = Some st'"
    using b u by (simp add: pg_circuit_collect_wal_signals_def Let_def split: prod.split)
  with shmem_reach.sampled [OF assms u] show ?thesis by blast
next
  case False
  then have "snd (pg_circuit_collect_wal_signals pg cfg (Some st) s) = Some st"
    by (auto simp: pg_circuit_collect_wal_signals_def Let_def split: sum.split option.split)
  with assms show ?thesis by blast
qed

lemma collect_runtime_reach:
  assumes "shmem_reach cfg0 n st"
  shows "\<exists>st'. snd (pg_circuit_collect_runtime_state pg cfg (Some st)) = Some st' \<and> shmem_reach cfg0 n st'"
proof -
  have "snd (case pg_circuit_collect_wal_signals pg cfg (Some st) s of
                     (Inl e, shared) \<Rightarrow> (Inl e, shared)
                   | (Inr state, shared) \<Rightarrow>
                       (Inr (pg_circuit_compute_pressure_and_mode cfg state), shared))
      = snd (pg_circuit_collect_wal_signals pg cfg (Some st) s)" for s
    by (simp split: prod.split sum.split)
  with assms collect_wal_reach [OF assms, of pg cfg] show ?thesis
    by (simp add: pg_circuit_collect_runtime_state_def Let_def split: sum.split)
qed

lemma recorded_reach:
  assumes "shmem_reach cfg0 n st"
  shows "\<exists>st' m. snd (recorded pg cfg q runtime (Some st)) = Some st' \<and> shmem_reach cfg0 m st'
     \<and> (m = n \<or> m = Suc n)"
proof (cases "event_names pg (MyDatabaseId pg) (CurrentUserId pg)")
  case (Inl e)
  then have "snd (recorded pg cfg q runtime (Some st)) = Some st"
    by (simp add: recorded_def pg_circuit_persist_risk_event_def Let_def)
  with assms show ?thesis by blast
next
  case (Inr names)
  define a where "a = pg_circuit_assess_query cfg q runtime"
  define p where "p = pg_circuit_policy_evaluate q runtime a"
  define ev where "ev = pg_circuit_fill_risk_event pg q runtime a (Some p)"
  obtain rids rel db usr where r: "snd (recorded pg cfg q runtime (Some st))
      = pg_circuit_event_record pg cfg (Some ev) rids rel db usr (Some p) (Some st)"
    using Inr
    by (cases names) (simp add: recorded_def pg_circuit_persist_risk_event_def Let_def a_def p_def ev_def)
  have ok: "ring_ok st" using shmem_reach_ring [OF assms] ..
  show ?thesis
  proof (cases "event_stored pg cfg ev (Some p)")
    case True
    from shmem_reach.stored [OF assms True event_record_stored [OF ok True]]
    show ?thesis unfolding r event_record_stored [OF ok True] by blast
  next
    case False
    then show ?thesis using assms by (simp add: r event_record_dropped) blast
  qed
qed

lemma evaluate_reach:
  assumes "w_shared w = Some st" and "shmem_reach cfg0 n st"
  shows "\<exists>st' m. w_shared (snd (evaluate_and_apply pg cfg q w)) = Some st'
     \<and> shmem_reach cfg0 m st' \<and> (m = n \<or> m = Suc n)"
proof (cases "qi_kind q = PGC_QKIND_OTHER")
  case True
  with assms show ?thesis by (simp add: evaluate_other ret_def) blast
next
  case False
  have catch: "w_shared (snd (evaluate_catch cfg e w')) = w_shared w'" for e w'
    by (simp add: evaluate_catch_run)
  have "w_shared (snd (evaluate_and_apply pg cfg q w)) = w_shared (snd (evaluate_body pg cfg q w))"
  proof (cases "evaluate_body pg cfg q w")
    case (Pair r w')
    with evaluate_raised [OF False, of pg cfg w] evaluate_returned [OF False, of pg cfg w] catch
    show ?thesis by (cases r) auto
  qed
  moreover have "\<exists>st' m. w_shared (snd (evaluate_body pg cfg q w)) = Some st'
     \<and> shmem_reach cfg0 m st' \<and> (m = n \<or> m = Suc n)"
  proof (cases rule: evaluate_body_cases [of pg cfg q w])
    case fault
    with assms show ?thesis by auto
  next
    case (error e sh)
    with collect_runtime_reach [OF assms(2), of pg cfg] assms(1) show ?thesis by auto
  next
    case (unrecorded runtime sh e sh')
    obtain st1 where st1: "sh = Some st1" "shmem_reach cfg0 n st1"
      using collect_runtime_reach [OF assms(2), of pg cfg] unrecorded(2) assms(1) by auto
    with recorded_reach [OF st1(2), of pg cfg q runtime] unrecorded(3,4) show ?thesis by simp
  next
    case (decided runtime sh sh')
    obtain st1 where st1: "sh = Some st1" "shmem_reach cfg0 n st1"
      using collect_runtime_reach [OF assms(2), of pg cfg] decided(2) assms(1) by auto
    have "w_shared (snd (pg_circuit_apply_decision_ex pg cfg a r q p w1)) = w_shared w1" for a r p w1
      by (simp add: apply_decision_run Let_def split: PgCircuitDecision.split)
    with recorded_reach [OF st1(2), of pg cfg q runtime] st1(1) decided(3,4) show ?thesis by simp
  qed
  ultimately show ?thesis by simp
qed

lemma run_statements_reach:
  assumes "w_shared w = Some st" and "shmem_reach cfg0 n st"
  shows "\<exists>st' m. w_shared (run_statements stmts w) = Some st' \<and> shmem_reach cfg0 m st'
     \<and> n \<le> m \<and> m \<le> n + length stmts"
  using assms
proof (induction stmts arbitrary: w st n)
  case Nil
  then show ?case by (auto simp: run_statements_def)
next
  case (Cons s stmts)
  obtain pg cfg q where s: "s = (pg, cfg, q)" by (cases s) auto
  obtain st1 m1 where 1: "w_shared (snd (evaluate_and_apply pg cfg q w)) = Some st1"
    "shmem_reach cfg0 m1 st1" "m1 = n \<or> m1 = Suc n"
    using evaluate_reach [OF Cons.prems] by blast
  from Cons.IH [OF 1(1,2)] 1(3) show ?case by (fastforce simp: run_statements_def s)
qed

text \<open>C4: end to end: after any sequence of statements, of any kinds, by any backends under any
  configurations and with any server failures in between, the events view of a server that
  preloaded the module lists \<open>min n capacity\<close> events, newest first, with the consecutive ids
  \<open>n, n - 1, \<dots>\<close>, where \<open>n\<close> is at most the number of statements.\<close>

theorem events_view_after_statements:
  assumes "w_shared w = Some (shmem_fresh hdr evsz cfg0)" and "0 < evsz"
    and "length stmts < 2 ^ 63"
  shows "\<exists>n history. n \<le> length stmts
     \<and> pg_circuit_events cfg0 True (w_shared (run_statements stmts w)) = Some (Inr (map event_row history))
     \<and> map se_event_id history = map (\<lambda>i. int (n - i)) [0..<min n (nat (event_capacity cfg0))]"
proof -
  obtain st n where st: "w_shared (run_statements stmts w) = Some st" "shmem_reach cfg0 n st"
    and n: "n \<le> length stmts"
    using run_statements_reach [OF assms(1) shmem_reach.start [OF assms(2)], of stmts] by auto
  have r: "ring_ok st" "ss_capacity st = event_capacity cfg0" using shmem_reach_ring [OF st(2)] by auto
  have "ids_ok n st" using shmem_reach_ids [OF st(2)] n assms(3) by simp
  moreover have "pg_circuit_events cfg0 True (Some st) = Some (Inr (map event_row (ring_history st)))"
  proof -
    have "length (ring_history st) \<le> nat (event_capacity cfg0)"
      using ring_history_bounded [OF r(1)] r(2) by (simp add: ring_capacity_def)
    then show ?thesis
      using event_capacity_pos [of cfg0] by (simp add: pg_circuit_events_def snapshot_history [OF r(1)])
  qed
  ultimately show ?thesis
    using n r(2) by (intro exI [of _ n] exI [of _ "ring_history st"])
      (simp add: st(1) ids_ok_def ring_capacity_def)
qed

theorem events_view_after_statements_witness:
  "\<exists>n history. n \<le> 2
     \<and> pg_circuit_events (default_config False) True
         (w_shared (run_statements
           [(example_server, default_config False, explain_qinfo PGC_QKIND_TRUNCATE 0 0),
            (example_server, enforce_config, explain_qinfo PGC_QKIND_DROP_TABLE 0 0)] example_world))
       = Some (Inr (map event_row history))
     \<and> length history = min n 256"
proof -
  have "w_shared example_world = Some (shmem_fresh 64 512 (default_config False))"
    by (simp add: example_world_def example_shared_def)
  define stmts where "stmts =
      [(example_server, default_config False, explain_qinfo PGC_QKIND_TRUNCATE 0 0),
       (example_server, enforce_config, explain_qinfo PGC_QKIND_DROP_TABLE 0 0)]"
  have len: "length stmts = 2" by (simp add: stmts_def)
  then have "length stmts < 2 ^ 63" "(0 :: nat) < 512" by simp_all
  from events_view_after_statements [OF \<open>w_shared example_world = _\<close> this(2,1)] len
  obtain n history where h: "n \<le> 2" "pg_circuit_events (default_config False) True
         (w_shared (run_statements stmts example_world)) = Some (Inr (map event_row history))"
    and ids: "map se_event_id history
       = map (\<lambda>i. int (n - i)) [0..<min n (nat (event_capacity (default_config False)))]"
    by (metis (no_types, lifting))
  have "length history = min n 256"
    using ids [THEN arg_cong [where f = length]] by (simp add: event_capacity_def default_config_def)
  with h show ?thesis unfolding stmts_def by blast
qed

end
